theory Spec2Isabelle
  imports Main "HOL-Library.FSet" "HOL-Library.Sublist"
begin

section \<open>Python strings\<close>

text \<open>
  A Python \<open>str\<close> is a sequence of Unicode code points, so it is modelled as a list of
  natural numbers (the code points). \<open>u\<close> reads an ASCII literal; code points outside
  ASCII are written as numbers (\<open>0x22C5\<close> is the dot operator, \<open>0xB7\<close> the middle dot).
\<close>

type_synonym ustr = "nat list"

definition u :: "string \<Rightarrow> ustr" where
  "u s = map of_char s"

definition sq :: ustr where
  \<comment> \<open>the apostrophe\<close>
  "sq = [39]"

text \<open>
  \<open>str.strip()\<close> without an argument removes the characters for which \<open>str.isspace\<close>
  holds; with an argument it removes the characters of the argument.
\<close>

definition isspace :: "nat \<Rightarrow> bool" where
  "isspace c \<longleftrightarrow> (9 \<le> c \<and> c \<le> 13) \<or> (28 \<le> c \<and> c \<le> 32) \<or> c = 0x85 \<or> c = 0xA0
     \<or> c = 0x1680 \<or> (0x2000 \<le> c \<and> c \<le> 0x200A) \<or> c = 0x2028 \<or> c = 0x2029
     \<or> c = 0x202F \<or> c = 0x205F \<or> c = 0x3000"

definition lstrip_by :: "(nat \<Rightarrow> bool) \<Rightarrow> ustr \<Rightarrow> ustr" where
  "lstrip_by P s = dropWhile P s"

definition rstrip_by :: "(nat \<Rightarrow> bool) \<Rightarrow> ustr \<Rightarrow> ustr" where
  "rstrip_by P s = rev (dropWhile P (rev s))"

definition strip_by :: "(nat \<Rightarrow> bool) \<Rightarrow> ustr \<Rightarrow> ustr" where
  "strip_by P s = rstrip_by P (lstrip_by P s)"

definition strip :: "ustr \<Rightarrow> ustr" where
  "strip s = strip_by isspace s"

definition remove_char :: "nat \<Rightarrow> ustr \<Rightarrow> ustr" where
  \<comment> \<open>\<open>s.replace(c, "")\<close> for a one-character \<open>c\<close>\<close>
  "remove_char c s = filter (\<lambda>x. x \<noteq> c) s"

definition startswith :: "ustr \<Rightarrow> ustr \<Rightarrow> bool" where
  "startswith s p = prefix p s"

text \<open>\<open>str(n)\<close> for a non-negative integer, and \<open>int(ds)\<close> for a string of ASCII digits.\<close>

fun str_nat :: "nat \<Rightarrow> ustr" where
  "str_nat n = (if n < 10 then [48 + n] else str_nat (n div 10) @ [48 + n mod 10])"

declare str_nat.simps [simp del]

definition int_of_digits :: "ustr \<Rightarrow> nat" where
  "int_of_digits ds = foldl (\<lambda>a d. 10 * a + (d - 48)) 0 ds"

text \<open>
  \<open>html.escape(s)\<close> (with \<open>quote=True\<close>, the default): the five characters
  \<open>& < > " '\<close> are replaced, every other character is kept.
\<close>

definition escape_char :: "nat \<Rightarrow> ustr" where
  "escape_char c =
     (if c = 38 then u ''&amp;''
      else if c = 60 then u ''&lt;''
      else if c = 62 then u ''&gt;''
      else if c = 34 then u ''&quot;''
      else if c = 39 then u ''&#x27;''
      else [c])"

definition escape :: "ustr \<Rightarrow> ustr" where
  "escape s = concat (map escape_char s)"

text \<open>
  Truthiness of an \<open>Optional[str]\<close>: \<open>None\<close> and the empty string are false.
  \<open>or_else x d\<close> is \<open>x or d\<close>, \<open>if_set x f d\<close> is \<open>f(x) if x else d\<close> and
  \<open>when_set x f\<close> is \<open>f(x) if x else ""\<close>.
\<close>

definition truthy :: "ustr option \<Rightarrow> bool" where
  "truthy x = (case x of None \<Rightarrow> False | Some s \<Rightarrow> s \<noteq> [])"

definition or_else :: "ustr option \<Rightarrow> ustr \<Rightarrow> ustr" where
  "or_else x d = (case x of None \<Rightarrow> d | Some s \<Rightarrow> if s \<noteq> [] then s else d)"

definition if_set :: "ustr option \<Rightarrow> (ustr \<Rightarrow> ustr) \<Rightarrow> ustr \<Rightarrow> ustr" where
  "if_set x f d = (case x of None \<Rightarrow> d | Some s \<Rightarrow> if s \<noteq> [] then f s else d)"

definition when_set :: "ustr option \<Rightarrow> (ustr \<Rightarrow> ustr) \<Rightarrow> ustr" where
  "when_set x f = if_set x f []"

definition when_item :: "ustr option \<Rightarrow> (ustr \<Rightarrow> ustr) \<Rightarrow> ustr list" where
  \<comment> \<open>\<open>if x: items.append(f(x))\<close>\<close>
  "when_item x f = (case x of None \<Rightarrow> [] | Some s \<Rightarrow> if s \<noteq> [] then [f s] else [])"

section \<open>Errors and the file system\<close>

text \<open>
  An exception that leaves the program is a value \<open>Inl e\<close>. \<open>AttributeError\<close> is a string
  method called on \<open>None\<close>, \<open>ValueError\<close> is raised by \<open>int\<close>, \<open>FileNotFoundError\<close> by
  opening a file that is missing or a file whose directory is missing, \<open>OSError\<close> stands
  for the other failures of the file system (a name that is too long, a file where a
  directory is needed, a directory where a file is needed), and \<open>SystemExit\<close> carries its
  message.
\<close>

datatype error = AttributeError | ValueError | FileNotFoundError | OSError | SystemExit ustr

definition bind_err :: "error + 'a \<Rightarrow> ('a \<Rightarrow> error + 'b) \<Rightarrow> error + 'b" where
  "bind_err m f = (case m of Inl e \<Rightarrow> Inl e | Inr v \<Rightarrow> f v)"

text \<open>
  What a run leaves behind: the files written (path, as its list of components, to
  content), the directories that exist, and the lines printed. A step that writes ends
  with an exception or without one, and leaves a world both ways: its result is the
  exception, if there is one, and the world. \<open>then_do\<close> runs the next step when the step
  before it has raised nothing.

  The file system refuses a name of more than \<open>name_max\<close> bytes in UTF-8 (255 on the
  file systems of Linux), a directory where a file is, and a file where a directory is or
  where the directory to hold it is missing. Failures that the paths and the world do not
  decide (permissions, a full disk) are not modelled.
\<close>

record world =
  files :: "ustr list \<rightharpoonup> ustr"
  dirs :: "ustr list fset"
  stdout :: "ustr list"

definition then_do ::
  "error option \<times> world \<Rightarrow> (world \<Rightarrow> error option \<times> world) \<Rightarrow> error option \<times> world" where
  "then_do r f = (case r of (None, w) \<Rightarrow> f w | (Some e, w) \<Rightarrow> (Some e, w))"

fun for_each ::
  "('a \<Rightarrow> world \<Rightarrow> error option \<times> world) \<Rightarrow> 'a list \<Rightarrow> world \<Rightarrow> error option \<times> world" where
  \<comment> \<open>a \<open>for\<close> loop whose body writes: it stops at the first exception\<close>
  "for_each f [] w = (None, w)"
| "for_each f (x # xs) w = then_do (f x w) (for_each f xs)"

definition name_max :: nat where
  "name_max = 255"

definition utf8_length :: "ustr \<Rightarrow> nat" where
  \<comment> \<open>the number of bytes of the UTF-8 encoding\<close>
  "utf8_length s =
     sum_list (map (\<lambda>c. if c < 0x80 then 1 else if c < 0x800 then 2
                         else if c < 0x10000 then 3 else 4) s)"

definition mkdir_one :: "ustr list \<Rightarrow> world \<Rightarrow> error option \<times> world" where
  \<comment> \<open>\<open>mkdir(exist_ok=True)\<close> of a path whose parent exists\<close>
  "mkdir_one p w =
     (if name_max < utf8_length (last p) \<or> files w p \<noteq> None then (Some OSError, w)
      else (None, w\<lparr>dirs := finsert p (dirs w)\<rparr>))"

definition mkdir :: "ustr list \<Rightarrow> world \<Rightarrow> error option \<times> world" where
  \<comment> \<open>\<open>mkdir(parents=True, exist_ok=True)\<close>: every parent, from the outermost, then the
      directory itself\<close>
  "mkdir p w = for_each mkdir_one (filter (\<lambda>q. q \<noteq> []) (prefixes p)) w"

definition write_text :: "ustr list \<Rightarrow> ustr \<Rightarrow> world \<Rightarrow> error option \<times> world" where
  "write_text p content w =
     (if butlast p \<noteq> [] \<and> butlast p |\<notin>| dirs w
      then (Some (if files w (butlast p) = None then FileNotFoundError else OSError), w)
      else if name_max < utf8_length (last p) \<or> p |\<in>| dirs w then (Some OSError, w)
      else (None, w\<lparr>files := (files w)(p \<mapsto> content)\<rparr>))"

definition exists_path :: "ustr list \<Rightarrow> world \<Rightarrow> bool" where
  "exists_path p w \<longleftrightarrow> files w p \<noteq> None \<or> p |\<in>| dirs w"

section \<open>The generator of the repository root: \<open>generate_pages.py\<close>\<close>

subsection \<open>Slugs\<close>

text \<open>
  The substitution \<open>re.sub\<close> of \<open>slugify\<close>: its pattern is one or more characters
  other than \<open>a-z\<close>, \<open>A-Z\<close>, \<open>0-9\<close> and the code points \<open>U+4E00\<close> to \<open>U+9FFF\<close>,
  so every maximal run of such characters becomes one hyphen (code point 45).
\<close>

definition slug_char :: "nat \<Rightarrow> bool" where
  "slug_char c \<longleftrightarrow> (97 \<le> c \<and> c \<le> 122) \<or> (65 \<le> c \<and> c \<le> 90) \<or> (48 \<le> c \<and> c \<le> 57)
     \<or> (0x4E00 \<le> c \<and> c \<le> 0x9FFF)"

function re_sub_runs :: "ustr \<Rightarrow> ustr" where
  "re_sub_runs [] = []"
| "re_sub_runs (c # cs) =
     (if slug_char c then c # re_sub_runs cs
      else 45 # re_sub_runs (dropWhile (\<lambda>x. \<not> slug_char x) cs))"
  by pat_completeness auto
termination
  by (relation "measure length") (auto simp: le_imp_less_Suc length_dropWhile_le)

text \<open>
  \<open>str.lower()\<close> on what reaches it in \<open>slugify\<close>: ASCII letters and digits, the
  ideographs \<open>U+4E00\<close> to \<open>U+9FFF\<close> (which have no case) and hyphens, so only
  \<open>A\<close> to \<open>Z\<close> change.
\<close>

definition lower :: "ustr \<Rightarrow> ustr" where
  "lower s = map (\<lambda>c. if 65 \<le> c \<and> c \<le> 90 then c + 32 else c) s"

definition candidate :: "ustr \<Rightarrow> nat \<Rightarrow> ustr" where
  \<comment> \<open>\<open>f"{base}-{counter}"\<close>\<close>
  "candidate base counter = base @ u ''-'' @ str_nat counter"

lemma int_of_digits_snoc: "int_of_digits (ds @ [d]) = 10 * int_of_digits ds + (d - 48)"
  by (simp add: int_of_digits_def)

lemma int_of_digits_str_nat: "int_of_digits (str_nat n) = n"
proof (induction n rule: str_nat.induct)
  case (1 n)
  show ?case
  proof (cases "n < 10")
    case True
    then show ?thesis by (subst str_nat.simps) (simp add: int_of_digits_def)
  next
    case False
    with 1 have "int_of_digits (str_nat (n div 10)) = n div 10" by simp
    with False show ?thesis by (subst str_nat.simps) (simp add: int_of_digits_snoc)
  qed
qed

lemma str_nat_inj: "str_nat a = str_nat b \<Longrightarrow> a = b"
  by (metis int_of_digits_str_nat)

lemma candidate_inj: "candidate base a = candidate base b \<Longrightarrow> a = b"
  by (simp add: candidate_def str_nat_inj)

lemma finite_taken: "finite {c. n \<le> c \<and> candidate base c |\<in>| existing}"
proof -
  have "inj (candidate base)" by (auto intro: injI candidate_inj)
  then have "finite (candidate base -` fset existing)" by (simp add: finite_vimageI)
  moreover have "{c. n \<le> c \<and> candidate base c |\<in>| existing} \<subseteq> candidate base -` fset existing"
    by auto
  ultimately show ?thesis by (rule rev_finite_subset)
qed

text \<open>
  The \<open>while slug in existing\<close> loop. \<open>existing\<close> is a Python set, hence finite; the loop
  ends because the candidates \<open>base-2\<close>, \<open>base-3\<close>, ... are pairwise different, so only
  finitely many of them are in \<open>existing\<close>.
\<close>

function slug_loop :: "ustr \<Rightarrow> ustr fset \<Rightarrow> ustr \<Rightarrow> nat \<Rightarrow> ustr" where
  "slug_loop base existing slug counter =
     (if slug |\<in>| existing then slug_loop base existing (candidate base counter) (counter + 1)
      else slug)"
  by pat_completeness auto
termination
proof (relation "measure (\<lambda>(base, existing, slug, counter).
          card {c. counter \<le> c \<and> candidate base c |\<in>| existing}
          + (if slug |\<in>| existing then 1 else 0))")
  show "wf (measure (\<lambda>(base, existing, slug, counter).
          card {c. counter \<le> c \<and> candidate base c |\<in>| existing}
          + (if slug |\<in>| existing then 1 else 0)))" by simp
next
  fix base :: ustr and existing :: "ustr fset" and slug :: ustr and counter :: nat
  assume "slug |\<in>| existing"
  let ?A = "\<lambda>n. {c. n \<le> c \<and> candidate base c |\<in>| existing}"
  have split: "?A counter = (if candidate base counter |\<in>| existing then {counter} else {}) \<union> ?A (counter + 1)"
    by (auto simp: Suc_le_eq le_less)
  have "card (?A counter) = (if candidate base counter |\<in>| existing then 1 else 0) + card (?A (counter + 1))"
    by (subst split, subst card_Un_disjoint) (auto simp: finite_taken)
  with \<open>slug |\<in>| existing\<close>
  show "((base, existing, candidate base counter, counter + 1), (base, existing, slug, counter))
      \<in> measure (\<lambda>(base, existing, slug, counter).
          card {c. counter \<le> c \<and> candidate base c |\<in>| existing}
          + (if slug |\<in>| existing then 1 else 0))"
    by simp
qed

declare slug_loop.simps [simp del]

definition slug_base :: "ustr \<Rightarrow> ustr" where
  \<comment> \<open>the value of \<open>base\<close> when the loop of \<open>slugify\<close> starts\<close>
  "slug_base name =
     (let base = lower (strip_by (\<lambda>c. c = 45) (re_sub_runs name))
      in if base = [] then u ''store'' else base)"

definition slugify :: "ustr \<Rightarrow> ustr fset \<Rightarrow> ustr \<times> ustr fset" where
  \<comment> \<open>returns the slug and the set \<open>existing\<close> as the call leaves it\<close>
  "slugify name existing =
     (let base = slug_base name;
          slug = slug_loop base existing base 2
      in (slug, finsert slug existing))"

subsection \<open>Reading the two CSV files\<close>

record Store =
  name :: ustr
  map_url :: ustr
  rating :: "ustr option"
  review_count :: "ustr option"
  category :: "ustr option"
  address :: "ustr option"
  status :: "ustr option"
  hours :: "ustr option"
  website :: "ustr option"
  phone :: "ustr option"
  features :: "ustr list"
  image_url :: "ustr option"
  slug :: ustr

text \<open>
  \<open>csv.DictReader\<close> yields one dictionary per data line, keyed by the header's column
  names. A line shorter than the header has \<open>None\<close> for the columns it lacks, so a value
  is a \<open>ustr option\<close>. \<open>get_str row key\<close> is \<open>row.get(key, "")\<close> together with the string
  method the source calls on the result at every use (\<open>strip\<close>, \<open>replace\<close>), which
  raises \<open>AttributeError\<close> on \<open>None\<close>. An input file is \<open>None\<close> when it does not exist.
\<close>

type_synonym dict_row = "ustr \<rightharpoonup> ustr option"

definition get_str :: "dict_row \<Rightarrow> ustr \<Rightarrow> error + ustr" where
  "get_str row key =
     (case row key of None \<Rightarrow> Inr [] | Some None \<Rightarrow> Inl AttributeError | Some (Some v) \<Rightarrow> Inr v)"

fun load_images_loop :: "dict_row list \<Rightarrow> (ustr \<rightharpoonup> ustr) \<Rightarrow> error + (ustr \<rightharpoonup> ustr)" where
  "load_images_loop [] mapping = Inr mapping"
| "load_images_loop (row # rows) mapping =
     bind_err (get_str row (u ''hfpxzc href'')) (\<lambda>map_raw.
     bind_err (get_str row (u ''aoRNLd src'')) (\<lambda>img_raw.
       let map_url = strip map_raw; img = strip img_raw
       in load_images_loop rows
            (if map_url \<noteq> [] \<and> img \<noteq> [] then mapping(map_url \<mapsto> img) else mapping)))"

definition load_images :: "dict_row list option \<Rightarrow> error + (ustr \<rightharpoonup> ustr)" where
  "load_images detail_file =
     (case detail_file of None \<Rightarrow> Inr Map.empty | Some rows \<Rightarrow> load_images_loop rows Map.empty)"

definition clean_value :: "ustr \<Rightarrow> ustr" where
  "clean_value t = strip (remove_char 0xB7 (remove_char 0x22C5 t))"

fun add_features :: "dict_row \<Rightarrow> ustr list \<Rightarrow> ustr list \<Rightarrow> error + ustr list" where
  \<comment> \<open>\<open>for key in [...]: value = clean_value(row.get(key, "")); if value: append\<close>\<close>
  "add_features row [] acc = Inr acc"
| "add_features row (key # keys) acc =
     bind_err (get_str row key) (\<lambda>raw.
       let v = clean_value raw
       in add_features row keys (if v \<noteq> [] then acc @ [v] else acc))"

text \<open>
  The state of the loop of \<open>load_stores\<close>: the image mapping it reads, the records built
  so far and the slugs given out.
\<close>

record loader =
  l_images :: "ustr \<rightharpoonup> ustr"
  l_stores :: "Store list"
  l_seen_slugs :: "ustr fset"

definition load_stores_row :: "dict_row \<Rightarrow> loader \<Rightarrow> error + loader" where
  \<comment> \<open>one turn of the loop of \<open>load_stores\<close>\<close>
  "load_stores_row row st =
     bind_err (get_str row (u ''qBF1Pd'')) (\<lambda>name_raw.
     bind_err (get_str row (u ''hfpxzc href'')) (\<lambda>map_raw.
       let name = strip name_raw; map_url = strip map_raw in
       if name = [] then Inr st
       else
         bind_err (get_str row (u ''MW4etd'')) (\<lambda>rating_raw.
         bind_err (get_str row (u ''UY7F9'')) (\<lambda>review_raw.
         bind_err (get_str row (u ''W4Efsd'')) (\<lambda>category_raw.
         bind_err (get_str row (u ''W4Efsd (3)'')) (\<lambda>address_raw.
         bind_err (get_str row (u ''W4Efsd (4)'')) (\<lambda>status_raw.
         bind_err (get_str row (u ''W4Efsd (5)'')) (\<lambda>hours_raw.
         bind_err (get_str row (u ''lcr4fd href'')) (\<lambda>website_raw.
         bind_err (get_str row (u ''UsdlK'')) (\<lambda>phone_raw.
         bind_err (add_features row [u ''ah5Ghc'', u ''ah5Ghc (2)''] []) (\<lambda>fs.
           let (sl, seen) = slugify name (l_seen_slugs st);
               store = \<lparr> Store.name = name,
                         Store.map_url = map_url,
                         Store.rating = Some (clean_value rating_raw),
                         Store.review_count =
                           Some (clean_value (strip_by (\<lambda>c. c = 40 \<or> c = 41) review_raw)),
                         Store.category = Some (clean_value category_raw),
                         Store.address = Some (clean_value address_raw),
                         Store.status = Some (clean_value status_raw),
                         Store.hours = Some (clean_value hours_raw),
                         Store.website =
                           (if strip website_raw = [] then None else Some (strip website_raw)),
                         Store.phone =
                           (if clean_value phone_raw = [] then None
                            else Some (clean_value phone_raw)),
                         Store.features = fs,
                         Store.image_url = l_images st map_url,
                         Store.slug = sl \<rparr>
           in Inr (st\<lparr>l_stores := l_stores st @ [store], l_seen_slugs := seen\<rparr>))))))))))))"

fun load_stores_loop :: "dict_row list \<Rightarrow> loader \<Rightarrow> error + loader" where
  "load_stores_loop [] st = Inr st"
| "load_stores_loop (row # rows) st = bind_err (load_stores_row row st) (load_stores_loop rows)"

definition load_stores :: "dict_row list option \<Rightarrow> dict_row list option \<Rightarrow> error + Store list" where
  "load_stores detail_file data_file =
     bind_err (load_images detail_file) (\<lambda>imgs.
       case data_file of
         None \<Rightarrow> Inl FileNotFoundError
       | Some rows \<Rightarrow>
           bind_err (load_stores_loop rows \<lparr>l_images = imgs, l_stores = [], l_seen_slugs = {||}\<rparr>)
             (\<lambda>st. Inr (l_stores st)))"

subsection \<open>Rendering and writing the pages\<close>

text \<open>
  The templates are the source's string literals, piece by piece; a placeholder of an
  f-string is the expression between the pieces.
\<close>

definition no_rating :: ustr where
  "no_rating = [0x5C1A, 0x7121, 0x8A55, 0x5206]"

definition no_address :: ustr where
  "no_address = [0x5730, 0x5740, 0x672A, 0x63D0, 0x4F9B]"

definition display_name :: "Store \<Rightarrow> ustr" where
  \<comment> \<open>\<open>store.name.rstrip(...) or store.name\<close>: the bars \<open>U+007C\<close> and \<open>U+FF5C\<close> are cut off the end\<close>
  "display_name store =
     (let d = rstrip_by (\<lambda>c. c = 0x7C \<or> c = 0xFF5C) (Store.name store)
      in if d = [] then Store.name store else d)"

definition image_tag :: "Store \<Rightarrow> ustr" where
  "image_tag store =
     when_set (Store.image_url store)
       (\<lambda>img. concat
           [u ''<img src='', sq, escape img, sq, u '' alt='', sq, escape (Store.name store), sq,
            u ''>''])"

definition review_span :: "Store \<Rightarrow> ustr" where
  "review_span store =
     when_set (Store.review_count store)
       (\<lambda>n. concat
           [u ''<span>('', escape n, u '' '', [0x5247, 0x8A55, 0x8AD6], u '')</span>''])"

definition category_span :: "Store \<Rightarrow> ustr" where
  "category_span store =
     when_set (Store.category store)
       (\<lambda>c. concat
           [u ''<span>'', escape c, u ''</span>''])"

definition website_button :: "Store \<Rightarrow> ustr" where
  "website_button store =
     when_set (Store.website store)
       (\<lambda>w. concat
           [u ''<a class='button' href='', sq, escape w, sq,
            u '' target='_blank' rel='noreferrer'>'', [0x5B98, 0x65B9, 0x7DB2, 0x7AD9], u ''</a>''])"

definition index_card :: "Store \<Rightarrow> ustr" where
  \<comment> \<open>\<open>"".join(card_parts)\<close> in \<open>render_index\<close>\<close>
  "index_card store =
     concat
      [u ''<article class='card'>'', u ''<div class='thumb'>'', image_tag store, u ''</div>'',
       u ''<div class='card-body'>'', u ''<a href='', sq, Store.slug store,
       u ''/index.html'><h3>'', escape (display_name store), u ''</h3></a>'',
       u ''<div class='meta'>'', u ''<span>'', [0x2B50], u '' '',
       escape (or_else (Store.rating store) no_rating), u ''</span>'', review_span store,
       category_span store, u ''</div>'', u ''<p>'',
       escape (or_else (Store.address store) no_address), u ''</p>'',
       u ''<div class='button-row'>'', u ''<a class='button primary' href='', sq,
       escape (Store.map_url store), sq, u '' target='_blank' rel='noreferrer'>'',
       [0x67E5, 0x770B, 0x5730, 0x5716], u ''</a>'', website_button store, u ''</div>'',
       u ''</div></article>'']"

definition index_html :: "Store list \<Rightarrow> ustr" where
  "index_html sts =
     concat
      [u ''<!doctype html>\<newline>'',
       u ''<html lang='zh-Hant'>\<newline>'',
       u ''<head>\<newline>'',
       u ''  <meta charset='utf-8'>\<newline>'',
       u ''  <meta name='viewport' content='width=device-width, initial-scale=1'>\<newline>'',
       u ''  <title>'', [0x5BF5, 0x7269, 0x7F8E, 0x5BB9, 0x5E97, 0x5BB6, 0x7D22, 0x5F15],
       u ''</title>\<newline>'',
       u ''  <link rel='stylesheet' href='assets/style.css'>\<newline>'',
       u ''</head>\<newline>'',
       u ''<body>\<newline>'',
       u ''  <header>\<newline>'',
       u ''    <p class='chip'>GitHub Pages '', [0xB7], u '' '', [0x5BF5, 0x7269, 0x7F8E, 0x5BB9],
       u ''</p>\<newline>'',
       u ''    <h1>'', [0x5BF5, 0x7269, 0x7F8E, 0x5BB9, 0x5E97, 0x5BB6, 0x7D22, 0x5F15],
       u ''</h1>\<newline>'',
       u ''    <p>'',
       [0x70BA, 0x60A8, 0x6574, 0x7406, 0x53F0, 0x4E2D, 0x591A, 0x5BB6, 0x5BF5, 0x7269, 0x7F8E, 0x5BB9, 0x8207, 0x81EA, 0x52A9, 0x6D17, 0x6FA1, 0x5E97, 0x5BB6, 0x7684, 0x57FA, 0x672C, 0x8CC7, 0x8A0A, 0xFF0C, 0x9EDE, 0x64CA, 0x5361, 0x7247, 0x5373, 0x53EF, 0x67E5, 0x770B, 0x5C08, 0x5C6C, 0x5206, 0x9801, 0x3002],
       u ''</p>\<newline>'',
       u ''  </header>\<newline>'',
       u ''  <section class='grid'>\<newline>'',
       u ''    '', concat (map index_card sts), u ''\<newline>'',
       u ''  </section>\<newline>'',
       u ''</body>\<newline>'',
       u ''</html>'']"

definition meta_items :: "Store \<Rightarrow> ustr list" where
  "meta_items store =
       when_item (Store.address store)
         (\<lambda>a. concat
             [u ''<li class='info-item'><strong>'', [0x5730, 0x5740], u ''</strong><br>'',
              escape a, u ''</li>''])
     @ when_item (Store.phone store)
         (\<lambda>p. concat
             [u ''<li class='info-item'><strong>'', [0x96FB, 0x8A71], u ''</strong><br>'',
              escape p, u ''</li>''])
     @ when_item (Store.status store)
         (\<lambda>s. concat
             [u ''<li class='info-item'><strong>'', [0x71DF, 0x696D, 0x72C0, 0x614B],
              u ''</strong><br>'', escape s, u ''</li>''])
     @ when_item (Store.hours store)
         (\<lambda>h. concat
             [u ''<li class='info-item'><strong>'', [0x71DF, 0x696D, 0x6642, 0x9593],
              u ''</strong><br>'', escape h, u ''</li>''])"

definition features_html :: "Store \<Rightarrow> ustr" where
  "features_html store =
     concat (map (\<lambda>feature. concat
             [u ''<span class='badge'>'', escape feature, u ''</span>''])
       (Store.features store))"

definition features_block :: "Store \<Rightarrow> ustr" where
  "features_block store =
     (if features_html store \<noteq> [] then concat
         [u ''<div style='margin-top:12px;'>'', features_html store, u ''</div>'']
      else [])"

definition image_block :: "Store \<Rightarrow> ustr" where
  "image_block store =
     if_set (Store.image_url store)
       (\<lambda>img. concat
           [u ''<div class='thumb'><img src='', sq, escape img, sq, u '' alt='', sq,
            escape (display_name store), sq, u ''></div>''])
       (u ''<div class='thumb'></div>'')"

definition store_html :: "Store \<Rightarrow> ustr" where
  "store_html store =
     concat
      [u ''<!doctype html>\<newline>'',
       u ''<html lang='zh-Hant'>\<newline>'',
       u ''  <head>\<newline>'',
       u ''    <meta charset='utf-8'>\<newline>'',
       u ''    <meta name='viewport' content='width=device-width, initial-scale=1'>\<newline>'',
       u ''    <title>'', escape (display_name store),
       [0xFF5C, 0x5BF5, 0x7269, 0x7F8E, 0x5BB9, 0x5E97, 0x5BB6], u ''</title>\<newline>'',
       u ''    <link rel='stylesheet' href='../assets/style.css'>\<newline>'',
       u ''  </head>\<newline>'',
       u ''  <body>\<newline>'',
       u ''    <div class='hero'>\<newline>'',
       u ''      <a class='chip' href='../index.html'>'', [0x2190], u '' '',
       [0x8FD4, 0x56DE, 0x5217, 0x8868], u ''</a>\<newline>'',
       u ''      <h1>'', escape (display_name store), u ''</h1>\<newline>'',
       u ''      <p class='meta'>\<newline>'',
       u ''        <span>'', [0x2B50], u '' '', escape (or_else (Store.rating store) no_rating),
       u ''</span>\<newline>'',
       u ''        '', review_span store, u ''\<newline>'',
       u ''        '', category_span store, u ''\<newline>'',
       u ''      </p>\<newline>'',
       u ''    </div>\<newline>'',
       u ''    <div class='layout'>\<newline>'',
       u ''      <div class='section'>\<newline>'',
       u ''        '', image_block store, u ''\<newline>'',
       u ''        <div class='button-row' style='margin-top:12px;'>\<newline>'',
       u ''          <a class='button primary' href='', sq, escape (Store.map_url store), sq,
       u '' target='_blank' rel='noreferrer'>'', [0x5728, 0x5730, 0x5716, 0x67E5, 0x770B],
       u ''</a>\<newline>'',
       u ''          '', website_button store, u ''\<newline>'',
       u ''        </div>\<newline>'',
       u ''        '', features_block store, u ''\<newline>'',
       u ''      </div>\<newline>'',
       u ''\<newline>'',
       u ''      <div class='section'>\<newline>'',
       u ''        <h2>'', [0x5E97, 0x5BB6, 0x8CC7, 0x8A0A], u ''</h2>\<newline>'',
       u ''        <ul class='info-list'>\<newline>'',
       u ''          '', concat (meta_items store), u ''\<newline>'',
       u ''        </ul>\<newline>'',
       u ''      </div>\<newline>'',
       u ''    </div>\<newline>'',
       u ''  </body>\<newline>'',
       u ''</html>'']"

definition style_css :: ustr where
  "style_css =
     concat
      [u ''@import url('https://fonts.googleapis.com/css2?family=Noto+Sans+TC:wght@400;600;700&display=swap');\<newline>'',
       u '':root{--bg:#f8fafc;--card:#ffffff;--accent:#ff9f43;--text:#0f172a;--muted:#475569;--border:#e2e8f0;}\<newline>'',
       u ''*{box-sizing:border-box;}body{margin:0;font-family:'Noto Sans TC',system-ui,sans-serif;background:var(--bg);color:var(--text);}a{text-decoration:none;color:inherit;}\<newline>'',
       u ''header{padding:32px 24px 16px;max-width:1080px;margin:auto;}\<newline>'',
       u ''h1,h2,h3{margin:0 0 12px;font-weight:700;line-height:1.2;}\<newline>'',
       u ''p{margin:0 0 12px;color:var(--muted);}\<newline>'',
       u ''.chip{display:inline-flex;align-items:center;gap:6px;padding:6px 10px;border-radius:999px;border:1px solid var(--border);background:#fff;}\<newline>'',
       u ''.grid{display:grid;grid-template-columns:repeat(auto-fit,minmax(260px,1fr));gap:16px;padding:0 24px 32px;max-width:1080px;margin:auto;}\<newline>'',
       u ''.card{background:var(--card);border:1px solid var(--border);border-radius:16px;overflow:hidden;display:flex;flex-direction:column;transition:transform .15s ease,box-shadow .15s ease;}\<newline>'',
       u ''.card:hover{transform:translateY(-3px);box-shadow:0 10px 30px rgba(15,23,42,.1);}\<newline>'',
       u ''.thumb{height:160px;background:linear-gradient(120deg,#ffe4c4,#ffd0a8);position:relative;}\<newline>'',
       u ''.thumb img{width:100%;height:100%;object-fit:cover;display:block;}\<newline>'',
       u ''.card-body{padding:16px;display:flex;flex-direction:column;gap:8px;}\<newline>'',
       u ''.meta{display:flex;flex-wrap:wrap;gap:8px;color:var(--muted);font-size:14px;}\<newline>'',
       u ''.button-row{display:flex;flex-wrap:wrap;gap:10px;margin-top:4px;}\<newline>'',
       u ''.button{padding:10px 12px;border-radius:10px;border:1px solid var(--border);background:#fff;font-weight:600;display:inline-flex;gap:6px;align-items:center;}\<newline>'',
       u ''.button.primary{background:var(--accent);color:#1f2937;border:none;}\<newline>'',
       u ''.layout{max-width:920px;margin:auto;padding:0 24px 40px;}\<newline>'',
       u ''.hero{background:var(--card);border-bottom:1px solid var(--border);padding:28px 24px 16px;}\<newline>'',
       u ''.section{margin-top:24px;padding:20px;border-radius:14px;background:var(--card);border:1px solid var(--border);}\<newline>'',
       u ''.info-list{list-style:none;padding:0;margin:0;display:grid;grid-template-columns:repeat(auto-fit,minmax(240px,1fr));gap:12px;}\<newline>'',
       u ''.info-item{padding:12px;border-radius:12px;border:1px dashed var(--border);background:#fdfdfd;}\<newline>'',
       u ''.badge{display:inline-block;padding:6px 10px;border-radius:8px;background:rgba(255,159,67,.15);color:#c05d00;font-weight:600;margin-right:8px;}\<newline>'']"

definition generated_line :: "Store list \<Rightarrow> ustr" where
  \<comment> \<open>the line \<open>build_site\<close> prints\<close>
  "generated_line sts =
     concat
      [u ''Generated '', str_nat (length sts), u '' store pages in '', u ''docs'', u ''/'']"

definition ensure_assets :: "world \<Rightarrow> error option \<times> world" where
  "ensure_assets w =
     then_do (mkdir [u ''docs'', u ''assets''] w) (\<lambda>w1.
       let style_path = [u ''docs'', u ''assets'', u ''style.css'']
       in if \<not> exists_path style_path w1 then write_text style_path style_css w1
          else (None, w1))"

definition render_index :: "Store list \<Rightarrow> world \<Rightarrow> error option \<times> world" where
  "render_index sts w =
     then_do (mkdir [u ''docs''] w) (\<lambda>w1.
     then_do (ensure_assets w1) (\<lambda>w2.
       write_text [u ''docs'', u ''index.html''] (index_html sts) w2))"

definition render_store_page :: "Store \<Rightarrow> world \<Rightarrow> error option \<times> world" where
  "render_store_page store w =
     then_do (mkdir [u ''docs''] w) (\<lambda>w1.
     then_do (ensure_assets w1) (\<lambda>w2.
       let store_dir = [u ''docs'', Store.slug store] in
       then_do (mkdir store_dir w2) (\<lambda>w3.
         write_text (store_dir @ [u ''index.html'']) (store_html store) w3)))"

definition build_site ::
  "dict_row list option \<Rightarrow> dict_row list option \<Rightarrow> world \<Rightarrow> error option \<times> world" where
  \<comment> \<open>the exception that ended the run, if one did, and the world the run leaves\<close>
  "build_site detail_file data_file w =
     (case load_stores detail_file data_file of
        Inl e \<Rightarrow> (Some e, w)
      | Inr sts \<Rightarrow>
          then_do (render_index sts w) (\<lambda>w1.
          then_do (for_each render_store_page sts w1) (\<lambda>w2.
            (None, w2\<lparr>stdout := stdout w2 @ [generated_line sts]\<rparr>))))"

section \<open>The generator under \<open>scripts\<close>: \<open>scripts/generate_pages.py\<close>\<close>

text \<open>
  This generator has a record type, \<open>load_images\<close>, \<open>ensure_assets\<close> and \<open>render_index\<close>
  of its own; they carry the prefix \<open>scripts\<close> here. A rating is a Python \<open>float\<close>: its
  type is the parameter \<open>'f\<close>, \<open>float_of\<close> stands for the built-in \<open>float\<close> on strings
  (\<open>None\<close> where it raises \<open>ValueError\<close>) and \<open>fmt1\<close> for the format \<open>.1f\<close>.
\<close>

record 'f scripts_Store =
  slug :: ustr
  name :: ustr
  map_url :: ustr
  rating :: "'f option"
  review_count :: "nat option"
  category :: "ustr option"
  address :: "ustr option"
  status :: "ustr option"
  hours_note :: "ustr option"
  website :: "ustr option"
  phone :: "ustr option"
  services :: "ustr list"
  image_url :: "ustr option"

definition join :: "ustr \<Rightarrow> ustr list \<Rightarrow> ustr" where
  \<comment> \<open>\<open>sep.join(pieces)\<close>\<close>
  "join sep pieces = concat (case pieces of [] \<Rightarrow> [] | p # ps \<Rightarrow> p # map (\<lambda>q. sep @ q) ps)"

definition badge_text :: "'f scripts_Store \<Rightarrow> ustr" where
  "badge_text self =
     join (u '' '' @ [0xB7] @ u '' '')
       (filter (\<lambda>p. p \<noteq> [])
          (map (\<lambda>x. or_else x [])
             [scripts_Store.category self, scripts_Store.status self,
              scripts_Store.hours_note self]))"

fun scripts_load_images_loop :: "ustr list list \<Rightarrow> (ustr \<rightharpoonup> ustr) \<Rightarrow> (ustr \<rightharpoonup> ustr)" where
  "scripts_load_images_loop [] imgs = imgs"
| "scripts_load_images_loop (row # rows) imgs =
     (if length row < 2 then scripts_load_images_loop rows imgs
      else
        let map_url = strip (row ! 0); image_url = strip (row ! 1)
        in scripts_load_images_loop rows
             (if map_url \<noteq> [] \<and> image_url \<noteq> [] then imgs(map_url \<mapsto> image_url) else imgs))"

definition scripts_load_images :: "ustr list list option \<Rightarrow> error + (ustr \<rightharpoonup> ustr)" where
  \<comment> \<open>\<open>csv.reader\<close> yields one list of cells per line; the first line is the header\<close>
  "scripts_load_images detail_csv =
     (case detail_csv of
        None \<Rightarrow> Inl FileNotFoundError
      | Some rows \<Rightarrow> Inr (scripts_load_images_loop (drop 1 rows) Map.empty))"

definition coerce_float :: "(ustr \<Rightarrow> 'f option) \<Rightarrow> ustr \<Rightarrow> 'f option" where
  "coerce_float float_of v = float_of v"

text \<open>
  \<open>int(digits)\<close> is the number the digits write. CPython refuses a decimal string of more
  than \<open>sys.get_int_max_str_digits()\<close> digits with a \<open>ValueError\<close> (the default limit is
  4300; limit 0, and every version older than the limit, has none): \<open>max_str_digits\<close> is
  that limit. \<open>coerce_int\<close> does not catch the exception.
\<close>

definition coerce_int :: "nat \<Rightarrow> ustr \<Rightarrow> error + nat option" where
  "coerce_int max_str_digits v =
     (let digits = filter (\<lambda>c. 48 \<le> c \<and> c \<le> 57) v
      in if digits = [] then Inr None
         else if 0 < max_str_digits \<and> max_str_digits < length digits then Inl ValueError
         else Inr (Some (int_of_digits digits)))"

definition clean_text :: "ustr option \<Rightarrow> ustr option" where
  "clean_text v =
     (case v of
        None \<Rightarrow> None
      | Some s \<Rightarrow>
          if s = [] then None
          else
            let stripped = strip (lstrip_by (\<lambda>c. c = 0x22C5) (strip s))
            in if stripped = [] then None else Some stripped)"

definition pad2 :: "nat \<Rightarrow> ustr" where
  \<comment> \<open>the format \<open>02d\<close>: zeros on the left up to two characters\<close>
  "pad2 n = replicate (2 - length (str_nat n)) 48 @ str_nat n"

definition cell :: "ustr list \<Rightarrow> nat \<Rightarrow> ustr option" where
  \<comment> \<open>\<open>row[i] if len(row) > i else None\<close>\<close>
  "cell row i = (if length row > i then Some (row ! i) else None)"

definition collect_services :: "ustr list \<Rightarrow> ustr list" where
  \<comment> \<open>the loop over \<open>row[17:]\<close>\<close>
  "collect_services row =
     List.map_filter
       (\<lambda>chunk. let t = clean_text (Some chunk) in if truthy t \<and> t \<noteq> Some [0xB7] then t else None)
       (drop 17 row)"

text \<open>
  The state of the loop of \<open>parse_stores\<close>: the image mapping it was given (a dictionary
  the callee could change) and the records built so far.
\<close>

record 'f parser =
  p_image_lookup :: "ustr \<rightharpoonup> ustr"
  p_stores :: "'f scripts_Store list"

definition parse_stores_row ::
  "(ustr \<Rightarrow> 'f option) \<Rightarrow> nat \<Rightarrow> ustr list \<Rightarrow> 'f parser \<Rightarrow> error + 'f parser" where
  \<comment> \<open>one turn of the loop of \<open>parse_stores\<close>\<close>
  "parse_stores_row float_of max_str_digits row st =
     (if length row < 3 then Inr st
      else
        let map_url = strip (row ! 1); name = strip (row ! 2) in
        if \<not> (map_url \<noteq> [] \<and> name \<noteq> [] \<and> startswith map_url (u ''http'')) then Inr st
        else
          let rating = (if length row > 3 then coerce_float float_of (strip (row ! 3)) else None) in
          bind_err (if length row > 4 then coerce_int max_str_digits (row ! 4) else Inr None)
            (\<lambda>review_count.
              let website_raw = (if length row > 10 then strip (row ! 10) else []);
                  store = \<lparr> scripts_Store.slug = u ''store-'' @ pad2 (length (p_stores st) + 1),
                            scripts_Store.name = name,
                            scripts_Store.map_url = map_url,
                            scripts_Store.rating = rating,
                            scripts_Store.review_count = review_count,
                            scripts_Store.category = clean_text (cell row 5),
                            scripts_Store.address = clean_text (cell row 7),
                            scripts_Store.status = clean_text (cell row 8),
                            scripts_Store.hours_note = clean_text (cell row 9),
                            scripts_Store.website =
                              (if startswith website_raw (u ''http'') then Some website_raw else None),
                            scripts_Store.phone = clean_text (cell row 16),
                            scripts_Store.services = collect_services row,
                            scripts_Store.image_url = p_image_lookup st map_url \<rparr>
              in Inr (st\<lparr>p_stores := p_stores st @ [store]\<rparr>)))"

fun parse_stores_loop ::
  "(ustr \<Rightarrow> 'f option) \<Rightarrow> nat \<Rightarrow> ustr list list \<Rightarrow> 'f parser \<Rightarrow> error + 'f parser" where
  "parse_stores_loop float_of max_str_digits [] st = Inr st"
| "parse_stores_loop float_of max_str_digits (row # rows) st =
     bind_err (parse_stores_row float_of max_str_digits row st)
       (parse_stores_loop float_of max_str_digits rows)"

definition parse_stores ::
  "(ustr \<Rightarrow> 'f option) \<Rightarrow> nat \<Rightarrow> ustr list list option \<Rightarrow> (ustr \<rightharpoonup> ustr)
     \<Rightarrow> error + 'f parser" where
  \<comment> \<open>the result holds the records and the mapping as the call leaves it\<close>
  "parse_stores float_of max_str_digits data_csv image_lookup =
     (case data_csv of
        None \<Rightarrow> Inl FileNotFoundError
      | Some rows \<Rightarrow>
          parse_stores_loop float_of max_str_digits (drop 1 rows)
            \<lparr>p_image_lookup = image_lookup, p_stores = []\<rparr>)"

subsection \<open>Rendering and writing the pages\<close>

text \<open>
  \<open>json_dumps\<close> stands for \<open>json.dumps(payload, ensure_ascii=False, indent=2)\<close> on the
  list of the records' dictionaries. Paths are relative to the repository root.
\<close>

definition card_placeholder :: ustr where
  "card_placeholder = u ''https://via.placeholder.com/640x360?text=Pet+Grooming''"

definition store_placeholder :: ustr where
  "store_placeholder = u ''https://via.placeholder.com/960x540?text=Pet+Grooming''"

definition default_badge :: ustr where
  "default_badge = [0x5BF5, 0x7269, 0x7F8E, 0x5BB9]"

definition default_lede :: ustr where
  "default_lede = [0x63D0, 0x4F9B, 0x5C08, 0x696D, 0x5BF5, 0x7269, 0x7F8E, 0x5BB9, 0x670D, 0x52D9]"

definition scripts_no_address :: ustr where
  "scripts_no_address = [0x5730, 0x5740, 0x672A, 0x63D0, 0x4F9B]"

definition no_status :: ustr where
  "no_status = [0x71DF, 0x696D, 0x72C0, 0x614B, 0x672A, 0x63D0, 0x4F9B]"

definition no_hours :: ustr where
  "no_hours = [0x6B61, 0x8FCE, 0x96FB, 0x8A71, 0x8A62, 0x554F, 0x71DF, 0x696D, 0x6642, 0x9593]"

definition no_phone :: ustr where
  "no_phone = [0x672A, 0x63D0, 0x4F9B]"

definition no_services :: ustr where
  "no_services = u ''<li>'' @ [0x6B61, 0x8FCE, 0x96FB, 0x8A71, 0x6D3D, 0x8A62, 0x670D, 0x52D9, 0x5167, 0x5BB9] @ u ''</li>''"

definition no_stores_message :: ustr where
  "no_stores_message = u ''No stores found to generate''"

definition rating_text :: "('f \<Rightarrow> ustr) \<Rightarrow> 'f scripts_Store \<Rightarrow> ustr" where
  "rating_text fmt1 store =
     (case scripts_Store.rating store of None \<Rightarrow> u ''--'' | Some r \<Rightarrow> fmt1 r)"

definition reviews_text :: "'f scripts_Store \<Rightarrow> ustr" where
  "reviews_text store =
     (case scripts_Store.review_count store of
        None \<Rightarrow> []
      | Some n \<Rightarrow> concat
           [[0xFF08], str_nat n, u '' '', [0x5247, 0x8A55, 0x8AD6, 0xFF09]])"

definition render_card :: "('f \<Rightarrow> ustr) \<Rightarrow> 'f scripts_Store \<Rightarrow> ustr" where
  "render_card fmt1 store =
     (let image = escape (or_else (scripts_Store.image_url store) card_placeholder);
          badge = escape (badge_text store);
          address = escape (or_else (scripts_Store.address store) scripts_no_address)
      in concat
         [u ''\<newline>'',
          u ''      <article class=\"card\">\<newline>'',
          u ''        <a class=\"card__link\" href=\"stores/'', scripts_Store.slug store,
          u ''/index.html\">\<newline>'',
          u ''          <div class=\"card__image\">\<newline>'',
          u ''            <img src=\"'', image, u ''\" alt=\"'',
          escape (scripts_Store.name store), u ''\" loading=\"lazy\" />\<newline>'',
          u ''          </div>\<newline>'',
          u ''          <div class=\"card__body\">\<newline>'',
          u ''            <p class=\"badge\">'',
          (if badge \<noteq> [] then badge else default_badge), u ''</p>\<newline>'',
          u ''            <h2 class=\"card__title\">'', escape (scripts_Store.name store),
          u ''</h2>\<newline>'',
          u ''            <p class=\"card__meta\">'', [0x2B50], u '' '', rating_text fmt1 store,
          u '' '', reviews_text store, u ''</p>\<newline>'',
          u ''            <p class=\"card__text\">'', address, u ''</p>\<newline>'',
          u ''          </div>\<newline>'',
          u ''        </a>\<newline>'',
          u ''      </article>\<newline>'',
          u ''    ''])"

definition scripts_render_index :: "('f \<Rightarrow> ustr) \<Rightarrow> 'f scripts_Store list \<Rightarrow> ustr" where
  "scripts_render_index fmt1 sts =
     (let cards = join (u ''\<newline>'') (map (render_card fmt1) sts)
      in concat
         [u ''<!doctype html>\<newline>'',
          u ''<html lang=\"zh-Hant\">\<newline>'',
          u ''<head>\<newline>'',
          u ''  <meta charset=\"utf-8\" />\<newline>'',
          u ''  <meta name=\"viewport\" content=\"width=device-width, initial-scale=1\" />\<newline>'',
          u ''  <title>'',
          [0x53F0, 0x4E2D, 0x5BF5, 0x7269, 0x7F8E, 0x5BB9, 0x5730, 0x5716, 0xFF5C, 0x7368, 0x7ACB, 0x5E97, 0x5BB6, 0x7DB2, 0x7AD9, 0x7D22, 0x5F15],
          u ''</title>\<newline>'',
          u ''  <link rel=\"stylesheet\" href=\"assets/style.css\" />\<newline>'',
          u ''</head>\<newline>'',
          u ''<body>\<newline>'',
          u ''  <header class=\"hero\">\<newline>'',
          u ''    <div class=\"container\">\<newline>'',
          u ''      <p class=\"eyebrow\">GitHub Pages '', [0x5C08, 0x6848], u ''</p>\<newline>'',
          u ''      <h1>'',
          [0x53F0, 0x4E2D, 0x5BF5, 0x7269, 0x7F8E, 0x5BB9, 0x5E97, 0x5BB6, 0x7D22, 0x5F15],
          u ''</h1>\<newline>'',
          u ''      <p class=\"lede\">'',
          [0x6BCF, 0x9593, 0x5E97, 0x90FD, 0x6709, 0x81EA, 0x5DF1, 0x7684, 0x4ECB, 0x7D39, 0x9801, 0x9762, 0x3001, 0x5730, 0x5716, 0x9023, 0x7D50, 0x8207, 0x806F, 0x7D61, 0x8CC7, 0x8A0A, 0x3002, 0x9EDE, 0x64CA, 0x4E0B, 0x65B9, 0x5361, 0x7247, 0x5373, 0x53EF, 0x700F, 0x89BD, 0x3002],
          u ''</p>\<newline>'',
          u ''    </div>\<newline>'',
          u ''  </header>\<newline>'',
          u ''  <main class=\"container\">\<newline>'',
          u ''    <section class=\"grid\">'', cards, u ''</section>\<newline>'',
          u ''  </main>\<newline>'',
          u ''  <footer class=\"footer\">\<newline>'',
          u ''    <div class=\"container\">\<newline>'',
          u ''      <p>'', [0x8CC7, 0x6599, 0x4F86, 0x6E90, 0xFF1A], u ''repo '',
          [0x5167, 0x5EFA], u '' CSV'',
          [0xFF0C, 0x7DB2, 0x7AD9, 0x81EA, 0x52D5, 0x751F, 0x6210, 0xFF0C, 0x53EF, 0x76F4, 0x63A5, 0x900F, 0x904E],
          u '' GitHub Pages '', [0x767C, 0x4F48, 0x3002], u ''</p>\<newline>'',
          u ''    </div>\<newline>'',
          u ''  </footer>\<newline>'',
          u ''</body>\<newline>'',
          u ''</html>\<newline>''])"

definition render_store :: "('f \<Rightarrow> ustr) \<Rightarrow> 'f scripts_Store \<Rightarrow> ustr" where
  "render_store fmt1 store =
     (let image = escape (or_else (scripts_Store.image_url store) store_placeholder);
          items = concat (map (\<lambda>item. concat
                      [u ''<li>'', escape item, u ''</li>''])
                    (scripts_Store.services store));
          services = (if items \<noteq> [] then items else no_services);
          address = escape (or_else (scripts_Store.address store) scripts_no_address);
          status_line = escape (or_else (scripts_Store.status store) no_status);
          hours_line = escape (or_else (scripts_Store.hours_note store) no_hours);
          website_link =
            when_set (scripts_Store.website store)
              (\<lambda>w. concat
                  [u ''<a class=\"button\" href=\"'', escape w,
                   u ''\" target=\"_blank\" rel=\"noopener\">'',
                   [0x9020, 0x8A2A, 0x5B98, 0x65B9, 0x7DB2, 0x7AD9], u ''</a>'']);
          phone_line =
            when_set (scripts_Store.phone store)
              (\<lambda>p. concat
                  [u ''<a class=\"button button--ghost\" href=\"tel:'', escape p, u ''\">'',
                   [0x64A5, 0x6253], u '' '', escape p, u '' </a>'']);
          map_link = escape (scripts_Store.map_url store)
      in concat
         [u ''<!doctype html>\<newline>'',
          u ''<html lang=\"zh-Hant\">\<newline>'',
          u ''<head>\<newline>'',
          u ''  <meta charset=\"utf-8\" />\<newline>'',
          u ''  <meta name=\"viewport\" content=\"width=device-width, initial-scale=1\" />\<newline>'',
          u ''  <title>'', escape (scripts_Store.name store),
          [0xFF5C, 0x53F0, 0x4E2D, 0x5BF5, 0x7269, 0x7F8E, 0x5BB9, 0x5E97],
          u ''</title>\<newline>'',
          u ''  <link rel=\"stylesheet\" href=\"../../assets/style.css\" />\<newline>'',
          u ''</head>\<newline>'',
          u ''<body>\<newline>'',
          u ''  <header class=\"hero\">\<newline>'',
          u ''    <div class=\"container\">\<newline>'',
          u ''      <p class=\"eyebrow\">'', [0x7368, 0x7ACB, 0x5E97, 0x5BB6, 0x9801, 0x9762],
          u ''</p>\<newline>'',
          u ''      <h1>'', escape (scripts_Store.name store), u ''</h1>\<newline>'',
          u ''      <p class=\"lede\">'',
          escape (if badge_text store \<noteq> [] then badge_text store else default_lede),
          u ''</p>\<newline>'',
          u ''      <div class=\"actions\">\<newline>'',
          u ''        <a class=\"button\" href=\"'', map_link,
          u ''\" target=\"_blank\" rel=\"noopener\">'', [0x67E5, 0x770B, 0x5730, 0x5716],
          u '' / '', [0x5C0E, 0x822A], u ''</a>\<newline>'',
          u ''        '', website_link, u ''\<newline>'',
          u ''        '', phone_line, u ''\<newline>'',
          u ''        <a class=\"button button--ghost\" href=\"../../index.html\">'',
          [0x56DE, 0x5230, 0x5E97, 0x5BB6, 0x7D22, 0x5F15], u ''</a>\<newline>'',
          u ''      </div>\<newline>'',
          u ''    </div>\<newline>'',
          u ''  </header>\<newline>'',
          u ''  <main class=\"container layout\">\<newline>'',
          u ''    <div class=\"layout__media\">\<newline>'',
          u ''      <img src=\"'', image, u ''\" alt=\"'', escape (scripts_Store.name store),
          u ''\" />\<newline>'',
          u ''    </div>\<newline>'',
          u ''    <div class=\"layout__content\">\<newline>'',
          u ''      <div class=\"pill\">'', [0x2B50], u '' '', rating_text fmt1 store, u '' '',
          reviews_text store, u ''</div>\<newline>'',
          u ''      <p class=\"detail\"><strong>'', [0x5730, 0x5740, 0xFF1A], u ''</strong>'',
          address, u ''</p>\<newline>'',
          u ''      <p class=\"detail\"><strong>'', [0x71DF, 0x696D, 0x72C0, 0x614B, 0xFF1A],
          u ''</strong>'', status_line, u ''</p>\<newline>'',
          u ''      <p class=\"detail\"><strong>'', [0x71DF, 0x696D, 0x6642, 0x9593, 0xFF1A],
          u ''</strong>'', hours_line, u ''</p>\<newline>'',
          u ''      <p class=\"detail\"><strong>'', [0x806F, 0x7D61, 0x96FB, 0x8A71, 0xFF1A],
          u ''</strong>'', if_set (scripts_Store.phone store) escape no_phone,
          u ''</p>\<newline>'',
          u ''      <p class=\"detail\"><strong>'', [0x5730, 0x5716, 0x9023, 0x7D50, 0xFF1A],
          u ''</strong><a href=\"'', map_link, u ''\" target=\"_blank\" rel=\"noopener\">'',
          [0x5728, 0x5730, 0x5716, 0x4E0A, 0x67E5, 0x770B], u ''</a></p>\<newline>'',
          u ''      <h2>'', [0x670D, 0x52D9, 0x8207, 0x5099, 0x8A3B], u ''</h2>\<newline>'',
          u ''      <ul class=\"list\">'', services, u ''</ul>\<newline>'',
          u ''    </div>\<newline>'',
          u ''  </main>\<newline>'',
          u ''  <footer class=\"footer\">\<newline>'',
          u ''    <div class=\"container\">\<newline>'',
          u ''      <p>'', [0x6B64, 0x9801, 0x9762, 0x7531], u '' CSV '',
          [0x81EA, 0x52D5, 0x751F, 0x6210, 0xFF0C, 0x53EF, 0x76F4, 0x63A5, 0x900F, 0x904E],
          u '' GitHub Pages '', [0x767C, 0x4F48, 0x3002], u ''</p>\<newline>'',
          u ''    </div>\<newline>'',
          u ''  </footer>\<newline>'',
          u ''</body>\<newline>'',
          u ''</html>\<newline>''])"

definition scripts_ensure_assets :: "world \<Rightarrow> error option \<times> world" where
  "scripts_ensure_assets w = mkdir [u ''docs'', u ''assets''] w"

definition write_json ::
  "('f scripts_Store list \<Rightarrow> ustr) \<Rightarrow> 'f scripts_Store list \<Rightarrow> world \<Rightarrow> error option \<times> world" where
  "write_json json_dumps sts w =
     then_do (mkdir [u ''docs'', u ''data''] w)
       (write_text [u ''docs'', u ''data'', u ''stores.json''] (json_dumps sts))"

definition write_store :: "('f \<Rightarrow> ustr) \<Rightarrow> 'f scripts_Store \<Rightarrow> world \<Rightarrow> error option \<times> world" where
  \<comment> \<open>one turn of the last loop of \<open>generate_pages\<close>\<close>
  "write_store fmt1 store w =
     (let store_dir = [u ''docs'', u ''stores'', scripts_Store.slug store]
      in then_do (mkdir store_dir w)
           (write_text (store_dir @ [u ''index.html'']) (render_store fmt1 store)))"

definition generate_pages ::
  "(ustr \<Rightarrow> 'f option) \<Rightarrow> nat \<Rightarrow> ('f \<Rightarrow> ustr) \<Rightarrow> ('f scripts_Store list \<Rightarrow> ustr)
     \<Rightarrow> ustr list list option \<Rightarrow> ustr list list option \<Rightarrow> world \<Rightarrow> error option \<times> world" where
  \<comment> \<open>the exception that ended the run, if one did, and the world the run leaves\<close>
  "generate_pages float_of max_str_digits fmt1 json_dumps detail_csv data_csv w =
     (case scripts_load_images detail_csv of
        Inl e \<Rightarrow> (Some e, w)
      | Inr image_lookup \<Rightarrow>
          (case parse_stores float_of max_str_digits data_csv image_lookup of
             Inl e \<Rightarrow> (Some e, w)
           | Inr st \<Rightarrow>
               let sts = p_stores st in
               if sts = [] then (Some (SystemExit no_stores_message), w)
               else
                 then_do (scripts_ensure_assets w) (\<lambda>w1.
                 then_do (mkdir [u ''docs'', u ''stores''] w1) (\<lambda>w2.
                 then_do (write_json json_dumps sts w2) (\<lambda>w3.
                 then_do (write_text [u ''docs'', u ''index.html'']
                            (scripts_render_index fmt1 sts) w3)
                   (for_each (write_store fmt1) sts))))))"

section \<open>Invariants and example inputs\<close>

text \<open>
  The invariant of the loop of \<open>load_stores\<close>: the set of slugs given out is the set of
  the slugs of the records, which are pairwise different and not empty.
\<close>

definition loader_ok :: "loader \<Rightarrow> bool" where
  "loader_ok st \<longleftrightarrow> l_seen_slugs st = fset_of_list (map Store.slug (l_stores st))
     \<and> distinct (map Store.slug (l_stores st)) \<and> [] \<notin> set (map Store.slug (l_stores st))"

text \<open>
  A line of the listing file as each generator reads it, with the record it becomes; a
  name that ends in a bar; a name of 256 letters; a line whose rating is a middle dot and
  a blank; and stand-ins for the library functions that are parameters.
\<close>

definition example_row :: dict_row where
  "example_row = map_of
     [(u ''qBF1Pd'', Some (u '' Happy Paws '')),
      (u ''hfpxzc href'', Some (u ''https://maps/x'')),
      (u ''MW4etd'', Some (u ''N/A'')),
      (u ''UY7F9'', Some (u ''(new)'')),
      (u ''W4Efsd'', Some [0xB7, 32]),
      (u ''lcr4fd href'', Some (u ''example.com'')),
      (u ''ah5Ghc'', Some (u ''Wifi'')),
      (u ''ah5Ghc (2)'', Some (u ''Wifi''))]"

definition example_images :: "ustr \<rightharpoonup> ustr" where
  "example_images = [u ''https://maps/x'' \<mapsto> u ''https://img/1.png'']"

definition example_loader :: loader where
  "example_loader = \<lparr>l_images = example_images, l_stores = [], l_seen_slugs = {||}\<rparr>"

definition example_store :: Store where
  "example_store =
     \<lparr> Store.name = u ''Happy Paws'',
       Store.map_url = u ''https://maps/x'',
       Store.rating = Some (u ''N/A''),
       Store.review_count = Some (u ''new''),
       Store.category = Some [],
       Store.address = Some [],
       Store.status = Some [],
       Store.hours = Some [],
       Store.website = Some (u ''example.com''),
       Store.phone = None,
       Store.features = [u ''Wifi'', u ''Wifi''],
       Store.image_url = Some (u ''https://img/1.png''),
       Store.slug = u ''happy-paws'' \<rparr>"

definition example_loaded :: loader where
  "example_loaded = \<lparr>l_images = example_images, l_stores = [example_store],
                      l_seen_slugs = {|u ''happy-paws''|}\<rparr>"

definition example_detail :: "dict_row list" where
  "example_detail =
     [map_of [(u ''hfpxzc href'', Some (u ''https://maps/x'')),
              (u ''aoRNLd src'', Some (u ''https://img/1.png''))]]"

definition bar_row :: dict_row where
  "bar_row = map_of [(u ''qBF1Pd'', Some (u ''A|''))]"

definition bar_store :: Store where
  "bar_store =
     \<lparr> Store.name = u ''A|'',
       Store.map_url = [],
       Store.rating = Some [],
       Store.review_count = Some [],
       Store.category = Some [],
       Store.address = Some [],
       Store.status = Some [],
       Store.hours = Some [],
       Store.website = None,
       Store.phone = None,
       Store.features = [],
       Store.image_url = None,
       Store.slug = u ''a'' \<rparr>"

definition example_cells :: "ustr list" where
  "example_cells =
     [u ''x'', u ''https://maps/x'', u ''Happy Paws'', u ''4.5'', u ''(12)'', u ''Groomer'', [],
      0x22C5 # u '' Main St'', [], [0xB7], u ''www.example.com'', [], [], [], [], [], [],
      u ''Bath'', u ''Bath'', [0xB7], u '' '']"

definition example_detail_csv :: "ustr list list" where
  "example_detail_csv = [[u ''hfpxzc href'', u ''aoRNLd src''],
                         [u ''https://maps/x'', u ''https://img/1.png'']]"

definition example_float :: "ustr \<Rightarrow> nat option" where
  \<comment> \<open>a stand-in for \<open>float\<close> that reads one string, as the number of tenths\<close>
  "example_float v = (if v = u ''4.5'' then Some 45 else None)"

definition example_fmt :: "nat \<Rightarrow> ustr" where
  \<comment> \<open>a stand-in for the format \<open>.1f\<close>: the number of tenths, with one decimal\<close>
  "example_fmt n = str_nat (n div 10) @ u ''.'' @ str_nat (n mod 10)"

definition example_json :: "nat scripts_Store list \<Rightarrow> ustr" where
  \<comment> \<open>a stand-in for \<open>json.dumps\<close>\<close>
  "example_json sts = []"

definition example_scripts_store :: "nat scripts_Store" where
  "example_scripts_store =
     \<lparr> scripts_Store.slug = u ''store-01'',
       scripts_Store.name = u ''Happy Paws'',
       scripts_Store.map_url = u ''https://maps/x'',
       scripts_Store.rating = Some 45,
       scripts_Store.review_count = Some 12,
       scripts_Store.category = Some (u ''Groomer''),
       scripts_Store.address = Some (u ''Main St''),
       scripts_Store.status = None,
       scripts_Store.hours_note = Some [0xB7],
       scripts_Store.website = None,
       scripts_Store.phone = None,
       scripts_Store.services = [u ''Bath'', u ''Bath''],
       scripts_Store.image_url = Some (u ''https://img/1.png'') \<rparr>"

definition example_parser :: "nat parser" where
  "example_parser = \<lparr>p_image_lookup = example_images, p_stores = []\<rparr>"

definition example_parsed :: "nat parser" where
  "example_parsed = \<lparr>p_image_lookup = example_images, p_stores = [example_scripts_store]\<rparr>"

definition long_row :: dict_row where
  "long_row = map_of [(u ''qBF1Pd'', Some (replicate 256 97))]"

definition long_store :: Store where
  "long_store =
     \<lparr> Store.name = replicate 256 97,
       Store.map_url = [],
       Store.rating = Some [],
       Store.review_count = Some [],
       Store.category = Some [],
       Store.address = Some [],
       Store.status = Some [],
       Store.hours = Some [],
       Store.website = None,
       Store.phone = None,
       Store.features = [],
       Store.image_url = None,
       Store.slug = replicate 256 97 \<rparr>"

definition dot_cells :: "ustr list" where
  "dot_cells = [u ''x'', u ''https://maps/x'', u ''Happy Paws'', [0xB7, 32]]"

definition dot_store :: "nat scripts_Store" where
  "dot_store =
     \<lparr> scripts_Store.slug = u ''store-01'',
       scripts_Store.name = u ''Happy Paws'',
       scripts_Store.map_url = u ''https://maps/x'',
       scripts_Store.rating = None,
       scripts_Store.review_count = None,
       scripts_Store.category = None,
       scripts_Store.address = None,
       scripts_Store.status = None,
       scripts_Store.hours_note = None,
       scripts_Store.website = None,
       scripts_Store.phone = None,
       scripts_Store.services = [],
       scripts_Store.image_url = Some (u ''https://img/1.png'') \<rparr>"

definition empty_world :: world where
  "empty_world = \<lparr>files = Map.empty, dirs = {||}, stdout = []\<rparr>"

section \<open>Facts about the code\<close>

subsection \<open>The slug loop\<close>

lemma slug_loop_fresh: "slug_loop base existing s counter |\<notin>| existing"
  by (induction base existing s counter rule: slug_loop.induct)
     (subst slug_loop.simps, simp)

lemma slug_loop_shape:
  "slug_loop base existing s counter = s \<and> s |\<notin>| existing \<or>
   (\<exists>c. counter \<le> c \<and> slug_loop base existing s counter = candidate base c
        \<and> s |\<in>| existing \<and> (\<forall>k. counter \<le> k \<and> k < c \<longrightarrow> candidate base k |\<in>| existing))"
proof (induction base existing s counter rule: slug_loop.induct)
  case (1 base existing s counter)
  show ?case
  proof (cases "s |\<in>| existing")
    case False
    then show ?thesis by (subst slug_loop.simps) simp
  next
    case True
    have eq: "slug_loop base existing s counter
            = slug_loop base existing (candidate base counter) (counter + 1)"
      using True by (subst slug_loop.simps) simp
    from 1 [OF True] consider
      (stop) "slug_loop base existing (candidate base counter) (counter + 1) = candidate base counter"
             "candidate base counter |\<notin>| existing"
    | (go) c where "counter + 1 \<le> c"
        "slug_loop base existing (candidate base counter) (counter + 1) = candidate base c"
        "candidate base counter |\<in>| existing"
        "\<forall>k. counter + 1 \<le> k \<and> k < c \<longrightarrow> candidate base k |\<in>| existing"
      by blast
    then show ?thesis
    proof cases
      case stop
      with True eq show ?thesis by auto
    next
      case go
      have "\<forall>k. counter \<le> k \<and> k < c \<longrightarrow> candidate base k |\<in>| existing"
      proof (intro allI impI)
        fix k assume "counter \<le> k \<and> k < c"
        then have "k = counter \<or> (counter + 1 \<le> k \<and> k < c)" by auto
        with go show "candidate base k |\<in>| existing" by auto
      qed
      with go True eq show ?thesis
        by (intro disjI2 exI [of _ c]) auto
    qed
  qed
qed

lemma candidate_neq_base: "candidate base c \<noteq> base"
  by (simp add: candidate_def u_def)

lemma candidate_not_Nil: "candidate base c \<noteq> []"
  by (simp add: candidate_def u_def)

lemma slug_loop_bound:
  assumes "slug_loop base existing base 2 \<noteq> base"
  shows "\<exists>c. 2 \<le> c \<and> c \<le> fcard existing + 1 \<and> slug_loop base existing base 2 = candidate base c"
proof -
  from slug_loop_shape [of base existing base 2] assms obtain c where
    c: "2 \<le> c" "slug_loop base existing base 2 = candidate base c" "base |\<in>| existing"
       "\<forall>k. 2 \<le> k \<and> k < c \<longrightarrow> candidate base k |\<in>| existing"
    by blast
  let ?S = "insert base (candidate base ` {2..<c})"
  have sub: "?S \<subseteq> fset existing" using c by auto
  have "inj_on (candidate base) {2..<c}" by (auto intro: inj_onI candidate_inj)
  then have "card (candidate base ` {2..<c}) = c - 2" by (simp add: card_image)
  moreover have "base \<notin> candidate base ` {2..<c}" using candidate_neq_base by (auto simp: eq_commute)
  ultimately have "card ?S = c - 1" using c(1) by simp
  moreover have "card ?S \<le> card (fset existing)" using sub by (intro card_mono) auto
  ultimately have "c \<le> fcard existing + 1" by (simp add: fcard.rep_eq)
  with c show ?thesis by blast
qed

lemma lower_Nil [simp]: "lower s = [] \<longleftrightarrow> s = []" by (simp add: lower_def)

lemma slug_base_not_Nil: "slug_base n \<noteq> []"
  by (simp add: slug_base_def Let_def u_def)

lemma slugify_slug_not_Nil: "fst (slugify n existing) \<noteq> []"
  using slug_loop_shape [of "slug_base n" existing "slug_base n" 2]
  by (auto simp: slugify_def Let_def slug_base_not_Nil candidate_not_Nil)

lemma slugify_fresh: "fst (slugify n existing) |\<notin>| existing"
  by (simp add: slugify_def Let_def slug_loop_fresh)

lemma slugify_set: "snd (slugify n existing) = finsert (fst (slugify n existing)) existing"
  by (simp add: slugify_def Let_def)

subsection \<open>One turn of each reading loop\<close>

lemma bind_err_Inr: "bind_err m f = Inr y \<longleftrightarrow> (\<exists>v. m = Inr v \<and> f v = Inr y)"
  by (cases m) (simp_all add: bind_err_def)

lemma load_stores_row_Inr:
  assumes "load_stores_row row st = Inr st'"
  obtains (skip) nr where "get_str row (u ''qBF1Pd'') = Inr nr" "strip nr = []" "st' = st"
  | (store) nr mr rr vr cr ar sr hr wr pr fs where
      "get_str row (u ''qBF1Pd'') = Inr nr" "strip nr \<noteq> []"
      "get_str row (u ''hfpxzc href'') = Inr mr"
      "get_str row (u ''MW4etd'') = Inr rr"
      "get_str row (u ''UY7F9'') = Inr vr"
      "get_str row (u ''W4Efsd'') = Inr cr"
      "get_str row (u ''W4Efsd (3)'') = Inr ar"
      "get_str row (u ''W4Efsd (4)'') = Inr sr"
      "get_str row (u ''W4Efsd (5)'') = Inr hr"
      "get_str row (u ''lcr4fd href'') = Inr wr"
      "get_str row (u ''UsdlK'') = Inr pr"
      "add_features row [u ''ah5Ghc'', u ''ah5Ghc (2)''] [] = Inr fs"
      "st' = st\<lparr>l_stores := l_stores st @
               [\<lparr> Store.name = strip nr,
                  Store.map_url = strip mr,
                  Store.rating = Some (clean_value rr),
                  Store.review_count = Some (clean_value (strip_by (\<lambda>c. c = 40 \<or> c = 41) vr)),
                  Store.category = Some (clean_value cr),
                  Store.address = Some (clean_value ar),
                  Store.status = Some (clean_value sr),
                  Store.hours = Some (clean_value hr),
                  Store.website = (if strip wr = [] then None else Some (strip wr)),
                  Store.phone = (if clean_value pr = [] then None else Some (clean_value pr)),
                  Store.features = fs,
                  Store.image_url = l_images st (strip mr),
                  Store.slug = fst (slugify (strip nr) (l_seen_slugs st)) \<rparr>],
             l_seen_slugs := snd (slugify (strip nr) (l_seen_slugs st))\<rparr>"
proof -
  from assms obtain nr mr where
    g1: "get_str row (u ''qBF1Pd'') = Inr nr" and g2: "get_str row (u ''hfpxzc href'') = Inr mr"
    by (auto simp: load_stores_row_def bind_err_Inr)
  show thesis
  proof (cases "strip nr = []")
    case True
    with assms g1 g2 have "st' = st"
      by (simp add: load_stores_row_def bind_err_def)
    with g1 True show thesis by (rule skip)
  next
    case False
    with assms g1 g2 store [OF g1 False g2] show thesis
      by (auto simp: load_stores_row_def bind_err_Inr Let_def split_beta
               simp del: add_features.simps)
  qed
qed

lemma parse_stores_row_Inr:
  assumes "parse_stores_row float_of lim row st = Inr st'"
  obtains (skip) "st' = st"
      "length row < 3 \<or> strip (row ! 1) = [] \<or> strip (row ! 2) = []
        \<or> \<not> startswith (strip (row ! 1)) (u ''http'')"
  | (store) rc where
      "3 \<le> length row" "strip (row ! 1) \<noteq> []" "strip (row ! 2) \<noteq> []"
      "startswith (strip (row ! 1)) (u ''http'')"
      "(if length row > 4 then coerce_int lim (row ! 4) else Inr None) = Inr rc"
      "st' = st\<lparr>p_stores := p_stores st @
              [\<lparr> scripts_Store.slug = u ''store-'' @ pad2 (length (p_stores st) + 1),
                 scripts_Store.name = strip (row ! 2),
                 scripts_Store.map_url = strip (row ! 1),
                 scripts_Store.rating =
                   (if length row > 3 then coerce_float float_of (strip (row ! 3)) else None),
                 scripts_Store.review_count = rc,
                 scripts_Store.category = clean_text (cell row 5),
                 scripts_Store.address = clean_text (cell row 7),
                 scripts_Store.status = clean_text (cell row 8),
                 scripts_Store.hours_note = clean_text (cell row 9),
                 scripts_Store.website =
                   (if startswith (if length row > 10 then strip (row ! 10) else []) (u ''http'')
                    then Some (if length row > 10 then strip (row ! 10) else []) else None),
                 scripts_Store.phone = clean_text (cell row 16),
                 scripts_Store.services = collect_services row,
                 scripts_Store.image_url = p_image_lookup st (strip (row ! 1)) \<rparr>]\<rparr>"
proof (cases "length row < 3 \<or> strip (row ! 1) = [] \<or> strip (row ! 2) = []
        \<or> \<not> startswith (strip (row ! 1)) (u ''http'')")
  case True
  with assms have "st' = st" by (auto simp: parse_stores_row_def Let_def split: if_splits)
  then show thesis using True by (rule skip)
next
  case False
  with assms store show thesis
    by (auto simp: parse_stores_row_def bind_err_Inr Let_def not_less split: if_splits)
qed

subsection \<open>Slugs of a run\<close>

lemma int_of_digits_zeros: "int_of_digits (replicate k 48 @ ds) = int_of_digits ds"
proof -
  have "foldl (\<lambda>a d. 10 * a + (d - 48)) 0 (replicate k 48) = (0::nat)"
    by (induction k) simp_all
  then show ?thesis by (simp add: int_of_digits_def)
qed

lemma int_of_digits_pad2: "int_of_digits (pad2 n) = n"
  by (simp add: pad2_def int_of_digits_zeros int_of_digits_str_nat)

lemma pad2_inj: "pad2 a = pad2 b \<Longrightarrow> a = b"
  by (metis int_of_digits_pad2)

lemma parse_stores_loop_slugs:
  assumes "parse_stores_loop float_of lim rows st = Inr st'"
    and "map scripts_Store.slug (p_stores st)
         = map (\<lambda>i. u ''store-'' @ pad2 (i + 1)) [0..<length (p_stores st)]"
  shows "map scripts_Store.slug (p_stores st')
         = map (\<lambda>i. u ''store-'' @ pad2 (i + 1)) [0..<length (p_stores st')]"
  using assms
proof (induction rows arbitrary: st)
  case Nil
  then show ?case by simp
next
  case (Cons row rows)
  from Cons.prems(1) obtain st1 where
    r: "parse_stores_row float_of lim row st = Inr st1"
    and l: "parse_stores_loop float_of lim rows st1 = Inr st'"
    by (auto simp: bind_err_Inr)
  from r have "map scripts_Store.slug (p_stores st1)
         = map (\<lambda>i. u ''store-'' @ pad2 (i + 1)) [0..<length (p_stores st1)]"
    by (cases rule: parse_stores_row_Inr) (use Cons.prems(2) in auto)
  with Cons.IH [OF l] show ?case .
qed

lemma numbered_slugs_distinct:
  "distinct (map (\<lambda>i. u ''store-'' @ pad2 (i + 1)) [0..<n])"
  by (auto simp: distinct_map intro!: inj_onI dest: pad2_inj)

lemma numbered_slugs_not_Nil: "[] \<notin> set (map (\<lambda>i. u ''store-'' @ pad2 (i + 1)) [0..<n])"
  by (auto simp: u_def)

lemma load_stores_row_ok:
  assumes "load_stores_row row st = Inr st'" and "loader_ok st"
  shows "loader_ok st'"
  using assms(1)
proof (cases rule: load_stores_row_Inr)
  case (skip nr)
  with assms(2) show ?thesis by simp
next
  case (store nr mr rr vr cr ar sr hr wr pr fs)
  let ?sl = "fst (slugify (strip nr) (l_seen_slugs st))"
  have "?sl |\<notin>| l_seen_slugs st" by (rule slugify_fresh)
  then have "?sl \<notin> set (map Store.slug (l_stores st))"
    using assms(2) by (simp add: loader_ok_def fset_of_list.rep_eq)
  moreover have "?sl \<noteq> []" by (rule slugify_slug_not_Nil)
  ultimately show ?thesis
    using assms(2) store(13) by (auto simp: loader_ok_def slugify_set)
qed

lemma load_stores_loop_ok:
  "load_stores_loop rows st = Inr st' \<Longrightarrow> loader_ok st \<Longrightarrow> loader_ok st'"
proof (induction rows arbitrary: st)
  case Nil
  then show ?case by simp
next
  case (Cons row rows)
  then show ?case by (auto simp: bind_err_Inr dest: load_stores_row_ok)
qed

subsection \<open>Stripping and cleaning\<close>

lemma rstrip_by_prefix: "\<exists>r. s = rstrip_by P s @ r \<and> (\<forall>c\<in>set r. P c)"
proof -
  have "rev (rev s) = rev (takeWhile P (rev s) @ dropWhile P (rev s))"
    by (simp only: takeWhile_dropWhile_id)
  then have "s = rstrip_by P s @ rev (takeWhile P (rev s))"
    by (simp only: rev_append rev_rev_ident rstrip_by_def)
  moreover have "\<forall>c\<in>set (rev (takeWhile P (rev s))). P c"
    by (auto dest: set_takeWhileD)
  ultimately show ?thesis by blast
qed

lemma rstrip_by_last: "rstrip_by P s \<noteq> [] \<Longrightarrow> \<not> P (last (rstrip_by P s))"
  using hd_dropWhile [of P "rev s"] by (simp add: rstrip_by_def last_rev)

lemma lstrip_by_hd: "lstrip_by P s \<noteq> [] \<Longrightarrow> \<not> P (hd (lstrip_by P s))"
  by (simp add: lstrip_by_def hd_dropWhile)

lemma rstrip_by_hd: "rstrip_by P s \<noteq> [] \<Longrightarrow> hd (rstrip_by P s) = hd s"
  using rstrip_by_prefix [of s P] by (metis hd_append2)

lemma strip_by_ends:
  assumes "strip_by P s \<noteq> []"
  shows "\<not> P (hd (strip_by P s))" and "\<not> P (last (strip_by P s))"
proof -
  from assms have ne: "lstrip_by P s \<noteq> []"
    by (auto simp: strip_by_def rstrip_by_def)
  from assms have "hd (strip_by P s) = hd (lstrip_by P s)"
    unfolding strip_by_def by (rule rstrip_by_hd)
  with lstrip_by_hd [OF ne] show "\<not> P (hd (strip_by P s))" by simp
  from assms show "\<not> P (last (strip_by P s))"
    unfolding strip_by_def by (rule rstrip_by_last)
qed

lemma lstrip_by_id: "s = [] \<or> \<not> P (hd s) \<Longrightarrow> lstrip_by P s = s"
  by (cases s) (auto simp: lstrip_by_def)

lemma rstrip_by_id: "s = [] \<or> \<not> P (last s) \<Longrightarrow> rstrip_by P s = s"
proof -
  assume "s = [] \<or> \<not> P (last s)"
  then have "rev s = [] \<or> \<not> P (hd (rev s))" by (auto simp: hd_rev)
  then have "dropWhile P (rev s) = rev s" by (cases "rev s") auto
  then show ?thesis by (simp add: rstrip_by_def)
qed

lemma strip_by_id: "s = [] \<or> (\<not> P (hd s) \<and> \<not> P (last s)) \<Longrightarrow> strip_by P s = s"
  by (auto simp: strip_by_def lstrip_by_id rstrip_by_id)

lemma strip_by_idem: "strip_by P (strip_by P s) = strip_by P s"
  using strip_by_ends [of P s] by (intro strip_by_id) blast

lemma strip_idem: "strip (strip s) = strip s"
  by (simp add: strip_def strip_by_idem)

lemma set_strip_by: "set (strip_by P s) \<subseteq> set s"
proof -
  have "set (rstrip_by P t) \<subseteq> set t" for t
    using set_dropWhileD [of _ P "rev t"] by (auto simp: rstrip_by_def)
  moreover have "set (lstrip_by P s) \<subseteq> set s"
    by (auto simp: lstrip_by_def dest: set_dropWhileD)
  ultimately show ?thesis unfolding strip_by_def by blast
qed

lemma remove_char_id: "c \<notin> set s \<Longrightarrow> remove_char c s = s"
  by (auto simp: remove_char_def filter_id_conv)

lemma clean_value_no_dots: "0xB7 \<notin> set (clean_value t) \<and> 0x22C5 \<notin> set (clean_value t)"
proof -
  have "set (clean_value t) \<subseteq> set (remove_char 0xB7 (remove_char 0x22C5 t))"
    unfolding clean_value_def strip_def by (rule set_strip_by)
  then show ?thesis by (auto simp: remove_char_def)
qed

lemma clean_value_idem: "clean_value (clean_value t) = clean_value t"
proof -
  have "remove_char 0xB7 (remove_char 0x22C5 (clean_value t)) = clean_value t"
    using clean_value_no_dots [of t] by (simp add: remove_char_id)
  moreover have "strip (clean_value t) = clean_value t"
    by (simp add: clean_value_def strip_idem)
  ultimately show ?thesis by (subst (1) clean_value_def) simp
qed

lemma strip_by_Nil [simp]: "strip_by P [] = []"
  by (simp add: strip_by_def rstrip_by_def lstrip_by_def)

lemma strip_Nil [simp]: "strip [] = []"
  by (simp add: strip_def)

lemma lstrip_by_Nil [simp]: "lstrip_by P [] = []"
  by (simp add: lstrip_by_def)

lemma clean_text_not_empty: "clean_text v \<noteq> Some []"
  by (simp add: clean_text_def Let_def split: option.splits)

lemma clean_text_None_iff:
  "clean_text v = None \<longleftrightarrow>
     (case v of None \<Rightarrow> True | Some s \<Rightarrow> strip (lstrip_by (\<lambda>c. c = 0x22C5) (strip s)) = [])"
  by (simp add: clean_text_def Let_def split: option.splits)

lemma clean_text_Some:
  "clean_text v = Some t \<Longrightarrow> t \<noteq> [] \<and> strip t = t"
  by (cases v) (auto simp: clean_text_def Let_def strip_idem split: if_splits)

lemma length_strip_by: "length (strip_by P s) \<le> length s"
proof -
  have "length (rstrip_by P t) \<le> length t" for t
    using length_dropWhile_le [of P "rev t"] by (simp add: rstrip_by_def)
  from this [of "lstrip_by P s"] length_dropWhile_le [of P s]
  show ?thesis by (simp add: strip_by_def lstrip_by_def)
qed

lemma clean_text_twice:
  "clean_text (clean_text v) = clean_text v \<longleftrightarrow>
     (\<forall>t. clean_text v = Some t \<longrightarrow> \<not> startswith t [0x22C5])"
proof (cases "clean_text v")
  case None
  then show ?thesis by (simp add: clean_text_def)
next
  case (Some t)
  then have t: "t \<noteq> []" "strip t = t" by (auto dest: clean_text_Some)
  show ?thesis
  proof (cases "startswith t [0x22C5]")
    case False
    with t have "hd t \<noteq> 0x22C5" by (cases t) (auto simp: startswith_def)
    then have "lstrip_by (\<lambda>c. c = 0x22C5) t = t" by (intro lstrip_by_id) simp
    with t have "clean_text (Some t) = Some t" by (simp add: clean_text_def)
    with Some False show ?thesis by simp
  next
    case True
    then obtain r where r: "t = 0x22C5 # r" by (cases t) (auto simp: startswith_def)
    have "length (lstrip_by (\<lambda>c. c = 0x22C5) t) \<le> length r"
      using length_dropWhile_le [of "\<lambda>c. c = 0x22C5" r] by (simp add: r lstrip_by_def)
    moreover have "length (strip (lstrip_by (\<lambda>c. c = 0x22C5) t))
        \<le> length (lstrip_by (\<lambda>c. c = 0x22C5) t)"
      unfolding strip_def by (rule length_strip_by)
    ultimately have "length (strip (lstrip_by (\<lambda>c. c = 0x22C5) t)) < length t"
      by (simp add: r)
    then have "strip (lstrip_by (\<lambda>c. c = 0x22C5) t) \<noteq> t" by auto
    then have "clean_text (Some t) \<noteq> Some t"
      using t by (simp add: clean_text_def Let_def)
    with Some True show ?thesis by simp
  qed
qed

subsection \<open>Fields of an accepted row\<close>

lemma add_features_two:
  assumes "add_features row [k1, k2] [] = Inr fs"
  shows "\<exists>f1 f2. get_str row k1 = Inr f1 \<and> get_str row k2 = Inr f2
            \<and> fs = filter (\<lambda>v. v \<noteq> []) [clean_value f1, clean_value f2]"
  using assms by (auto simp: bind_err_Inr Let_def)

lemma collect_services_eq:
  "map Some (collect_services row)
     = filter (\<lambda>x. x \<noteq> None \<and> x \<noteq> Some [0xB7]) (map (\<lambda>c. clean_text (Some c)) (drop 17 row))"
proof -
  have "map Some (List.map_filter
          (\<lambda>chunk. let t = clean_text (Some chunk) in if truthy t \<and> t \<noteq> Some [0xB7] then t else None) cs)
       = filter (\<lambda>x. x \<noteq> None \<and> x \<noteq> Some [0xB7]) (map (\<lambda>c. clean_text (Some c)) cs)" for cs
  proof (induction cs)
    case Nil
    show ?case by (simp add: List.map_filter_simps)
  next
    case (Cons c cs)
    show ?case
    proof (cases "clean_text (Some c)")
      case None
      with Cons show ?thesis by (simp add: List.map_filter_simps truthy_def)
    next
      case (Some t)
      then have "t \<noteq> []" using clean_text_not_empty [of "Some c"] by auto
      with Some Cons show ?thesis by (simp add: List.map_filter_simps truthy_def)
    qed
  qed
  then show ?thesis by (simp add: collect_services_def)
qed

lemma collect_services_members:
  "t \<in> set (collect_services row) \<Longrightarrow> t \<noteq> [] \<and> t \<noteq> [0xB7]"
proof -
  assume "t \<in> set (collect_services row)"
  then have "Some t \<in> set (map Some (collect_services row))" by simp
  then have "Some t \<noteq> Some [0xB7] \<and> (\<exists>c. Some t = clean_text (Some c))"
    unfolding collect_services_eq by auto
  then show ?thesis using clean_text_not_empty by metis
qed

lemma coerce_int_Inr:
  "coerce_int lim v = Inr rc \<Longrightarrow>
     rc = (if filter (\<lambda>c. 48 \<le> c \<and> c \<le> 57) v = [] then None
           else Some (int_of_digits (filter (\<lambda>c. 48 \<le> c \<and> c \<le> 57) v)))"
  by (auto simp: coerce_int_def Let_def split: if_splits)

lemma load_stores_loop_images:
  "load_stores_loop rows st = Inr st' \<Longrightarrow>
     (\<forall>s\<in>set (l_stores st). Store.image_url s = l_images st (Store.map_url s)) \<Longrightarrow>
     l_images st' = l_images st
     \<and> (\<forall>s\<in>set (l_stores st'). Store.image_url s = l_images st (Store.map_url s))"
proof (induction rows arbitrary: st)
  case Nil
  then show ?case by simp
next
  case (Cons row rows)
  from Cons.prems(1) obtain st1 where
    r: "load_stores_row row st = Inr st1" and l: "load_stores_loop rows st1 = Inr st'"
    by (auto simp: bind_err_Inr)
  from r have 1: "l_images st1 = l_images st
      \<and> (\<forall>s\<in>set (l_stores st1). Store.image_url s = l_images st1 (Store.map_url s))"
    by (cases rule: load_stores_row_Inr) (use Cons.prems(2) in auto)
  with Cons.IH [OF l] show ?case by simp
qed

lemma parse_stores_loop_images:
  "parse_stores_loop float_of lim rows st = Inr st' \<Longrightarrow>
     (\<forall>s\<in>set (p_stores st). scripts_Store.image_url s = p_image_lookup st (scripts_Store.map_url s)) \<Longrightarrow>
     p_image_lookup st' = p_image_lookup st
     \<and> (\<forall>s\<in>set (p_stores st'). scripts_Store.image_url s = p_image_lookup st (scripts_Store.map_url s))"
proof (induction rows arbitrary: st)
  case Nil
  then show ?case by simp
next
  case (Cons row rows)
  from Cons.prems(1) obtain st1 where
    r: "parse_stores_row float_of lim row st = Inr st1"
    and l: "parse_stores_loop float_of lim rows st1 = Inr st'"
    by (auto simp: bind_err_Inr)
  from r have 1: "p_image_lookup st1 = p_image_lookup st
      \<and> (\<forall>s\<in>set (p_stores st1). scripts_Store.image_url s = p_image_lookup st1 (scripts_Store.map_url s))"
    by (cases rule: parse_stores_row_Inr) (use Cons.prems(2) in auto)
  with Cons.IH [OF l] show ?case by simp
qed

lemma strip_by_Nil_iff: "strip_by P s = [] \<longleftrightarrow> (\<forall>c\<in>set s. P c)"
proof
  assume e: "strip_by P s = []"
  from rstrip_by_prefix [of "lstrip_by P s" P] e
  have all: "\<forall>c\<in>set (lstrip_by P s). P c" by (auto simp: strip_by_def)
  have "lstrip_by P s = []"
  proof (rule ccontr)
    assume ne: "lstrip_by P s \<noteq> []"
    then have "hd (lstrip_by P s) \<in> set (lstrip_by P s)" by simp
    with all lstrip_by_hd [OF ne] show False by blast
  qed
  then show "\<forall>c\<in>set s. P c" by (simp add: lstrip_by_def dropWhile_eq_Nil_conv)
next
  assume "\<forall>c\<in>set s. P c"
  then have "lstrip_by P s = []" by (simp add: lstrip_by_def dropWhile_eq_Nil_conv)
  then show "strip_by P s = []" by (simp add: strip_by_def rstrip_by_def)
qed

lemma no_digits_when_clean_empty:
  assumes "clean_value v = []"
  shows "filter (\<lambda>c. 48 \<le> c \<and> c \<le> 57) v = []"
proof -
  from assms have "\<forall>c\<in>set (remove_char 0xB7 (remove_char 0x22C5 v)). isspace c"
    by (simp add: clean_value_def strip_def strip_by_Nil_iff)
  then have "\<forall>c\<in>set v. c = 0xB7 \<or> c = 0x22C5 \<or> isspace c"
    by (auto simp: remove_char_def)
  then have "\<forall>c\<in>set v. \<not> (48 \<le> c \<and> c \<le> 57)"
    by (auto simp: isspace_def)
  then show ?thesis by (simp add: filter_empty_conv)
qed

lemma clean_value_empty_chars:
  assumes "clean_value v = []"
  shows "\<forall>c\<in>set v. isspace c \<or> c = 0xB7 \<or> c = 0x22C5"
proof -
  from assms have "\<forall>c\<in>set (remove_char 0xB7 (remove_char 0x22C5 v)). isspace c"
    by (simp add: clean_value_def strip_def strip_by_Nil_iff)
  then show ?thesis by (auto simp: remove_char_def)
qed

lemma strip_chars: "c \<in> set (strip v) \<Longrightarrow> c \<in> set v"
  using set_strip_by [of isspace v] by (auto simp: strip_def)

lemma load_stores_row_accepted:
  assumes "load_stores_row row st = Inr st'" and "l_stores st' = l_stores st @ [s]"
  obtains nr mr rr vr cr ar sr hr wr pr f1 f2 where
      "get_str row (u ''qBF1Pd'') = Inr nr" "strip nr \<noteq> []"
      "get_str row (u ''hfpxzc href'') = Inr mr"
      "get_str row (u ''MW4etd'') = Inr rr"
      "get_str row (u ''UY7F9'') = Inr vr"
      "get_str row (u ''W4Efsd'') = Inr cr"
      "get_str row (u ''W4Efsd (3)'') = Inr ar"
      "get_str row (u ''W4Efsd (4)'') = Inr sr"
      "get_str row (u ''W4Efsd (5)'') = Inr hr"
      "get_str row (u ''lcr4fd href'') = Inr wr"
      "get_str row (u ''UsdlK'') = Inr pr"
      "get_str row (u ''ah5Ghc'') = Inr f1"
      "get_str row (u ''ah5Ghc (2)'') = Inr f2"
      "s = \<lparr> Store.name = strip nr,
             Store.map_url = strip mr,
             Store.rating = Some (clean_value rr),
             Store.review_count = Some (clean_value (strip_by (\<lambda>c. c = 40 \<or> c = 41) vr)),
             Store.category = Some (clean_value cr),
             Store.address = Some (clean_value ar),
             Store.status = Some (clean_value sr),
             Store.hours = Some (clean_value hr),
             Store.website = (if strip wr = [] then None else Some (strip wr)),
             Store.phone = (if clean_value pr = [] then None else Some (clean_value pr)),
             Store.features = filter (\<lambda>v. v \<noteq> []) [clean_value f1, clean_value f2],
             Store.image_url = l_images st (strip mr),
             Store.slug = fst (slugify (strip nr) (l_seen_slugs st)) \<rparr>"
  using assms(1)
proof (cases rule: load_stores_row_Inr)
  case (skip nr)
  with assms(2) show ?thesis by simp
next
  case (store nr mr rr vr cr ar sr hr wr pr fs)
  from add_features_two [OF store(12)] obtain f1 f2 where
    f: "get_str row (u ''ah5Ghc'') = Inr f1" "get_str row (u ''ah5Ghc (2)'') = Inr f2"
       "fs = filter (\<lambda>v. v \<noteq> []) [clean_value f1, clean_value f2]" by blast
  have "l_stores st' = l_stores st @ [\<lparr> Store.name = strip nr,
                  Store.map_url = strip mr,
                  Store.rating = Some (clean_value rr),
                  Store.review_count = Some (clean_value (strip_by (\<lambda>c. c = 40 \<or> c = 41) vr)),
                  Store.category = Some (clean_value cr),
                  Store.address = Some (clean_value ar),
                  Store.status = Some (clean_value sr),
                  Store.hours = Some (clean_value hr),
                  Store.website = (if strip wr = [] then None else Some (strip wr)),
                  Store.phone = (if clean_value pr = [] then None else Some (clean_value pr)),
                  Store.features = fs,
                  Store.image_url = l_images st (strip mr),
                  Store.slug = fst (slugify (strip nr) (l_seen_slugs st)) \<rparr>]"
    by (subst store(13)) simp
  with assms(2) have "s = \<lparr> Store.name = strip nr,
                  Store.map_url = strip mr,
                  Store.rating = Some (clean_value rr),
                  Store.review_count = Some (clean_value (strip_by (\<lambda>c. c = 40 \<or> c = 41) vr)),
                  Store.category = Some (clean_value cr),
                  Store.address = Some (clean_value ar),
                  Store.status = Some (clean_value sr),
                  Store.hours = Some (clean_value hr),
                  Store.website = (if strip wr = [] then None else Some (strip wr)),
                  Store.phone = (if clean_value pr = [] then None else Some (clean_value pr)),
                  Store.features = fs,
                  Store.image_url = l_images st (strip mr),
                  Store.slug = fst (slugify (strip nr) (l_seen_slugs st)) \<rparr>"
    by (simp only: append_same_eq list.inject, simp)
  then show ?thesis
    using store(1-11) f that by blast
qed

lemma parse_stores_row_accepted:
  assumes "parse_stores_row float_of lim row st = Inr st'" and "p_stores st' = p_stores st @ [t]"
  obtains rc where
      "3 \<le> length row" "strip (row ! 1) \<noteq> []" "strip (row ! 2) \<noteq> []"
      "startswith (strip (row ! 1)) (u ''http'')"
      "(if length row > 4 then coerce_int lim (row ! 4) else Inr None) = Inr rc"
      "t = \<lparr> scripts_Store.slug = u ''store-'' @ pad2 (length (p_stores st) + 1),
                 scripts_Store.name = strip (row ! 2),
                 scripts_Store.map_url = strip (row ! 1),
                 scripts_Store.rating =
                   (if length row > 3 then coerce_float float_of (strip (row ! 3)) else None),
                 scripts_Store.review_count = rc,
                 scripts_Store.category = clean_text (cell row 5),
                 scripts_Store.address = clean_text (cell row 7),
                 scripts_Store.status = clean_text (cell row 8),
                 scripts_Store.hours_note = clean_text (cell row 9),
                 scripts_Store.website =
                   (if startswith (if length row > 10 then strip (row ! 10) else []) (u ''http'')
                    then Some (if length row > 10 then strip (row ! 10) else []) else None),
                 scripts_Store.phone = clean_text (cell row 16),
                 scripts_Store.services = collect_services row,
                 scripts_Store.image_url = p_image_lookup st (strip (row ! 1)) \<rparr>"
  using assms(1)
proof (cases rule: parse_stores_row_Inr)
  case skip
  with assms(2) show ?thesis by simp
next
  case (store rc)
  have "p_stores st' = p_stores st @ [\<lparr> scripts_Store.slug = u ''store-'' @ pad2 (length (p_stores st) + 1),
                 scripts_Store.name = strip (row ! 2),
                 scripts_Store.map_url = strip (row ! 1),
                 scripts_Store.rating =
                   (if length row > 3 then coerce_float float_of (strip (row ! 3)) else None),
                 scripts_Store.review_count = rc,
                 scripts_Store.category = clean_text (cell row 5),
                 scripts_Store.address = clean_text (cell row 7),
                 scripts_Store.status = clean_text (cell row 8),
                 scripts_Store.hours_note = clean_text (cell row 9),
                 scripts_Store.website =
                   (if startswith (if length row > 10 then strip (row ! 10) else []) (u ''http'')
                    then Some (if length row > 10 then strip (row ! 10) else []) else None),
                 scripts_Store.phone = clean_text (cell row 16),
                 scripts_Store.services = collect_services row,
                 scripts_Store.image_url = p_image_lookup st (strip (row ! 1)) \<rparr>]"
    by (subst store(6)) simp
  with assms(2) have "t = \<lparr> scripts_Store.slug = u ''store-'' @ pad2 (length (p_stores st) + 1),
                 scripts_Store.name = strip (row ! 2),
                 scripts_Store.map_url = strip (row ! 1),
                 scripts_Store.rating =
                   (if length row > 3 then coerce_float float_of (strip (row ! 3)) else None),
                 scripts_Store.review_count = rc,
                 scripts_Store.category = clean_text (cell row 5),
                 scripts_Store.address = clean_text (cell row 7),
                 scripts_Store.status = clean_text (cell row 8),
                 scripts_Store.hours_note = clean_text (cell row 9),
                 scripts_Store.website =
                   (if startswith (if length row > 10 then strip (row ! 10) else []) (u ''http'')
                    then Some (if length row > 10 then strip (row ! 10) else []) else None),
                 scripts_Store.phone = clean_text (cell row 16),
                 scripts_Store.services = collect_services row,
                 scripts_Store.image_url = p_image_lookup st (strip (row ! 1)) \<rparr>"
    by (simp only: append_same_eq list.inject, simp)
  then show ?thesis
    using store(1-5) that by blast
qed

subsection \<open>The examples, evaluated\<close>

lemmas string_eval = u_def strip_def strip_by_def rstrip_by_def lstrip_by_def isspace_def
  remove_char_def clean_value_def

lemma example_gets:
  "get_str example_row (u ''qBF1Pd'') = Inr (u '' Happy Paws '')"
  "get_str example_row (u ''hfpxzc href'') = Inr (u ''https://maps/x'')"
  "get_str example_row (u ''MW4etd'') = Inr (u ''N/A'')"
  "get_str example_row (u ''UY7F9'') = Inr (u ''(new)'')"
  "get_str example_row (u ''W4Efsd'') = Inr [0xB7, 32]"
  "get_str example_row (u ''W4Efsd (3)'') = Inr []"
  "get_str example_row (u ''W4Efsd (4)'') = Inr []"
  "get_str example_row (u ''W4Efsd (5)'') = Inr []"
  "get_str example_row (u ''lcr4fd href'') = Inr (u ''example.com'')"
  "get_str example_row (u ''UsdlK'') = Inr []"
  "get_str example_row (u ''ah5Ghc'') = Inr (u ''Wifi'')"
  "get_str example_row (u ''ah5Ghc (2)'') = Inr (u ''Wifi'')"
  by (simp_all add: get_str_def example_row_def u_def)

lemma example_slug: "slugify (u ''Happy Paws'') {||} = (u ''happy-paws'', {|u ''happy-paws''|})"
  by (subst slugify_def, subst slug_loop.simps)
     (simp add: Let_def slug_base_def u_def strip_by_def rstrip_by_def lstrip_by_def
        slug_char_def lower_def)

lemma example_slug2:
  "slugify (u ''Happy Paws'') {|u ''happy-paws''|} = (u ''happy-paws-2'', {|u ''happy-paws-2'', u ''happy-paws''|})"
proof -
  have b: "slug_base (u ''Happy Paws'') = u ''happy-paws''"
    by (simp add: slug_base_def u_def strip_by_def rstrip_by_def lstrip_by_def slug_char_def
          lower_def)
  have c: "candidate (u ''happy-paws'') 2 = u ''happy-paws-2''"
    by (subst candidate_def, subst str_nat.simps) (simp add: u_def)
  have n: "u ''happy-paws-2'' \<noteq> u ''happy-paws''" by (simp add: u_def)
  show ?thesis
    unfolding slugify_def b
    by (subst slug_loop.simps, simp, subst slug_loop.simps) (simp add: c n Let_def)
qed

lemma example_row_step:
  "load_stores_row example_row \<lparr>l_images = example_images, l_stores = ss, l_seen_slugs = seen\<rparr>
     = Inr \<lparr>l_images = example_images,
            l_stores = ss @ [example_store\<lparr>Store.slug := fst (slugify (u ''Happy Paws'') seen)\<rparr>],
            l_seen_slugs = snd (slugify (u ''Happy Paws'') seen)\<rparr>"
proof -
  have 1: "strip (u '' Happy Paws '') = u ''Happy Paws''" by (simp add: string_eval)
  have 2: "strip (u ''https://maps/x'') = u ''https://maps/x''" by (simp add: string_eval)
  have 3: "clean_value (u ''N/A'') = u ''N/A''" by (simp add: string_eval)
  have 4: "clean_value (strip_by (\<lambda>c. c = 40 \<or> c = 41) (u ''(new)'')) = u ''new''"
    by (simp add: string_eval)
  have 5: "clean_value [0xB7, 32] = []" "clean_value [] = []" by (simp_all add: string_eval)
  have 6: "strip (u ''example.com'') = u ''example.com''" by (simp add: string_eval)
  have 7: "clean_value (u ''Wifi'') = u ''Wifi''" by (simp add: string_eval)
  have 8: "u ''Happy Paws'' \<noteq> []" "u ''example.com'' \<noteq> []" "u ''Wifi'' \<noteq> []"
    by (simp_all add: u_def)
  have 9: "example_images (u ''https://maps/x'') = Some (u ''https://img/1.png'')"
    by (simp add: example_images_def)
  show ?thesis
    unfolding load_stores_row_def
    by (simp add: example_gets bind_err_def Let_def split_beta 1 2 3 4 5 6 7 8 9 example_store_def)
qed

lemma example_row_loaded:
  "load_stores_row example_row example_loader
     = Inr \<lparr>l_images = example_images, l_stores = [example_store],
            l_seen_slugs = {|u ''happy-paws''|}\<rparr>"
  unfolding example_loader_def example_row_step
  by (simp add: example_slug example_store_def)

lemma example_detail_loaded: "load_images (Some example_detail) = Inr example_images"
proof -
  have "strip (u ''https://maps/x'') = u ''https://maps/x''"
    "strip (u ''https://img/1.png'') = u ''https://img/1.png''"
    by (simp_all add: string_eval)
  moreover have "u ''https://maps/x'' \<noteq> []" "u ''https://img/1.png'' \<noteq> []"
    by (simp_all add: u_def)
  moreover have "get_str (hd example_detail) (u ''hfpxzc href'') = Inr (u ''https://maps/x'')"
    "get_str (hd example_detail) (u ''aoRNLd src'') = Inr (u ''https://img/1.png'')"
    by (simp_all add: example_detail_def get_str_def u_def)
  ultimately show ?thesis
    by (simp add: load_images_def example_detail_def bind_err_def example_images_def)
qed

lemma example_run:
  "load_stores (Some example_detail) (Some [example_row, example_row])
     = Inr [example_store, example_store\<lparr>Store.slug := u ''happy-paws-2''\<rparr>]"
  by (simp add: load_stores_def example_detail_loaded bind_err_def example_row_step
        example_slug example_slug2 example_store_def)

lemma pad2_small: "pad2 (Suc 0) = u ''01''" "pad2 (Suc (Suc 0)) = u ''02''"
  by (simp_all add: pad2_def str_nat.simps u_def)

lemma example_cells_nth:
  "length example_cells = 21"
  "example_cells ! Suc 0 = u ''https://maps/x''"
  "example_cells ! 2 = u ''Happy Paws''"
  "example_cells ! 3 = u ''4.5''"
  "example_cells ! 4 = u ''(12)''"
  "example_cells ! 10 = u ''www.example.com''"
  "cell example_cells 5 = Some (u ''Groomer'')"
  "cell example_cells 7 = Some (0x22C5 # u '' Main St'')"
  "cell example_cells 8 = Some []"
  "cell example_cells 9 = Some [0xB7]"
  "cell example_cells 16 = Some []"
  "drop 17 example_cells = [u ''Bath'', u ''Bath'', [0xB7], u '' '']"
  by (simp_all add: example_cells_def cell_def)

lemma example_cells_step:
  "parse_stores_row example_float 4300 example_cells \<lparr>p_image_lookup = example_images, p_stores = ss\<rparr>
     = Inr \<lparr>p_image_lookup = example_images,
            p_stores = ss @ [example_scripts_store
                              \<lparr>scripts_Store.slug := u ''store-'' @ pad2 (length ss + 1)\<rparr>]\<rparr>"
proof -
  have 1: "strip (u ''https://maps/x'') = u ''https://maps/x''"
    "strip (u ''Happy Paws'') = u ''Happy Paws''" "strip (u ''4.5'') = u ''4.5''"
    "strip (u ''www.example.com'') = u ''www.example.com''"
    by (simp_all add: string_eval)
  have 2: "startswith (u ''https://maps/x'') (u ''http'')"
    "\<not> startswith (u ''www.example.com'') (u ''http'')"
    by (simp_all add: startswith_def u_def)
  have 3: "coerce_int 4300 (u ''(12)'') = Inr (Some 12)"
    by (simp add: coerce_int_def u_def int_of_digits_def)
  have 4: "clean_text (Some (u ''Groomer'')) = Some (u ''Groomer'')"
    "clean_text (Some (0x22C5 # u '' Main St'')) = Some (u ''Main St'')"
    "clean_text (Some []) = None"
    "clean_text (Some (u ''Bath'')) = Some (u ''Bath'')"
    "clean_text (Some [0xB7]) = Some [0xB7]"
    "clean_text (Some (u '' '')) = None"
    by (simp_all add: clean_text_def string_eval)
  have ne: "u ''Bath'' \<noteq> []" "u ''Bath'' \<noteq> [0xB7]" by (simp_all add: u_def)
  have 5: "collect_services example_cells = [u ''Bath'', u ''Bath'']"
    by (simp add: collect_services_def example_cells_nth 4 truthy_def Let_def ne)
  have 6: "u ''https://maps/x'' \<noteq> []" "u ''Happy Paws'' \<noteq> []" by (simp_all add: u_def)
  have 7: "example_images (u ''https://maps/x'') = Some (u ''https://img/1.png'')"
    by (simp add: example_images_def)
  have 8: "coerce_float example_float (u ''4.5'') = Some 45"
    by (simp add: coerce_float_def example_float_def)
  show ?thesis
    unfolding parse_stores_row_def
    by (simp add: example_cells_nth bind_err_def Let_def 1 2 3 4 5 6 7 8 example_scripts_store_def)
qed

lemma example_scripts_run:
  "parse_stores example_float 4300 (Some [[], example_cells, [], example_cells]) example_images
     = Inr \<lparr>p_image_lookup = example_images,
            p_stores = [example_scripts_store,
                        example_scripts_store\<lparr>scripts_Store.slug := u ''store-02''\<rparr>]\<rparr>"
proof -
  have "parse_stores_row example_float 4300 [] st = Inr st" for st
    by (simp add: parse_stores_row_def)
  moreover have "u ''store-'' @ u ''01'' = u ''store-01''" "u ''store-'' @ u ''02'' = u ''store-02''"
    by (simp_all add: u_def)
  ultimately show ?thesis
    by (simp add: parse_stores_def bind_err_def example_cells_step pad2_small
          example_scripts_store_def)
qed

lemma example_single_run:
  "load_stores (Some example_detail) (Some [example_row]) = Inr [example_store]"
  by (simp add: load_stores_def example_detail_loaded bind_err_def example_row_step
        example_slug example_store_def)

lemma example_loop:
  "load_stores_loop [example_row] example_loader
     = Inr \<lparr>l_images = example_images, l_stores = [example_store],
            l_seen_slugs = {|u ''happy-paws''|}\<rparr>"
  by (simp add: bind_err_def example_row_loaded)

lemma example_cells_parsed:
  "parse_stores_row example_float 4300 example_cells
       \<lparr>p_image_lookup = example_images, p_stores = []\<rparr>
     = Inr \<lparr>p_image_lookup = example_images, p_stores = [example_scripts_store]\<rparr>"
  unfolding example_cells_step
  by (simp add: pad2_small example_scripts_store_def u_def)

lemma example_row_accepted:
  "load_stores_row example_row example_loader = Inr example_loaded
   \<and> l_stores example_loaded = l_stores example_loader @ [example_store]"
  by (simp add: example_row_loaded example_loaded_def) (simp add: example_loader_def)

lemma example_cells_accepted:
  "parse_stores_row example_float 4300 example_cells example_parser = Inr example_parsed
   \<and> p_stores example_parsed = p_stores example_parser @ [example_scripts_store]"
  by (simp add: example_cells_parsed example_parser_def example_parsed_def)

lemma example_float_rejects:
  "\<forall>x. (\<forall>c\<in>set x. isspace c \<or> c = 0xB7 \<or> c = 0x22C5) \<longrightarrow> example_float x = None"
proof (intro allI impI)
  fix x :: ustr
  assume a: "\<forall>c\<in>set x. isspace c \<or> c = 0xB7 \<or> c = 0x22C5"
  have "52 \<in> set (u ''4.5'')" by (simp add: u_def)
  moreover have "\<not> (isspace 52 \<or> (52::nat) = 0xB7 \<or> (52::nat) = 0x22C5)"
    by (simp add: isspace_def)
  ultimately have "x \<noteq> u ''4.5''" using a by blast
  then show "example_float x = None" by (simp add: example_float_def)
qed

lemma dot_cells_accepted:
  "parse_stores_row example_float 4300 dot_cells example_parser
     = Inr \<lparr>p_image_lookup = example_images, p_stores = [dot_store]\<rparr>"
proof -
  have n: "length dot_cells = 4" "dot_cells ! Suc 0 = u ''https://maps/x''"
    "dot_cells ! 2 = u ''Happy Paws''" "dot_cells ! 3 = [0xB7, 32]"
    by (simp_all add: dot_cells_def)
  have 1: "strip (u ''https://maps/x'') = u ''https://maps/x''"
    "strip (u ''Happy Paws'') = u ''Happy Paws''" "strip [0xB7, 32] = [0xB7]"
    by (simp_all add: string_eval)
  have 2: "startswith (u ''https://maps/x'') (u ''http'')" "\<not> startswith [] (u ''http'')"
    by (simp_all add: startswith_def u_def)
  have 6: "u ''https://maps/x'' \<noteq> []" "u ''Happy Paws'' \<noteq> []" by (simp_all add: u_def)
  have 7: "example_images (u ''https://maps/x'') = Some (u ''https://img/1.png'')"
    by (simp add: example_images_def)
  have 8: "coerce_float example_float [0xB7] = None"
    by (simp add: coerce_float_def example_float_def u_def)
  have 9: "u ''store-'' @ pad2 (Suc 0) = u ''store-01''" by (simp add: pad2_small) (simp add: u_def)
  have 10: "collect_services dot_cells = []"
    by (simp add: collect_services_def dot_cells_def List.map_filter_simps)
  show ?thesis
    unfolding parse_stores_row_def
    by (simp add: n bind_err_def Let_def 1 2 6 7 8 9 10 cell_def clean_text_def
          example_parser_def dot_store_def)
qed

subsection \<open>What a rendered page contains\<close>

lemma sublist_concat_mem: "p \<in> set ps \<Longrightarrow> sublist p (concat ps)"
proof (induction ps)
  case Nil
  then show ?case by simp
next
  case (Cons q qs)
  then show ?case
    by (auto intro: sublist_appendI simp: sublist_append)
qed

lemma sublist_trans': "sublist a b \<Longrightarrow> sublist b c \<Longrightarrow> sublist a c"
  by (rule sublist_order.order_trans)

lemma escape_append: "escape (a @ b) = escape a @ escape b"
  by (simp add: escape_def)

lemma if_set_Some: "v \<noteq> [] \<Longrightarrow> if_set (Some v) f d = f v"
  by (simp add: if_set_def)

lemma when_set_Some: "v \<noteq> [] \<Longrightarrow> when_set (Some v) f = f v"
  by (simp add: when_set_def if_set_def)

lemma or_else_Some: "v \<noteq> [] \<Longrightarrow> or_else (Some v) d = v"
  by (simp add: or_else_def)

lemma store_html_display_name: "sublist (escape (display_name store)) (store_html store)"
  unfolding store_html_def by (rule sublist_concat_mem) simp

lemma store_html_map_url: "sublist (escape (Store.map_url store)) (store_html store)"
  unfolding store_html_def by (rule sublist_concat_mem) simp

lemma store_html_rating: "sublist (escape (or_else (Store.rating store) no_rating)) (store_html store)"
  unfolding store_html_def by (rule sublist_concat_mem) simp

lemma bar_run: "load_stores None (Some [bar_row]) = Inr [bar_store]"
proof -
  have g: "get_str bar_row (u ''qBF1Pd'') = Inr (u ''A|'')"
    "get_str bar_row (u ''hfpxzc href'') = Inr []"
    "get_str bar_row (u ''MW4etd'') = Inr []"
    "get_str bar_row (u ''UY7F9'') = Inr []"
    "get_str bar_row (u ''W4Efsd'') = Inr []"
    "get_str bar_row (u ''W4Efsd (3)'') = Inr []"
    "get_str bar_row (u ''W4Efsd (4)'') = Inr []"
    "get_str bar_row (u ''W4Efsd (5)'') = Inr []"
    "get_str bar_row (u ''lcr4fd href'') = Inr []"
    "get_str bar_row (u ''UsdlK'') = Inr []"
    "get_str bar_row (u ''ah5Ghc'') = Inr []"
    "get_str bar_row (u ''ah5Ghc (2)'') = Inr []"
    by (simp_all add: get_str_def bar_row_def u_def)
  have 1: "strip (u ''A|'') = u ''A|''" "u ''A|'' \<noteq> []" by (simp_all add: string_eval)
  have 2: "clean_value [] = []" "strip_by (\<lambda>c. c = 40 \<or> c = 41) [] = []"
    by (simp_all add: string_eval)
  have 3: "slugify (u ''A|'') {||} = (u ''a'', {|u ''a''|})"
    by (subst slugify_def, subst slug_loop.simps)
       (simp add: Let_def slug_base_def u_def strip_by_def rstrip_by_def lstrip_by_def
          slug_char_def lower_def)
  show ?thesis
    by (simp add: load_stores_def load_images_def bind_err_def load_stores_row_def g 1 2 3
          Let_def bar_store_def)
qed

lemmas root_render_defs = store_html_def review_span_def category_span_def website_button_def
  image_block_def features_block_def features_html_def meta_items_def display_name_def
  when_set_def if_set_def when_item_def or_else_def no_rating_def escape_def escape_char_def
  rstrip_by_def sq_def

lemma bar_absent: "0x7C \<notin> set (store_html bar_store)"
  by (simp add: root_render_defs bar_store_def u_def)

lemma in_store_html:
  assumes "sublist p q" and "q \<in> set
      [review_span store, category_span store, image_block store, website_button store,
       features_block store, concat (meta_items store)]"
  shows "sublist p (store_html store)"
proof -
  from assms(2) have "sublist q (store_html store)"
    unfolding store_html_def by (intro sublist_concat_mem) auto
  with assms(1) show ?thesis by (rule sublist_trans')
qed

lemma store_html_review_count:
  assumes "Store.review_count store = Some v" and "v \<noteq> []"
  shows "sublist (escape v) (store_html store)"
proof -
  have "sublist (escape v) (review_span store)"
    unfolding review_span_def assms(1) when_set_Some [OF assms(2)]
    by (rule sublist_concat_mem) simp
  then show ?thesis by (rule in_store_html) simp
qed

lemma store_html_category:
  assumes "Store.category store = Some v" and "v \<noteq> []"
  shows "sublist (escape v) (store_html store)"
proof -
  have "sublist (escape v) (category_span store)"
    unfolding category_span_def assms(1) when_set_Some [OF assms(2)]
    by (rule sublist_concat_mem) simp
  then show ?thesis by (rule in_store_html) simp
qed

lemma store_html_website:
  assumes "Store.website store = Some v" and "v \<noteq> []"
  shows "sublist (escape v) (store_html store)"
proof -
  have "sublist (escape v) (website_button store)"
    unfolding website_button_def assms(1) when_set_Some [OF assms(2)]
    by (rule sublist_concat_mem) simp
  then show ?thesis by (rule in_store_html) simp
qed

lemma store_html_image_url:
  assumes "Store.image_url store = Some v" and "v \<noteq> []"
  shows "sublist (escape v) (store_html store)"
proof -
  have "sublist (escape v) (image_block store)"
    unfolding image_block_def assms(1) if_set_Some [OF assms(2)]
    by (rule sublist_concat_mem) simp
  then show ?thesis by (rule in_store_html) simp
qed

lemma when_item_Some: "v \<noteq> [] \<Longrightarrow> when_item (Some v) f = [f v]"
  by (simp add: when_item_def)

lemma in_meta_items:
  assumes "sublist p q" and "q \<in> set (meta_items store)"
  shows "sublist p (store_html store)"
proof -
  from assms(2) have "sublist q (concat (meta_items store))" by (rule sublist_concat_mem)
  with assms(1) have "sublist p (concat (meta_items store))" by (rule sublist_trans')
  then show ?thesis by (rule in_store_html) simp
qed

lemma store_html_address:
  assumes "Store.address store = Some v" and "v \<noteq> []"
  shows "sublist (escape v) (store_html store)"
proof (rule in_meta_items)
  show "concat [u ''<li class='info-item'><strong>'', [0x5730, 0x5740], u ''</strong><br>'',
              escape v, u ''</li>''] \<in> set (meta_items store)"
    unfolding meta_items_def assms(1) when_item_Some [OF assms(2)] by simp
  show "sublist (escape v) (concat [u ''<li class='info-item'><strong>'', [0x5730, 0x5740],
     u ''</strong><br>'', escape v, u ''</li>''])"
    by (rule sublist_concat_mem) simp
qed

lemma store_html_phone:
  assumes "Store.phone store = Some v" and "v \<noteq> []"
  shows "sublist (escape v) (store_html store)"
proof (rule in_meta_items)
  show "concat [u ''<li class='info-item'><strong>'', [0x96FB, 0x8A71], u ''</strong><br>'',
              escape v, u ''</li>''] \<in> set (meta_items store)"
    unfolding meta_items_def assms(1) when_item_Some [OF assms(2)] by simp
  show "sublist (escape v) (concat [u ''<li class='info-item'><strong>'', [0x96FB, 0x8A71],
     u ''</strong><br>'', escape v, u ''</li>''])"
    by (rule sublist_concat_mem) simp
qed

lemma store_html_status:
  assumes "Store.status store = Some v" and "v \<noteq> []"
  shows "sublist (escape v) (store_html store)"
proof (rule in_meta_items)
  show "concat [u ''<li class='info-item'><strong>'', [0x71DF, 0x696D, 0x72C0, 0x614B],
              u ''</strong><br>'', escape v, u ''</li>''] \<in> set (meta_items store)"
    unfolding meta_items_def assms(1) when_item_Some [OF assms(2)] by simp
  show "sublist (escape v) (concat [u ''<li class='info-item'><strong>'',
     [0x71DF, 0x696D, 0x72C0, 0x614B], u ''</strong><br>'', escape v, u ''</li>''])"
    by (rule sublist_concat_mem) simp
qed

lemma store_html_hours:
  assumes "Store.hours store = Some v" and "v \<noteq> []"
  shows "sublist (escape v) (store_html store)"
proof (rule in_meta_items)
  show "concat [u ''<li class='info-item'><strong>'', [0x71DF, 0x696D, 0x6642, 0x9593],
              u ''</strong><br>'', escape v, u ''</li>''] \<in> set (meta_items store)"
    unfolding meta_items_def assms(1) when_item_Some [OF assms(2)] by simp
  show "sublist (escape v) (concat [u ''<li class='info-item'><strong>'',
     [0x71DF, 0x696D, 0x6642, 0x9593], u ''</strong><br>'', escape v, u ''</li>''])"
    by (rule sublist_concat_mem) simp
qed

lemma store_html_feature:
  assumes "f \<in> set (Store.features store)"
  shows "sublist (escape f) (store_html store)"
proof -
  let ?badge = "\<lambda>feature. concat [u ''<span class='badge'>'', escape feature, u ''</span>'']"
  have "?badge f \<in> set (map ?badge (Store.features store))" using assms by simp
  then have 1: "sublist (?badge f) (features_html store)"
    unfolding features_html_def by (rule sublist_concat_mem)
  have "?badge f \<noteq> []" by (simp add: u_def)
  with 1 have ne: "features_html store \<noteq> []" by auto
  have 2: "sublist (escape f) (?badge f)" by (rule sublist_concat_mem) simp
  from 2 1 have 3: "sublist (escape f) (features_html store)" by (rule sublist_trans')
  have "features_block store
      = concat [u ''<div style='margin-top:12px;'>'', features_html store, u ''</div>'']"
    using ne by (simp add: features_block_def)
  then have 4: "sublist (features_html store) (features_block store)"
    by (simp only:) (rule sublist_concat_mem, simp)
  from 3 4 have "sublist (escape f) (features_block store)" by (rule sublist_trans')
  then show ?thesis by (rule in_store_html) simp
qed

lemma sublist_not_Nil: "sublist a b \<Longrightarrow> a \<noteq> [] \<Longrightarrow> b \<noteq> []"
  by auto

lemma render_store_direct:
  "sublist (escape (scripts_Store.name store)) (render_store fmt1 store)"
  "sublist (escape (scripts_Store.map_url store)) (render_store fmt1 store)"
  "sublist (escape (or_else (scripts_Store.image_url store) store_placeholder))
     (render_store fmt1 store)"
  "sublist (escape (or_else (scripts_Store.address store) scripts_no_address))
     (render_store fmt1 store)"
  "sublist (escape (or_else (scripts_Store.status store) no_status)) (render_store fmt1 store)"
  "sublist (escape (or_else (scripts_Store.hours_note store) no_hours)) (render_store fmt1 store)"
  "sublist (if_set (scripts_Store.phone store) escape no_phone) (render_store fmt1 store)"
  "sublist (rating_text fmt1 store) (render_store fmt1 store)"
  "sublist (reviews_text store) (render_store fmt1 store)"
  "sublist (escape (if badge_text store \<noteq> [] then badge_text store else default_lede))
     (render_store fmt1 store)"
  unfolding render_store_def Let_def by (rule sublist_concat_mem, simp)+

lemma render_store_website:
  assumes "scripts_Store.website store = Some v" and "v \<noteq> []"
  shows "sublist (escape v) (render_store fmt1 store)"
proof -
  let ?link = "concat [u ''<a class=\"button\" href=\"'', escape v,
                   u ''\" target=\"_blank\" rel=\"noopener\">'',
                   [0x9020, 0x8A2A, 0x5B98, 0x65B9, 0x7DB2, 0x7AD9], u ''</a>'']"
  have 1: "sublist (escape v) ?link" by (rule sublist_concat_mem) simp
  have 2: "sublist ?link (render_store fmt1 store)"
    unfolding render_store_def Let_def assms(1) when_set_Some [OF assms(2)]
    by (rule sublist_concat_mem) simp
  from 1 2 show ?thesis by (rule sublist_trans')
qed

lemma render_store_review_count:
  assumes "scripts_Store.review_count store = Some n"
  shows "sublist (str_nat n) (render_store fmt1 store)"
proof -
  have "sublist (str_nat n) (reviews_text store)"
    unfolding reviews_text_def assms by (simp only: option.case) (rule sublist_concat_mem, simp)
  then show ?thesis using render_store_direct(9) by (rule sublist_trans')
qed

lemma sublist_join: "p \<in> set ps \<Longrightarrow> sublist p (join sep ps)"
proof (cases ps)
  case Nil
  then show "p \<in> set ps \<Longrightarrow> sublist p (join sep ps)" by simp
next
  case (Cons q qs)
  assume "p \<in> set ps"
  then consider "p = q" | "p \<in> set qs" using Cons by auto
  then show "sublist p (join sep ps)"
  proof cases
    case 1
    then show ?thesis unfolding join_def Cons by (simp only: list.case) (rule sublist_concat_mem, simp)
  next
    case 2
    then have "sep @ p \<in> set (q # map (\<lambda>x. sep @ x) qs)" by auto
    then have "sublist (sep @ p) (join sep ps)"
      unfolding join_def Cons by (simp only: list.case) (rule sublist_concat_mem)
    moreover have "sublist p (sep @ p)" by (simp add: sublist_append)
    ultimately show ?thesis by (rule sublist_trans'[rotated])
  qed
qed

lemma sublist_escape:
  assumes "sublist a b"
  shows "sublist (escape a) (escape b)"
proof -
  from assms obtain pre post where "b = pre @ a @ post" by (auto simp: sublist_def)
  then have "escape b = escape pre @ escape a @ escape post" by (simp add: escape_append)
  then show ?thesis unfolding sublist_def by blast
qed

lemma render_store_category:
  assumes "scripts_Store.category store = Some v" and "v \<noteq> []"
  shows "sublist (escape v) (render_store fmt1 store)"
proof -
  have "or_else (scripts_Store.category store) [] = v" using assms by (simp add: or_else_def)
  with assms(2) have "v \<in> set (filter (\<lambda>p. p \<noteq> [])
          (map (\<lambda>x. or_else x [])
             [scripts_Store.category store, scripts_Store.status store,
              scripts_Store.hours_note store]))"
    by auto
  then have 1: "sublist v (badge_text store)"
    unfolding badge_text_def by (rule sublist_join)
  from 1 assms(2) have ne: "badge_text store \<noteq> []" by (rule sublist_not_Nil)
  from 1 have "sublist (escape v) (escape (badge_text store))" by (rule sublist_escape)
  moreover have "sublist (escape (badge_text store)) (render_store fmt1 store)"
    using render_store_direct(10) [of store fmt1] ne by simp
  ultimately show ?thesis by (rule sublist_trans')
qed

lemma render_store_items:
  "sublist (if concat (map (\<lambda>item. concat [u ''<li>'', escape item, u ''</li>''])
                   (scripts_Store.services store)) \<noteq> []
            then concat (map (\<lambda>item. concat [u ''<li>'', escape item, u ''</li>''])
                   (scripts_Store.services store))
            else no_services) (render_store fmt1 store)"
  unfolding render_store_def Let_def by (rule sublist_concat_mem) simp

lemma render_store_service:
  assumes "x \<in> set (scripts_Store.services store)"
  shows "sublist (escape x) (render_store fmt1 store)"
proof -
  let ?li = "\<lambda>item. concat [u ''<li>'', escape item, u ''</li>'']"
  let ?items = "concat (map ?li (scripts_Store.services store))"
  from assms have "?li x \<in> set (map ?li (scripts_Store.services store))" by simp
  then have 1: "sublist (?li x) ?items" by (rule sublist_concat_mem)
  have "?li x \<noteq> []" by (simp add: u_def)
  with 1 have ne: "?items \<noteq> []" by (rule sublist_not_Nil)
  have 2: "sublist (escape x) (?li x)" by (rule sublist_concat_mem) simp
  from 2 1 have "sublist (escape x) ?items" by (rule sublist_trans')
  moreover from render_store_items [of store fmt1] ne
  have "sublist ?items (render_store fmt1 store)" by simp
  ultimately show ?thesis by (rule sublist_trans')
qed

lemma render_store_no_services:
  assumes "scripts_Store.services store = []"
  shows "sublist no_services (render_store fmt1 store)"
  using render_store_items [of store fmt1] assms by simp

subsection \<open>What a run writes\<close>

lemma load_stores_slugs:
  assumes "load_stores detail_file data_file = Inr ss"
  shows "distinct (map Store.slug ss)" and "[] \<notin> set (map Store.slug ss)"
proof -
  from assms obtain imgs rows st' where
    "load_stores_loop rows \<lparr>l_images = imgs, l_stores = [], l_seen_slugs = {||}\<rparr> = Inr st'"
    "ss = l_stores st'"
    by (auto simp: load_stores_def bind_err_Inr split: option.splits)
  moreover have "loader_ok \<lparr>l_images = imgs, l_stores = [], l_seen_slugs = {||}\<rparr>"
    by (simp add: loader_ok_def)
  ultimately have ok: "loader_ok st'" and ss: "ss = l_stores st'"
    by (auto dest: load_stores_loop_ok)
  from ok ss show "distinct (map Store.slug ss)" by (simp add: loader_ok_def)
  from ok ss show "[] \<notin> set (map Store.slug ss)" by (simp add: loader_ok_def)
qed

lemma parse_stores_slugs:
  assumes "parse_stores float_of lim data_csv image_lookup = Inr st"
  shows "distinct (map scripts_Store.slug (p_stores st))"
    and "[] \<notin> set (map scripts_Store.slug (p_stores st))"
proof -
  from assms obtain rows where
    "parse_stores_loop float_of lim (drop 1 rows) \<lparr>p_image_lookup = image_lookup, p_stores = []\<rparr>
       = Inr st"
    by (auto simp: parse_stores_def split: option.splits)
  then have eq: "map scripts_Store.slug (p_stores st)
         = map (\<lambda>i. u ''store-'' @ pad2 (i + 1)) [0..<length (p_stores st)]"
    by (rule parse_stores_loop_slugs) simp
  show "distinct (map scripts_Store.slug (p_stores st))"
    by (subst eq) (rule numbered_slugs_distinct)
  show "[] \<notin> set (map scripts_Store.slug (p_stores st))"
    by (subst eq) (rule numbered_slugs_not_Nil)
qed

lemma then_do_None:
  "then_do r f = (None, w') \<longleftrightarrow> (\<exists>w1. r = (None, w1) \<and> f w1 = (None, w'))"
  by (cases r) (auto simp: then_do_def split: option.splits)

lemma then_do_fst:
  "fst (then_do r f) = None \<longleftrightarrow> fst r = None \<and> fst (f (snd r)) = None"
  by (cases r) (auto simp: then_do_def split: option.splits)

lemma files_mkdir_one: "files (snd (mkdir_one p w)) = files w"
  by (simp add: mkdir_one_def)

lemma files_for_each_mkdir_one: "files (snd (for_each mkdir_one ps w)) = files w"
proof (induction ps arbitrary: w)
  case Nil
  then show ?case by simp
next
  case (Cons p ps)
  show ?case
  proof (cases "mkdir_one p w")
    case (Pair e w1)
    with files_mkdir_one [of p w] have f: "files w1 = files w" by simp
    show ?thesis
    proof (cases e)
      case None
      with Pair Cons.IH [of w1] f show ?thesis by (simp add: then_do_def)
    next
      case (Some a)
      with Pair f show ?thesis by (simp add: then_do_def)
    qed
  qed
qed

lemma files_mkdir: "files (snd (mkdir p w)) = files w"
  by (simp add: mkdir_def files_for_each_mkdir_one)

lemma mkdir_None: "mkdir p w = (None, w') \<Longrightarrow> files w' = files w"
  using files_mkdir [of p w] by simp

lemma write_text_None:
  "write_text p content w = (None, w') \<Longrightarrow> files w' = (files w)(p \<mapsto> content)"
  by (auto simp: write_text_def split: if_splits)

lemma write_store_None:
  assumes "write_store fmt s w = (None, w')"
  shows "files w' = (files w)([u ''docs'', u ''stores'', scripts_Store.slug s, u ''index.html'']
            \<mapsto> render_store fmt s)"
proof -
  from assms obtain w1 where
    m: "mkdir [u ''docs'', u ''stores'', scripts_Store.slug s] w = (None, w1)"
    and t: "write_text [u ''docs'', u ''stores'', scripts_Store.slug s, u ''index.html'']
              (render_store fmt s) w1 = (None, w')"
    by (auto simp: write_store_def Let_def then_do_None)
  from write_text_None [OF t] mkdir_None [OF m] show ?thesis by simp
qed

lemma for_each_write_other:
  "for_each (write_store fmt) sts w = (None, w') \<Longrightarrow>
   \<forall>s\<in>set sts. q \<noteq> [u ''docs'', u ''stores'', scripts_Store.slug s, u ''index.html''] \<Longrightarrow>
   files w' q = files w q"
proof (induction sts arbitrary: w)
  case Nil
  then show ?case by simp
next
  case (Cons x xs)
  from Cons.prems(1) obtain w1 where a: "write_store fmt x w = (None, w1)"
    and b: "for_each (write_store fmt) xs w1 = (None, w')"
    by (auto simp: then_do_None)
  from Cons.IH [OF b] Cons.prems(2) have "files w' q = files w1 q" by simp
  with write_store_None [OF a] Cons.prems(2) show ?case by simp
qed

lemma for_each_write_page:
  "for_each (write_store fmt) sts w = (None, w') \<Longrightarrow>
   distinct (map scripts_Store.slug sts) \<Longrightarrow> s \<in> set sts \<Longrightarrow>
   files w' [u ''docs'', u ''stores'', scripts_Store.slug s, u ''index.html'']
     = Some (render_store fmt s)"
proof (induction sts arbitrary: w)
  case Nil
  then show ?case by simp
next
  case (Cons x xs)
  from Cons.prems(1) obtain w1 where a: "write_store fmt x w = (None, w1)"
    and b: "for_each (write_store fmt) xs w1 = (None, w')"
    by (auto simp: then_do_None)
  show ?case
  proof (cases "s = x")
    case True
    have "\<forall>y\<in>set xs. [u ''docs'', u ''stores'', scripts_Store.slug x, u ''index.html'']
            \<noteq> [u ''docs'', u ''stores'', scripts_Store.slug y, u ''index.html'']"
      using Cons.prems(2) by auto
    from for_each_write_other [OF b this] write_store_None [OF a] True
    show ?thesis by simp
  next
    case False
    with Cons.prems have "distinct (map scripts_Store.slug xs)" "s \<in> set xs" by auto
    from Cons.IH [OF b this] show ?thesis .
  qed
qed

lemma generate_pages_empty:
  assumes "scripts_load_images detail_csv = Inr imgs"
    and "parse_stores float_of lim data_csv imgs = Inr st" and "p_stores st = []"
  shows "generate_pages float_of lim fmt json_dumps detail_csv data_csv w
           = (Some (SystemExit no_stores_message), w)"
  using assms by (simp add: generate_pages_def)

lemma generate_pages_wrote:
  assumes "snd (generate_pages float_of lim fmt json_dumps detail_csv data_csv w) \<noteq> w"
  shows "\<exists>imgs st. scripts_load_images detail_csv = Inr imgs
      \<and> parse_stores float_of lim data_csv imgs = Inr st \<and> p_stores st \<noteq> []"
  using assms by (auto simp: generate_pages_def Let_def split: sum.splits if_splits)

lemma generate_pages_ok:
  assumes "fst (generate_pages float_of lim fmt json_dumps detail_csv data_csv w) = None"
  shows "\<exists>imgs st. scripts_load_images detail_csv = Inr imgs
      \<and> parse_stores float_of lim data_csv imgs = Inr st \<and> p_stores st \<noteq> []
      \<and> files (snd (generate_pages float_of lim fmt json_dumps detail_csv data_csv w))
            [u ''docs'', u ''index.html''] = Some (scripts_render_index fmt (p_stores st))
      \<and> (\<forall>s\<in>set (p_stores st).
            files (snd (generate_pages float_of lim fmt json_dumps detail_csv data_csv w))
              [u ''docs'', u ''stores'', scripts_Store.slug s, u ''index.html'']
            = Some (render_store fmt s))"
proof -
  let ?g = "generate_pages float_of lim fmt json_dumps detail_csv data_csv w"
  from assms obtain imgs st where i: "scripts_load_images detail_csv = Inr imgs"
    and p: "parse_stores float_of lim data_csv imgs = Inr st" and ne: "p_stores st \<noteq> []"
    by (auto simp: generate_pages_def Let_def split: sum.splits if_splits)
  obtain w' where g: "?g = (None, w')" using assms by (cases ?g) simp
  from g i p ne obtain w3 w4 where
    t: "write_text [u ''docs'', u ''index.html''] (scripts_render_index fmt (p_stores st)) w3
          = (None, w4)"
    and f: "for_each (write_store fmt) (p_stores st) w4 = (None, w')"
    by (auto simp: generate_pages_def Let_def then_do_None)
  have "files w' [u ''docs'', u ''index.html''] = files w4 [u ''docs'', u ''index.html'']"
    by (rule for_each_write_other [OF f]) simp
  with write_text_None [OF t]
  have 1: "files (snd ?g) [u ''docs'', u ''index.html'']
      = Some (scripts_render_index fmt (p_stores st))"
    by (simp add: g)
  from parse_stores_slugs(1) [OF p]
  have 2: "\<forall>s\<in>set (p_stores st). files (snd ?g)
              [u ''docs'', u ''stores'', scripts_Store.slug s, u ''index.html'']
            = Some (render_store fmt s)"
    by (simp add: g for_each_write_page [OF f])
  from i p ne 1 2 show ?thesis by blast
qed

text \<open>
  A slug of more than \<open>name_max\<close> bytes cannot name a directory, so the run of the root
  generator over such a record ends with \<open>OSError\<close> in the loop over the records, after
  the index page is written; a name of 256 letters gives such a slug (\<open>long_name_run\<close>).
\<close>

lemma for_each_fails:
  "x \<in> set xs \<Longrightarrow> (\<And>w. fst (f x w) \<noteq> None) \<Longrightarrow> fst (for_each f xs w) \<noteq> None"
proof (induction xs arbitrary: w)
  case Nil
  then show ?case by simp
next
  case (Cons y ys)
  show ?case
  proof (cases "fst (f y w) = None")
    case True
    with Cons.prems(2) [of w] have "x \<noteq> y" by auto
    with Cons.prems(1) have "x \<in> set ys" by simp
    from Cons.IH [OF this Cons.prems(2)] True show ?thesis
      by (simp add: then_do_fst)
  next
    case False
    then show ?thesis by (simp add: then_do_fst)
  qed
qed

lemma mkdir_long_name:
  assumes "name_max < utf8_length n"
  shows "fst (mkdir [d, n] w) \<noteq> None"
  using assms by (simp add: mkdir_def mkdir_one_def then_do_def)

lemma render_store_page_long_slug:
  assumes "name_max < utf8_length (Store.slug s)"
  shows "fst (render_store_page s w) \<noteq> None"
proof
  assume "fst (render_store_page s w) = None"
  then obtain w2 where "fst (mkdir [u ''docs'', Store.slug s] w2) = None"
    by (auto simp: render_store_page_def Let_def then_do_fst)
  with mkdir_long_name [OF assms] show False by blast
qed

lemma build_site_long_slug:
  assumes "load_stores detail_file data_file = Inr sts" and "s \<in> set sts"
    and "name_max < utf8_length (Store.slug s)"
  shows "fst (build_site detail_file data_file w) \<noteq> None"
proof -
  have "fst (for_each render_store_page sts w1) \<noteq> None" for w1
    using assms(2) render_store_page_long_slug [OF assms(3)] by (rule for_each_fails)
  then show ?thesis
    using assms(1) by (auto simp: build_site_def then_do_fst)
qed

lemma short_names:
  "\<not> name_max < utf8_length (u ''docs'')"
  "\<not> name_max < utf8_length (u ''assets'')"
  "\<not> name_max < utf8_length (u ''style.css'')"
  "\<not> name_max < utf8_length (u ''index.html'')"
  "\<not> name_max < utf8_length (u ''stores'')"
  "\<not> name_max < utf8_length (u ''data'')"
  "\<not> name_max < utf8_length (u ''stores.json'')"
  "\<not> name_max < utf8_length (u ''store-01'')"
  by (simp_all add: name_max_def utf8_length_def u_def)

lemma names_differ:
  "u ''index.html'' \<noteq> u ''style.css''" "u ''index.html'' \<noteq> u ''assets''"
  "u ''assets'' \<noteq> u ''stores''" "u ''assets'' \<noteq> u ''data''" "u ''stores'' \<noteq> u ''data''"
  "u ''index.html'' \<noteq> u ''stores''" "u ''index.html'' \<noteq> u ''data''"
  "u ''assets'' \<noteq> u ''index.html''" "u ''stores'' \<noteq> u ''index.html''"
  "u ''data'' \<noteq> u ''index.html''" "u ''stores'' \<noteq> u ''assets''" "u ''data'' \<noteq> u ''assets''"
  "u ''data'' \<noteq> u ''stores''"
  by (simp_all add: u_def)

lemmas fs_eval = mkdir_def for_each.simps mkdir_one_def then_do_def write_text_def
  exists_path_def short_names names_differ

lemma render_index_empty_world:
  "render_index sts empty_world
     = (None, \<lparr>files = [[u ''docs'', u ''assets'', u ''style.css''] \<mapsto> style_css,
                        [u ''docs'', u ''index.html''] \<mapsto> index_html sts],
               dirs = {|[u ''docs''], [u ''docs'', u ''assets'']|}, stdout = []\<rparr>)"
  by (simp add: render_index_def ensure_assets_def empty_world_def fs_eval Let_def)
    (auto simp: fun_upd_twist names_differ)

lemma empty_run:
  "build_site None (Some []) empty_world
     = (None, \<lparr>files = [[u ''docs'', u ''assets'', u ''style.css''] \<mapsto> style_css,
                        [u ''docs'', u ''index.html''] \<mapsto> index_html []],
               dirs = {|[u ''docs''], [u ''docs'', u ''assets'']|},
               stdout = [u ''Generated 0 store pages in docs/'']\<rparr>)"
proof -
  have l: "load_stores None (Some []) = Inr []"
    by (simp add: load_stores_def load_images_def bind_err_def)
  have g: "generated_line [] = u ''Generated 0 store pages in docs/''"
    by (simp add: generated_line_def str_nat.simps u_def)
  show ?thesis
    by (simp add: build_site_def l render_index_empty_world then_do_def g)
qed

lemma re_sub_runs_id: "\<forall>c\<in>set s. slug_char c \<Longrightarrow> re_sub_runs s = s"
  by (induction s) simp_all

lemma long_slug: "slugify (replicate 256 97) {||} = (replicate 256 97, {|replicate 256 97|})"
proof -
  have "re_sub_runs (replicate 256 97) = replicate 256 97"
    by (rule re_sub_runs_id) (simp add: slug_char_def)
  moreover have "strip_by (\<lambda>c. c = 45) (replicate 256 97) = replicate 256 (97::nat)"
    by (rule strip_by_id) simp
  moreover have "lower (replicate 256 97) = replicate 256 97"
    by (simp add: lower_def)
  ultimately have "slug_base (replicate 256 97) = replicate 256 97"
    by (simp add: slug_base_def Let_def)
  then show ?thesis
    by (subst slugify_def, subst slug_loop.simps) (simp add: Let_def)
qed

lemma long_run: "load_stores None (Some [long_row]) = Inr [long_store]"
proof -
  have g: "get_str long_row (u ''qBF1Pd'') = Inr (replicate 256 97)"
    "get_str long_row (u ''hfpxzc href'') = Inr []"
    "get_str long_row (u ''MW4etd'') = Inr []"
    "get_str long_row (u ''UY7F9'') = Inr []"
    "get_str long_row (u ''W4Efsd'') = Inr []"
    "get_str long_row (u ''W4Efsd (3)'') = Inr []"
    "get_str long_row (u ''W4Efsd (4)'') = Inr []"
    "get_str long_row (u ''W4Efsd (5)'') = Inr []"
    "get_str long_row (u ''lcr4fd href'') = Inr []"
    "get_str long_row (u ''UsdlK'') = Inr []"
    "get_str long_row (u ''ah5Ghc'') = Inr []"
    "get_str long_row (u ''ah5Ghc (2)'') = Inr []"
    by (simp_all add: get_str_def long_row_def u_def)
  have "strip_by isspace (replicate 256 97) = replicate 256 (97::nat)"
    by (rule strip_by_id) (simp add: isspace_def)
  then have 1: "strip (replicate 256 97) = replicate 256 97" "replicate 256 (97::nat) \<noteq> []"
    by (simp_all add: strip_def)
  have 2: "clean_value [] = []" "strip_by (\<lambda>c. c = 40 \<or> c = 41) [] = []"
    by (simp_all add: string_eval)
  show ?thesis
    by (simp add: load_stores_def load_images_def bind_err_def load_stores_row_def g 1 2
          long_slug Let_def long_store_def)
qed

lemma long_name_run:
  "fst (build_site None (Some [long_row]) empty_world) = Some OSError
   \<and> files (snd (build_site None (Some [long_row]) empty_world)) [u ''docs'', u ''index.html'']
        = Some (index_html [long_store])
   \<and> files (snd (build_site None (Some [long_row]) empty_world))
        [u ''docs'', Store.slug long_store, u ''index.html''] = None"
proof -
  have l: "name_max < utf8_length (replicate 256 97)"
    by (simp add: name_max_def utf8_length_def sum_list_replicate)
  have s: "Store.slug long_store = replicate 256 97" by (simp add: long_store_def)
  have n: "replicate 256 (97::nat) \<noteq> u ''index.html''" "replicate 256 (97::nat) \<noteq> u ''assets''"
    by (auto simp: u_def dest: arg_cong [where f = length])
  show ?thesis
    by (simp add: build_site_def long_run render_index_empty_world render_store_page_def
          ensure_assets_def Let_def fs_eval l s n)
qed

lemma example_detail_csv_loaded: "scripts_load_images (Some example_detail_csv) = Inr example_images"
proof -
  have "strip (u ''https://maps/x'') = u ''https://maps/x''"
    "strip (u ''https://img/1.png'') = u ''https://img/1.png''"
    by (simp_all add: string_eval)
  moreover have "u ''https://maps/x'' \<noteq> []" "u ''https://img/1.png'' \<noteq> []"
    by (simp_all add: u_def)
  ultimately show ?thesis
    by (simp add: scripts_load_images_def example_detail_csv_def example_images_def)
qed

lemma example_parse_run:
  "parse_stores example_float 4300 (Some [[], example_cells]) example_images = Inr example_parsed"
  by (simp add: parse_stores_def bind_err_def example_cells_parsed example_parsed_def)

lemma example_site:
  "fst (generate_pages example_float 4300 example_fmt example_json
          (Some example_detail_csv) (Some [[], example_cells]) empty_world) = None"
proof -
  have s: "scripts_Store.slug example_scripts_store = u ''store-01''"
    by (simp add: example_scripts_store_def)
  show ?thesis
    by (simp add: generate_pages_def example_detail_csv_loaded example_parse_run Let_def
          example_parsed_def scripts_ensure_assets_def write_json_def write_store_def s
          empty_world_def fs_eval)
qed

section \<open>The claims\<close>

text \<open>
  \<^bold>\<open>C1\<close> (slug uniqueness). Whatever the input files hold, the slugs of the records of one
  run are pairwise different and none of them is empty. This holds for the root generator,
  where \<open>slugify\<close> derives the slug from the name, and for the generator under \<open>scripts\<close>,
  where the slugs are \<open>store-01\<close>, \<open>store-02\<close>, ... in input order.
\<close>

theorem slugs_unique_nonempty:
  "(load_stores detail_file data_file = Inr ss \<longrightarrow>
      distinct (map Store.slug ss) \<and> [] \<notin> set (map Store.slug ss))
   \<and> (parse_stores float_of lim data_csv image_lookup = Inr st \<longrightarrow>
      distinct (map scripts_Store.slug (p_stores st))
      \<and> [] \<notin> set (map scripts_Store.slug (p_stores st)))"
  using load_stores_slugs parse_stores_slugs by blast

theorem slugs_unique_nonempty_witness:
  "load_stores (Some example_detail) (Some [example_row, example_row])
     = Inr [example_store, example_store\<lparr>Store.slug := u ''happy-paws-2''\<rparr>]
   \<and> distinct (map Store.slug [example_store, example_store\<lparr>Store.slug := u ''happy-paws-2''\<rparr>])
   \<and> [] \<notin> set (map Store.slug [example_store, example_store\<lparr>Store.slug := u ''happy-paws-2''\<rparr>])
   \<and> parse_stores example_float 4300 (Some [[], example_cells, [], example_cells]) example_images
     = Inr \<lparr>p_image_lookup = example_images,
            p_stores = [example_scripts_store,
                        example_scripts_store\<lparr>scripts_Store.slug := u ''store-02''\<rparr>]\<rparr>
   \<and> distinct (map scripts_Store.slug
        [example_scripts_store, example_scripts_store\<lparr>scripts_Store.slug := u ''store-02''\<rparr>])
   \<and> [] \<notin> set (map scripts_Store.slug
        [example_scripts_store, example_scripts_store\<lparr>scripts_Store.slug := u ''store-02''\<rparr>])"
  using slugs_unique_nonempty [of "Some example_detail" "Some [example_row, example_row]"
      "[example_store, example_store\<lparr>Store.slug := u ''happy-paws-2''\<rparr>]"
      example_float 4300 "Some [[], example_cells, [], example_cells]" example_images
      "\<lparr>p_image_lookup = example_images,
            p_stores = [example_scripts_store,
                        example_scripts_store\<lparr>scripts_Store.slug := u ''store-02''\<rparr>]\<rparr>"]
    example_run example_scripts_run
  by simp

text \<open>
  \<^bold>\<open>C2\<close> (fields that are empty after cleaning), as the code has it. In the generator
  under \<open>scripts\<close>, \<open>category\<close>, \<open>address\<close>, \<open>status\<close>, \<open>hours_note\<close> and \<open>phone\<close> of an
  accepted row are \<open>clean_text\<close> of the row's cell: never the empty string, and absent
  exactly when the cell is missing or nothing is left of it after trimming and stripping
  the leading dot operators; \<open>review_count\<close> is absent exactly when its cell is missing or
  has no digit, and a value that \<open>clean_value\<close> empties has no digit; \<open>rating\<close> is absent
  exactly when its cell is missing or \<open>float\<close> rejects the trimmed cell, and so, as
  Python's \<open>float\<close> rejects every string made of white space and the two dot glyphs
  only, whenever \<open>clean_value\<close> empties the cell. In the root generator \<open>phone\<close> is absent
  when \<open>clean_value\<close> leaves nothing of its value, and never the empty string.

  \<open>clean_text\<close> removes neither a middle dot nor a dot inside the text, so a cell that holds
  one middle dot, which \<open>clean_value\<close> empties, stays on the record (\<open>hours_note\<close> of
  \<open>example_cells\<close>). The statement does not cover the other text fields of the root
  generator: there the record holds the cleaned string itself, which is the empty string
  for the category of \<open>example_row\<close> and for all of them in \<open>bar_store\<close>, whose line
  has a name only.
\<close>

theorem empty_fields_absent:
  "(load_stores_row row st = Inr st' \<and> l_stores st' = l_stores st @ [s] \<longrightarrow>
      (\<exists>pr. get_str row (u ''UsdlK'') = Inr pr
        \<and> Store.phone s = (if clean_value pr = [] then None else Some (clean_value pr))
        \<and> Store.phone s \<noteq> Some []))
   \<and> (parse_stores_row float_of lim cells pst = Inr pst' \<and> p_stores pst' = p_stores pst @ [t] \<longrightarrow>
        scripts_Store.category t = clean_text (cell cells 5)
      \<and> scripts_Store.address t = clean_text (cell cells 7)
      \<and> scripts_Store.status t = clean_text (cell cells 8)
      \<and> scripts_Store.hours_note t = clean_text (cell cells 9)
      \<and> scripts_Store.phone t = clean_text (cell cells 16)
      \<and> (scripts_Store.review_count t = None \<longleftrightarrow>
            length cells \<le> 4 \<or> filter (\<lambda>c. 48 \<le> c \<and> c \<le> 57) (cells ! 4) = [])
      \<and> (scripts_Store.rating t = None \<longleftrightarrow>
            length cells \<le> 3 \<or> float_of (strip (cells ! 3)) = None)
      \<and> ((\<forall>x. (\<forall>c\<in>set x. isspace c \<or> c = 0xB7 \<or> c = 0x22C5) \<longrightarrow> float_of x = None)
            \<and> (length cells \<le> 3 \<or> clean_value (cells ! 3) = [])
          \<longrightarrow> scripts_Store.rating t = None))
   \<and> clean_text v \<noteq> Some []
   \<and> (clean_text v = None \<longleftrightarrow>
        (case v of None \<Rightarrow> True
         | Some raw \<Rightarrow> strip (lstrip_by (\<lambda>c. c = 0x22C5) (strip raw)) = []))
   \<and> (clean_value raw = [] \<longrightarrow> filter (\<lambda>c. 48 \<le> c \<and> c \<le> 57) raw = [])"
proof (intro conjI)
  show "load_stores_row row st = Inr st' \<and> l_stores st' = l_stores st @ [s] \<longrightarrow>
      (\<exists>pr. get_str row (u ''UsdlK'') = Inr pr
        \<and> Store.phone s = (if clean_value pr = [] then None else Some (clean_value pr))
        \<and> Store.phone s \<noteq> Some [])"
  proof
    assume "load_stores_row row st = Inr st' \<and> l_stores st' = l_stores st @ [s]"
    then have r: "load_stores_row row st = Inr st'" and l: "l_stores st' = l_stores st @ [s]"
      by simp_all
    from r l show "\<exists>pr. get_str row (u ''UsdlK'') = Inr pr
        \<and> Store.phone s = (if clean_value pr = [] then None else Some (clean_value pr))
        \<and> Store.phone s \<noteq> Some []"
    proof (cases rule: load_stores_row_accepted)
      case (1 nr mr rr vr cr ar sr hr wr pr f1 f2)
      have "Store.phone s = (if clean_value pr = [] then None else Some (clean_value pr))"
        by (subst 1(14)) simp
      with 1(11) show ?thesis by auto
    qed
  qed
next
  show "parse_stores_row float_of lim cells pst = Inr pst' \<and> p_stores pst' = p_stores pst @ [t] \<longrightarrow>
        scripts_Store.category t = clean_text (cell cells 5)
      \<and> scripts_Store.address t = clean_text (cell cells 7)
      \<and> scripts_Store.status t = clean_text (cell cells 8)
      \<and> scripts_Store.hours_note t = clean_text (cell cells 9)
      \<and> scripts_Store.phone t = clean_text (cell cells 16)
      \<and> (scripts_Store.review_count t = None \<longleftrightarrow>
            length cells \<le> 4 \<or> filter (\<lambda>c. 48 \<le> c \<and> c \<le> 57) (cells ! 4) = [])
      \<and> (scripts_Store.rating t = None \<longleftrightarrow>
            length cells \<le> 3 \<or> float_of (strip (cells ! 3)) = None)
      \<and> ((\<forall>x. (\<forall>c\<in>set x. isspace c \<or> c = 0xB7 \<or> c = 0x22C5) \<longrightarrow> float_of x = None)
            \<and> (length cells \<le> 3 \<or> clean_value (cells ! 3) = [])
          \<longrightarrow> scripts_Store.rating t = None)"
  proof
    assume "parse_stores_row float_of lim cells pst = Inr pst' \<and> p_stores pst' = p_stores pst @ [t]"
    then have r: "parse_stores_row float_of lim cells pst = Inr pst'"
      and l: "p_stores pst' = p_stores pst @ [t]" by simp_all
    from r l show "scripts_Store.category t = clean_text (cell cells 5)
      \<and> scripts_Store.address t = clean_text (cell cells 7)
      \<and> scripts_Store.status t = clean_text (cell cells 8)
      \<and> scripts_Store.hours_note t = clean_text (cell cells 9)
      \<and> scripts_Store.phone t = clean_text (cell cells 16)
      \<and> (scripts_Store.review_count t = None \<longleftrightarrow>
            length cells \<le> 4 \<or> filter (\<lambda>c. 48 \<le> c \<and> c \<le> 57) (cells ! 4) = [])
      \<and> (scripts_Store.rating t = None \<longleftrightarrow>
            length cells \<le> 3 \<or> float_of (strip (cells ! 3)) = None)
      \<and> ((\<forall>x. (\<forall>c\<in>set x. isspace c \<or> c = 0xB7 \<or> c = 0x22C5) \<longrightarrow> float_of x = None)
            \<and> (length cells \<le> 3 \<or> clean_value (cells ! 3) = [])
          \<longrightarrow> scripts_Store.rating t = None)"
    proof (cases rule: parse_stores_row_accepted)
      case (1 rc)
      have rc: "rc = None \<longleftrightarrow> length cells \<le> 4 \<or> filter (\<lambda>c. 48 \<le> c \<and> c \<le> 57) (cells ! 4) = []"
      proof (cases "length cells > 4")
        case True
        with 1(5) have "coerce_int lim (cells ! 4) = Inr rc" by simp
        from coerce_int_Inr [OF this] True show ?thesis by simp
      next
        case False
        with 1(5) show ?thesis by simp
      qed
      have ra: "scripts_Store.rating t
          = (if length cells > 3 then float_of (strip (cells ! 3)) else None)"
        by (subst 1(6)) (simp add: coerce_float_def)
      then have ri: "scripts_Store.rating t = None \<longleftrightarrow>
            length cells \<le> 3 \<or> float_of (strip (cells ! 3)) = None"
        by auto
      have rb: "scripts_Store.rating t = None"
        if h: "\<forall>x. (\<forall>c\<in>set x. isspace c \<or> c = 0xB7 \<or> c = 0x22C5) \<longrightarrow> float_of x = None"
          and e: "length cells \<le> 3 \<or> clean_value (cells ! 3) = []"
      proof (cases "length cells \<le> 3")
        case True
        with ri show ?thesis by simp
      next
        case False
        with e have "clean_value (cells ! 3) = []" by simp
        from clean_value_empty_chars [OF this]
        have "\<forall>c\<in>set (strip (cells ! 3)). isspace c \<or> c = 0xB7 \<or> c = 0x22C5"
          using strip_chars by blast
        with h have "float_of (strip (cells ! 3)) = None" by blast
        with ri show ?thesis by simp
      qed
      have f: "scripts_Store.category t = clean_text (cell cells 5)"
        "scripts_Store.address t = clean_text (cell cells 7)"
        "scripts_Store.status t = clean_text (cell cells 8)"
        "scripts_Store.hours_note t = clean_text (cell cells 9)"
        "scripts_Store.phone t = clean_text (cell cells 16)"
        "scripts_Store.review_count t = rc"
        by (subst 1(6), simp)+
      from f rc ri rb show ?thesis by simp
    qed
  qed
next
  show "clean_text v \<noteq> Some []" by (rule clean_text_not_empty)
  show "clean_text v = None \<longleftrightarrow>
        (case v of None \<Rightarrow> True
         | Some raw \<Rightarrow> strip (lstrip_by (\<lambda>c. c = 0x22C5) (strip raw)) = [])"
    by (rule clean_text_None_iff)
  show "clean_value raw = [] \<longrightarrow> filter (\<lambda>c. 48 \<le> c \<and> c \<le> 57) raw = []"
    using no_digits_when_clean_empty by blast
qed

theorem empty_fields_absent_witness:
  "load_stores_row example_row example_loader = Inr example_loaded
   \<and> l_stores example_loaded = l_stores example_loader @ [example_store]
   \<and> get_str example_row (u ''UsdlK'') = Inr []
   \<and> Store.phone example_store = None
   \<and> parse_stores_row example_float 4300 example_cells example_parser = Inr example_parsed
   \<and> p_stores example_parsed = p_stores example_parser @ [example_scripts_store]
   \<and> cell example_cells 8 = Some []
   \<and> scripts_Store.status example_scripts_store = clean_text (cell example_cells 8)
   \<and> clean_text (cell example_cells 8) = None
   \<and> clean_value [0xB7, 32] = []
   \<and> filter (\<lambda>c. 48 \<le> c \<and> c \<le> 57) ([0xB7, 32] :: ustr) = []
   \<and> parse_stores_row example_float 4300 dot_cells example_parser
        = Inr \<lparr>p_image_lookup = example_images, p_stores = [dot_store]\<rparr>
   \<and> dot_cells ! 3 = [0xB7, 32]
   \<and> clean_value (dot_cells ! 3) = []
   \<and> example_float (strip (dot_cells ! 3)) = None
   \<and> scripts_Store.rating dot_store = None"
proof -
  have c: "clean_value [0xB7, 32] = []" "clean_value [] = []" by (simp_all add: string_eval)
  have d: "dot_cells ! 3 = [0xB7, 32]" by (simp add: dot_cells_def)
  have p: "p_stores \<lparr>p_image_lookup = example_images, p_stores = [dot_store]\<rparr>
      = p_stores example_parser @ [dot_store]"
    by (simp add: example_parser_def)
  from empty_fields_absent [where float_of = example_float and lim = 4300 and cells = dot_cells
      and pst = example_parser
      and pst' = "\<lparr>p_image_lookup = example_images, p_stores = [dot_store]\<rparr>" and t = dot_store]
    dot_cells_accepted p example_float_rejects c(1) d
  have r: "scripts_Store.rating dot_store = None"
    by (simp only: simp_thms)
  have "strip [0xB7, 32] = [0xB7]" by (simp add: string_eval)
  then have r': "example_float (strip (dot_cells ! 3)) = None"
    by (simp add: d example_float_def u_def)
  from empty_fields_absent [where row = example_row and st = example_loader
      and st' = example_loaded and s = example_store and float_of = example_float
      and lim = 4300 and cells = example_cells and pst = example_parser
      and pst' = example_parsed and t = example_scripts_store
      and v = "cell example_cells 8" and raw = "[0xB7, 32]"]
    example_row_accepted example_cells_accepted c
  have "load_stores_row example_row example_loader = Inr example_loaded
   \<and> l_stores example_loaded = l_stores example_loader @ [example_store]
   \<and> get_str example_row (u ''UsdlK'') = Inr []
   \<and> Store.phone example_store = None
   \<and> parse_stores_row example_float 4300 example_cells example_parser = Inr example_parsed
   \<and> p_stores example_parsed = p_stores example_parser @ [example_scripts_store]
   \<and> cell example_cells 8 = Some []
   \<and> scripts_Store.status example_scripts_store = clean_text (cell example_cells 8)
   \<and> clean_text (cell example_cells 8) = None
   \<and> clean_value [0xB7, 32] = []
   \<and> filter (\<lambda>c. 48 \<le> c \<and> c \<le> 57) ([0xB7, 32] :: ustr) = []"
    by (auto simp: example_gets example_cells_nth)
  moreover from c(1) d have "clean_value (dot_cells ! 3) = []" by simp
  ultimately show ?thesis using r r' d dot_cells_accepted by blast
qed

theorem empty_category_counterexample:
  "load_stores (Some example_detail) (Some [example_row]) = Inr [example_store]
   \<and> get_str example_row (u ''W4Efsd'') = Inr [0xB7, 32]
   \<and> clean_value [0xB7, 32] = []
   \<and> Store.category example_store = Some []
   \<and> parse_stores example_float 4300 (Some [[], example_cells]) example_images
        = Inr example_parsed
   \<and> p_stores example_parsed = [example_scripts_store]
   \<and> cell example_cells 9 = Some [0xB7]
   \<and> clean_value [0xB7] = []
   \<and> scripts_Store.hours_note example_scripts_store = Some [0xB7]
   \<and> load_stores None (Some [bar_row]) = Inr [bar_store]
   \<and> Store.rating bar_store = Some []
   \<and> Store.review_count bar_store = Some []
   \<and> Store.address bar_store = Some []
   \<and> Store.status bar_store = Some []
   \<and> Store.hours bar_store = Some []"
proof -
  have "clean_value [0xB7, 32] = []" "clean_value [0xB7] = []" by (simp_all add: string_eval)
  moreover have "Store.category example_store = Some []" by (simp add: example_store_def)
  moreover have "scripts_Store.hours_note example_scripts_store = Some [0xB7]"
    by (simp add: example_scripts_store_def)
  moreover have "parse_stores example_float 4300 (Some [[], example_cells]) example_images
        = Inr example_parsed"
    by (simp add: parse_stores_def bind_err_def example_cells_parsed example_parsed_def)
  moreover have "p_stores example_parsed = [example_scripts_store]"
    by (simp add: example_parsed_def)
  moreover have "Store.rating bar_store = Some []" "Store.review_count bar_store = Some []"
    "Store.address bar_store = Some []" "Store.status bar_store = Some []"
    "Store.hours bar_store = Some []"
    by (simp_all add: bar_store_def)
  ultimately show ?thesis
    by (simp add: example_single_run example_gets example_cells_nth bar_run)
qed

text \<open>
  \<^bold>\<open>C3\<close> (numeric coercion), as the code has it. In the generator under \<open>scripts\<close> the
  rating of an accepted row is what \<open>float\<close> reads in the trimmed fourth cell, absent where
  \<open>float\<close> rejects it or the cell is missing; \<open>review_count\<close> is the number its cell's digits
  write (\<open>int_of_digits\<close> reads back what \<open>str_nat\<close> writes), absent when no digit is left or
  the cell is missing. The root generator parses neither field: \<open>rating\<close> is the cleaned
  string and \<open>review_count\<close> the cleaned string without the parentheses around it, so
  \<open>N/A\<close> and \<open>new\<close> stay on the record of \<open>example_row\<close>.
\<close>

theorem numeric_coercion:
  "(parse_stores_row float_of lim cells pst = Inr pst' \<and> p_stores pst' = p_stores pst @ [t] \<longrightarrow>
        scripts_Store.rating t
          = (if length cells > 3 then coerce_float float_of (strip (cells ! 3)) else None)
      \<and> scripts_Store.review_count t
          = (if length cells > 4 \<and> filter (\<lambda>c. 48 \<le> c \<and> c \<le> 57) (cells ! 4) \<noteq> []
             then Some (int_of_digits (filter (\<lambda>c. 48 \<le> c \<and> c \<le> 57) (cells ! 4)))
             else None))
   \<and> coerce_float float_of raw = float_of raw
   \<and> int_of_digits (str_nat n) = n
   \<and> (load_stores_row row st = Inr st' \<and> l_stores st' = l_stores st @ [s] \<longrightarrow>
      (\<exists>rr vr. get_str row (u ''MW4etd'') = Inr rr \<and> get_str row (u ''UY7F9'') = Inr vr
        \<and> Store.rating s = Some (clean_value rr)
        \<and> Store.review_count s = Some (clean_value (strip_by (\<lambda>c. c = 40 \<or> c = 41) vr))))"
proof (intro conjI impI)
  assume "parse_stores_row float_of lim cells pst = Inr pst' \<and> p_stores pst' = p_stores pst @ [t]"
  then have r: "parse_stores_row float_of lim cells pst = Inr pst'"
    and l: "p_stores pst' = p_stores pst @ [t]" by simp_all
  from r l have "scripts_Store.rating t
          = (if length cells > 3 then coerce_float float_of (strip (cells ! 3)) else None)
      \<and> scripts_Store.review_count t
          = (if length cells > 4 \<and> filter (\<lambda>c. 48 \<le> c \<and> c \<le> 57) (cells ! 4) \<noteq> []
             then Some (int_of_digits (filter (\<lambda>c. 48 \<le> c \<and> c \<le> 57) (cells ! 4)))
             else None)"
  proof (cases rule: parse_stores_row_accepted)
    case (1 rc)
    have "rc = (if length cells > 4 \<and> filter (\<lambda>c. 48 \<le> c \<and> c \<le> 57) (cells ! 4) \<noteq> []
             then Some (int_of_digits (filter (\<lambda>c. 48 \<le> c \<and> c \<le> 57) (cells ! 4)))
             else None)"
    proof (cases "length cells > 4")
      case True
      with 1(5) have "coerce_int lim (cells ! 4) = Inr rc" by simp
      from coerce_int_Inr [OF this] True show ?thesis by simp
    next
      case False
      with 1(5) show ?thesis by simp
    qed
    then show ?thesis by (subst (1 2) 1(6)) simp
  qed
  then show "scripts_Store.rating t
          = (if length cells > 3 then coerce_float float_of (strip (cells ! 3)) else None)"
    and "scripts_Store.review_count t
          = (if length cells > 4 \<and> filter (\<lambda>c. 48 \<le> c \<and> c \<le> 57) (cells ! 4) \<noteq> []
             then Some (int_of_digits (filter (\<lambda>c. 48 \<le> c \<and> c \<le> 57) (cells ! 4)))
             else None)"
    by simp_all
next
  show "coerce_float float_of raw = float_of raw" by (simp add: coerce_float_def)
  show "int_of_digits (str_nat n) = n" by (rule int_of_digits_str_nat)
next
  assume "load_stores_row row st = Inr st' \<and> l_stores st' = l_stores st @ [s]"
  then have r: "load_stores_row row st = Inr st'" and l: "l_stores st' = l_stores st @ [s]"
    by simp_all
  from r l show "\<exists>rr vr. get_str row (u ''MW4etd'') = Inr rr \<and> get_str row (u ''UY7F9'') = Inr vr
        \<and> Store.rating s = Some (clean_value rr)
        \<and> Store.review_count s = Some (clean_value (strip_by (\<lambda>c. c = 40 \<or> c = 41) vr))"
  proof (cases rule: load_stores_row_accepted)
    case (1 nr mr rr vr cr ar sr hr wr pr f1 f2)
    have "Store.rating s = Some (clean_value rr)
        \<and> Store.review_count s = Some (clean_value (strip_by (\<lambda>c. c = 40 \<or> c = 41) vr))"
      by (subst (1 2) 1(14)) simp
    with 1(4,5) show ?thesis by blast
  qed
qed

theorem numeric_coercion_witness:
  "parse_stores_row example_float 4300 example_cells example_parser = Inr example_parsed
   \<and> p_stores example_parsed = p_stores example_parser @ [example_scripts_store]
   \<and> scripts_Store.rating example_scripts_store = example_float (u ''4.5'')
   \<and> scripts_Store.review_count example_scripts_store = Some 12
   \<and> load_stores_row example_row example_loader = Inr example_loaded
   \<and> l_stores example_loaded = l_stores example_loader @ [example_store]
   \<and> Store.rating example_store = Some (clean_value (u ''N/A''))
   \<and> Store.review_count example_store
        = Some (clean_value (strip_by (\<lambda>c. c = 40 \<or> c = 41) (u ''(new)'')))"
proof -
  have "strip (u ''4.5'') = u ''4.5''" by (simp add: string_eval)
  moreover have "filter (\<lambda>c. 48 \<le> c \<and> c \<le> 57) (u ''(12)'') = u ''12''"
    "int_of_digits (u ''12'') = 12" "u ''12'' \<noteq> []"
    by (simp_all add: u_def int_of_digits_def)
  ultimately show ?thesis
    using numeric_coercion [where float_of = example_float and lim = 4300
      and cells = example_cells and pst = example_parser and pst' = example_parsed
      and t = example_scripts_store and row = example_row and st = example_loader
      and st' = example_loaded and s = example_store]
      example_row_accepted example_cells_accepted
    by (auto simp: example_gets example_cells_nth coerce_float_def)
qed

theorem unparsed_numbers_counterexample:
  "load_stores (Some example_detail) (Some [example_row]) = Inr [example_store]
   \<and> get_str example_row (u ''UY7F9'') = Inr (u ''(new)'')
   \<and> filter (\<lambda>c. 48 \<le> c \<and> c \<le> 57) (u ''(new)'') = []
   \<and> Store.review_count example_store = Some (u ''new'')
   \<and> get_str example_row (u ''MW4etd'') = Inr (u ''N/A'')
   \<and> Store.rating example_store = Some (u ''N/A'')"
  by (simp add: example_single_run example_gets) (simp add: u_def example_store_def)

text \<open>
  \<^bold>\<open>C4\<close> (cleaning is idempotent), as the code has it. \<open>clean_value\<close> is idempotent on
  every string. \<open>clean_text\<close> is idempotent exactly on the values whose cleaned result does
  not begin with the dot operator \<open>U+22C5\<close>: it strips the dots at the front once, so a dot
  that stood behind white space is left at the front (\<open>". .x"\<close> with dot operators for the
  full stops is cleaned to \<open>".x"\<close>, and that to \<open>"x"\<close>).
\<close>

theorem cleaning_idempotent:
  "clean_value (clean_value s) = clean_value s
   \<and> (clean_text (clean_text v) = clean_text v \<longleftrightarrow>
        (\<forall>t. clean_text v = Some t \<longrightarrow> \<not> startswith t [0x22C5]))"
  using clean_value_idem clean_text_twice by blast

theorem cleaning_idempotent_witness:
  "clean_text (Some (u '' Bath '')) = Some (u ''Bath'')
   \<and> \<not> startswith (u ''Bath'') [0x22C5]
   \<and> clean_text (clean_text (Some (u '' Bath ''))) = clean_text (Some (u '' Bath ''))
   \<and> clean_value (clean_value (u '' Bath '')) = clean_value (u '' Bath '')"
proof -
  have 1: "clean_text (Some (u '' Bath '')) = Some (u ''Bath'')"
    by (simp add: clean_text_def string_eval)
  have 2: "\<not> startswith (u ''Bath'') [0x22C5]" by (simp add: startswith_def u_def)
  from cleaning_idempotent [of "u '' Bath ''" "Some (u '' Bath '')"] 1 2 show ?thesis by simp
qed

theorem clean_text_twice_counterexample:
  "clean_text (Some [0x22C5, 32, 0x22C5, 120]) = Some [0x22C5, 120]
   \<and> clean_text (clean_text (Some [0x22C5, 32, 0x22C5, 120])) = Some [120]
   \<and> clean_text (clean_text (Some [0x22C5, 32, 0x22C5, 120]))
        \<noteq> clean_text (Some [0x22C5, 32, 0x22C5, 120])"
  by (simp add: clean_text_def string_eval)

text \<open>
  \<^bold>\<open>C5\<close> (the website field), as the code has it. In the generator under \<open>scripts\<close> the
  website of an accepted row is the trimmed eleventh cell when that begins with \<open>http\<close>, and
  absent otherwise (also when the cell is missing). The root generator has no such test:
  the website is the trimmed value whenever that is not empty, so \<open>example.com\<close> is kept.
\<close>

theorem website_field:
  "(parse_stores_row float_of lim cells pst = Inr pst' \<and> p_stores pst' = p_stores pst @ [t] \<longrightarrow>
      scripts_Store.website t
        = (let website_raw = (if length cells > 10 then strip (cells ! 10) else [])
           in if startswith website_raw (u ''http'') then Some website_raw else None))
   \<and> (load_stores_row row st = Inr st' \<and> l_stores st' = l_stores st @ [s] \<longrightarrow>
      (\<exists>wr. get_str row (u ''lcr4fd href'') = Inr wr
        \<and> Store.website s = (if strip wr = [] then None else Some (strip wr))))"
proof (intro conjI impI)
  assume "parse_stores_row float_of lim cells pst = Inr pst' \<and> p_stores pst' = p_stores pst @ [t]"
  then have r: "parse_stores_row float_of lim cells pst = Inr pst'"
    and l: "p_stores pst' = p_stores pst @ [t]" by simp_all
  from r l show "scripts_Store.website t
        = (let website_raw = (if length cells > 10 then strip (cells ! 10) else [])
           in if startswith website_raw (u ''http'') then Some website_raw else None)"
  proof (cases rule: parse_stores_row_accepted)
    case (1 rc)
    show ?thesis by (subst 1(6)) (simp add: Let_def)
  qed
next
  assume "load_stores_row row st = Inr st' \<and> l_stores st' = l_stores st @ [s]"
  then have r: "load_stores_row row st = Inr st'" and l: "l_stores st' = l_stores st @ [s]"
    by simp_all
  from r l show "\<exists>wr. get_str row (u ''lcr4fd href'') = Inr wr
        \<and> Store.website s = (if strip wr = [] then None else Some (strip wr))"
  proof (cases rule: load_stores_row_accepted)
    case (1 nr mr rr vr cr ar sr hr wr pr f1 f2)
    have "Store.website s = (if strip wr = [] then None else Some (strip wr))"
      by (subst 1(14)) simp
    with 1(10) show ?thesis by blast
  qed
qed

theorem website_field_witness:
  "parse_stores_row example_float 4300 example_cells example_parser = Inr example_parsed
   \<and> p_stores example_parsed = p_stores example_parser @ [example_scripts_store]
   \<and> scripts_Store.website example_scripts_store = None
   \<and> load_stores_row example_row example_loader = Inr example_loaded
   \<and> l_stores example_loaded = l_stores example_loader @ [example_store]
   \<and> Store.website example_store = Some (strip (u ''example.com''))"
proof -
  have "strip (u ''www.example.com'') = u ''www.example.com''"
    "strip (u ''example.com'') \<noteq> []"
    "\<not> startswith (u ''www.example.com'') (u ''http'')"
    by (simp_all add: string_eval startswith_def)
  then show ?thesis
    using website_field [where float_of = example_float and lim = 4300
      and cells = example_cells and pst = example_parser and pst' = example_parsed
      and t = example_scripts_store and row = example_row and st = example_loader
      and st' = example_loaded and s = example_store]
      example_row_accepted example_cells_accepted
    by (auto simp: example_gets example_cells_nth Let_def)
qed

theorem website_without_scheme_counterexample:
  "load_stores (Some example_detail) (Some [example_row]) = Inr [example_store]
   \<and> get_str example_row (u ''lcr4fd href'') = Inr (u ''example.com'')
   \<and> \<not> startswith (u ''example.com'') (u ''http'')
   \<and> Store.website example_store = Some (u ''example.com'')"
  by (simp add: example_single_run example_gets) (simp add: u_def startswith_def example_store_def)

text \<open>
  \<^bold>\<open>C6\<close> (join correctness). For every image mapping and every run of either generator,
  the \<open>image_url\<close> of each record is what the mapping holds for the record's \<open>map_url\<close>: the
  mapped value when the key is present, absent otherwise. The mapping the loop leaves is
  the mapping it was given.
\<close>

theorem image_join:
  "(load_stores_loop rows \<lparr>l_images = imgs, l_stores = [], l_seen_slugs = {||}\<rparr> = Inr st' \<longrightarrow>
      l_images st' = imgs
      \<and> (\<forall>s\<in>set (l_stores st'). Store.image_url s = imgs (Store.map_url s)))
   \<and> (load_stores detail_file data_file = Inr ss \<longrightarrow>
      (\<exists>m. load_images detail_file = Inr m
          \<and> (\<forall>s\<in>set ss. Store.image_url s = m (Store.map_url s))))
   \<and> (parse_stores float_of lim data_csv image_lookup = Inr pst \<longrightarrow>
      p_image_lookup pst = image_lookup
      \<and> (\<forall>t\<in>set (p_stores pst).
            scripts_Store.image_url t = image_lookup (scripts_Store.map_url t)))"
proof (intro conjI impI)
  assume a: "load_stores_loop rows \<lparr>l_images = imgs, l_stores = [], l_seen_slugs = {||}\<rparr> = Inr st'"
  from load_stores_loop_images [OF a]
  show "l_images st' = imgs" by simp
  from load_stores_loop_images [OF a]
  show "\<forall>s\<in>set (l_stores st'). Store.image_url s = imgs (Store.map_url s)" by simp
next
  assume "load_stores detail_file data_file = Inr ss"
  then obtain m rs st' where m: "load_images detail_file = Inr m"
    and l: "load_stores_loop rs \<lparr>l_images = m, l_stores = [], l_seen_slugs = {||}\<rparr> = Inr st'"
    and ss: "ss = l_stores st'"
    by (auto simp: load_stores_def bind_err_Inr split: option.splits)
  from load_stores_loop_images [OF l] ss
  have "\<forall>s\<in>set ss. Store.image_url s = m (Store.map_url s)" by simp
  with m show "\<exists>m. load_images detail_file = Inr m
          \<and> (\<forall>s\<in>set ss. Store.image_url s = m (Store.map_url s))" by blast
next
  assume "parse_stores float_of lim data_csv image_lookup = Inr pst"
  then obtain rs where
    l: "parse_stores_loop float_of lim (drop 1 rs) \<lparr>p_image_lookup = image_lookup, p_stores = []\<rparr>
       = Inr pst"
    by (auto simp: parse_stores_def split: option.splits)
  from parse_stores_loop_images [OF l]
  show "p_image_lookup pst = image_lookup" by simp
  from parse_stores_loop_images [OF l]
  show "\<forall>t\<in>set (p_stores pst).
            scripts_Store.image_url t = image_lookup (scripts_Store.map_url t)" by simp
qed

theorem image_join_witness:
  "load_stores_loop [example_row] \<lparr>l_images = example_images, l_stores = [], l_seen_slugs = {||}\<rparr>
     = Inr example_loaded
   \<and> l_images example_loaded = example_images
   \<and> load_stores (Some example_detail) (Some [example_row]) = Inr [example_store]
   \<and> load_images (Some example_detail) = Inr example_images
   \<and> Store.image_url example_store = example_images (Store.map_url example_store)
   \<and> parse_stores example_float 4300 (Some [[], example_cells]) example_images = Inr example_parsed
   \<and> p_image_lookup example_parsed = example_images
   \<and> scripts_Store.image_url example_scripts_store
        = example_images (scripts_Store.map_url example_scripts_store)"
proof -
  have 1: "load_stores_loop [example_row]
      \<lparr>l_images = example_images, l_stores = [], l_seen_slugs = {||}\<rparr> = Inr example_loaded"
    using example_loop by (simp add: example_loader_def example_loaded_def)
  have 2: "parse_stores example_float 4300 (Some [[], example_cells]) example_images
      = Inr example_parsed"
    by (simp add: parse_stores_def bind_err_def example_cells_parsed example_parsed_def)
  note t = image_join [where rows = "[example_row]" and imgs = example_images
      and st' = example_loaded and detail_file = "Some example_detail"
      and data_file = "Some [example_row]" and ss = "[example_store]"
      and float_of = example_float and lim = 4300 and data_csv = "Some [[], example_cells]"
      and image_lookup = example_images and pst = example_parsed]
  from t 1 have a: "l_images example_loaded = example_images"
    and a': "\<forall>s\<in>set (l_stores example_loaded). Store.image_url s = example_images (Store.map_url s)"
    by blast+
  from a' have b: "Store.image_url example_store = example_images (Store.map_url example_store)"
    by (simp add: example_loaded_def)
  from t 2 have c: "p_image_lookup example_parsed = example_images"
    and c': "\<forall>t\<in>set (p_stores example_parsed).
          scripts_Store.image_url t = example_images (scripts_Store.map_url t)"
    by blast+
  from c' have d: "scripts_Store.image_url example_scripts_store
        = example_images (scripts_Store.map_url example_scripts_store)"
    by (simp add: example_parsed_def)
  from 1 2 a b c d example_single_run example_detail_loaded show ?thesis by blast
qed

text \<open>
  \<^bold>\<open>C7\<close> (features and services), as the code has it. Neither generator removes
  duplicates. The features of the root generator are the two feature cells, cleaned by
  \<open>clean_value\<close>, without the empty ones and in their order; none holds a separator
  character. The services of the generator under \<open>scripts\<close> are the cells from the
  eighteenth on, cleaned by \<open>clean_text\<close>, without the absent ones and without the single
  middle dot, in their order.
\<close>

theorem features_services:
  "(load_stores_row row st = Inr st' \<and> l_stores st' = l_stores st @ [s] \<longrightarrow>
      (\<exists>f1 f2. get_str row (u ''ah5Ghc'') = Inr f1 \<and> get_str row (u ''ah5Ghc (2)'') = Inr f2
        \<and> Store.features s = filter (\<lambda>v. v \<noteq> []) [clean_value f1, clean_value f2])
      \<and> (\<forall>f\<in>set (Store.features s). f \<noteq> [] \<and> 0xB7 \<notin> set f \<and> 0x22C5 \<notin> set f))
   \<and> (parse_stores_row float_of lim cells pst = Inr pst' \<and> p_stores pst' = p_stores pst @ [t] \<longrightarrow>
        map Some (scripts_Store.services t)
          = filter (\<lambda>x. x \<noteq> None \<and> x \<noteq> Some [0xB7])
              (map (\<lambda>c. clean_text (Some c)) (drop 17 cells))
      \<and> (\<forall>x\<in>set (scripts_Store.services t). x \<noteq> [] \<and> x \<noteq> [0xB7]))"
proof (intro conjI impI)
  assume "load_stores_row row st = Inr st' \<and> l_stores st' = l_stores st @ [s]"
  then have r: "load_stores_row row st = Inr st'" and l: "l_stores st' = l_stores st @ [s]"
    by simp_all
  from r l have "(\<exists>f1 f2. get_str row (u ''ah5Ghc'') = Inr f1 \<and> get_str row (u ''ah5Ghc (2)'') = Inr f2
        \<and> Store.features s = filter (\<lambda>v. v \<noteq> []) [clean_value f1, clean_value f2])
      \<and> (\<forall>f\<in>set (Store.features s). f \<noteq> [] \<and> 0xB7 \<notin> set f \<and> 0x22C5 \<notin> set f)"
  proof (cases rule: load_stores_row_accepted)
    case (1 nr mr rr vr cr ar sr hr wr pr f1 f2)
    have f: "Store.features s = filter (\<lambda>v. v \<noteq> []) [clean_value f1, clean_value f2]"
      by (subst 1(14)) simp
    have "\<forall>f\<in>set (filter (\<lambda>v. v \<noteq> []) [clean_value f1, clean_value f2]).
            f \<noteq> [] \<and> 0xB7 \<notin> set f \<and> 0x22C5 \<notin> set f"
      using clean_value_no_dots [of f1] clean_value_no_dots [of f2] by auto
    with f 1(12,13) show ?thesis by (simp only:) blast
  qed
  then show "\<exists>f1 f2. get_str row (u ''ah5Ghc'') = Inr f1 \<and> get_str row (u ''ah5Ghc (2)'') = Inr f2
        \<and> Store.features s = filter (\<lambda>v. v \<noteq> []) [clean_value f1, clean_value f2]"
    and "\<forall>f\<in>set (Store.features s). f \<noteq> [] \<and> 0xB7 \<notin> set f \<and> 0x22C5 \<notin> set f"
    by blast+
next
  assume "parse_stores_row float_of lim cells pst = Inr pst' \<and> p_stores pst' = p_stores pst @ [t]"
  then have r: "parse_stores_row float_of lim cells pst = Inr pst'"
    and l: "p_stores pst' = p_stores pst @ [t]" by simp_all
  from r l have sv: "scripts_Store.services t = collect_services cells"
  proof (cases rule: parse_stores_row_accepted)
    case (1 rc)
    show ?thesis by (subst 1(6)) simp
  qed
  show "map Some (scripts_Store.services t)
          = filter (\<lambda>x. x \<noteq> None \<and> x \<noteq> Some [0xB7])
              (map (\<lambda>c. clean_text (Some c)) (drop 17 cells))"
    unfolding sv by (rule collect_services_eq)
  show "\<forall>x\<in>set (scripts_Store.services t). x \<noteq> [] \<and> x \<noteq> [0xB7]"
    unfolding sv using collect_services_members by blast
qed

theorem features_services_witness:
  "load_stores_row example_row example_loader = Inr example_loaded
   \<and> l_stores example_loaded = l_stores example_loader @ [example_store]
   \<and> Store.features example_store
       = filter (\<lambda>v. v \<noteq> []) [clean_value (u ''Wifi''), clean_value (u ''Wifi'')]
   \<and> parse_stores_row example_float 4300 example_cells example_parser = Inr example_parsed
   \<and> p_stores example_parsed = p_stores example_parser @ [example_scripts_store]
   \<and> map Some (scripts_Store.services example_scripts_store)
          = filter (\<lambda>x. x \<noteq> None \<and> x \<noteq> Some [0xB7])
              (map (\<lambda>c. clean_text (Some c)) (drop 17 example_cells))"
proof -
  note t = features_services [where float_of = example_float and lim = 4300
      and cells = example_cells and pst = example_parser and pst' = example_parsed
      and t = example_scripts_store and row = example_row and st = example_loader
      and st' = example_loaded and s = example_store]
  from t example_row_accepted obtain f1 f2 where
    f: "get_str example_row (u ''ah5Ghc'') = Inr f1" "get_str example_row (u ''ah5Ghc (2)'') = Inr f2"
       "Store.features example_store = filter (\<lambda>v. v \<noteq> []) [clean_value f1, clean_value f2]"
    by blast
  from f(1,2) have "f1 = u ''Wifi''" "f2 = u ''Wifi''" by (simp_all add: example_gets)
  with f(3) have a: "Store.features example_store
       = filter (\<lambda>v. v \<noteq> []) [clean_value (u ''Wifi''), clean_value (u ''Wifi'')]" by simp
  from t example_cells_accepted have b: "map Some (scripts_Store.services example_scripts_store)
          = filter (\<lambda>x. x \<noteq> None \<and> x \<noteq> Some [0xB7])
              (map (\<lambda>c. clean_text (Some c)) (drop 17 example_cells))"
    by blast
  from a b example_row_accepted example_cells_accepted show ?thesis by blast
qed

theorem duplicate_features_counterexample:
  "load_stores (Some example_detail) (Some [example_row]) = Inr [example_store]
   \<and> Store.features example_store = [u ''Wifi'', u ''Wifi'']
   \<and> \<not> distinct (Store.features example_store)
   \<and> parse_stores example_float 4300 (Some [[], example_cells]) example_images
       = Inr \<lparr>p_image_lookup = example_images, p_stores = [example_scripts_store]\<rparr>
   \<and> scripts_Store.services example_scripts_store = [u ''Bath'', u ''Bath'']
   \<and> \<not> distinct (scripts_Store.services example_scripts_store)"
  by (simp add: example_single_run parse_stores_def bind_err_def example_cells_parsed)
     (simp add: example_store_def example_scripts_store_def)

text \<open>
  \<^bold>\<open>C8\<close> (rendering), as the code has it. The detail page of the root generator holds,
  escaped, the display name (the name without the bars at its end, or the name itself
  when nothing else is left), the map link, the rating or the words for a missing rating,
  every other optional field that is set and every feature; the statement does not cover
  a field that is not set, nor the slug. The detail page of the generator under
  \<open>scripts\<close> holds, escaped, the name, the map link, the image link or the placeholder, the
  address, the status and the hours or their fallback words, the phone or its fallback
  words, the rating as \<open>rating_text\<close> formats it, the review count in decimal, the category
  and the website when they are set, and every service or the fallback item when there is
  none. The name \<open>A|\<close> is not on the root generator's page of its record.
\<close>

theorem rendered_fields:
  "sublist (escape (display_name store)) (store_html store)
   \<and> sublist (escape (Store.map_url store)) (store_html store)
   \<and> sublist (escape (or_else (Store.rating store) no_rating)) (store_html store)
   \<and> (\<forall>v. v \<noteq> [] \<and> Some v \<in> {Store.review_count store, Store.category store,
                Store.address store, Store.phone store, Store.status store, Store.hours store,
                Store.website store, Store.image_url store}
          \<longrightarrow> sublist (escape v) (store_html store))
   \<and> (\<forall>f\<in>set (Store.features store). sublist (escape f) (store_html store))
   \<and> sublist (escape (scripts_Store.name t)) (render_store fmt t)
   \<and> sublist (escape (scripts_Store.map_url t)) (render_store fmt t)
   \<and> sublist (escape (or_else (scripts_Store.image_url t) store_placeholder)) (render_store fmt t)
   \<and> sublist (escape (or_else (scripts_Store.address t) scripts_no_address)) (render_store fmt t)
   \<and> sublist (escape (or_else (scripts_Store.status t) no_status)) (render_store fmt t)
   \<and> sublist (escape (or_else (scripts_Store.hours_note t) no_hours)) (render_store fmt t)
   \<and> sublist (if_set (scripts_Store.phone t) escape no_phone) (render_store fmt t)
   \<and> sublist (rating_text fmt t) (render_store fmt t)
   \<and> (\<forall>n. scripts_Store.review_count t = Some n \<longrightarrow> sublist (str_nat n) (render_store fmt t))
   \<and> (\<forall>v. v \<noteq> [] \<and> Some v \<in> {scripts_Store.category t, scripts_Store.website t}
          \<longrightarrow> sublist (escape v) (render_store fmt t))
   \<and> (\<forall>x\<in>set (scripts_Store.services t). sublist (escape x) (render_store fmt t))
   \<and> (scripts_Store.services t = [] \<longrightarrow> sublist no_services (render_store fmt t))"
proof (intro conjI allI impI ballI)
  show "sublist (escape (display_name store)) (store_html store)"
    by (rule store_html_display_name)
  show "sublist (escape (Store.map_url store)) (store_html store)"
    by (rule store_html_map_url)
  show "sublist (escape (or_else (Store.rating store) no_rating)) (store_html store)"
    by (rule store_html_rating)
next
  fix v
  assume "v \<noteq> [] \<and> Some v \<in> {Store.review_count store, Store.category store,
                Store.address store, Store.phone store, Store.status store, Store.hours store,
                Store.website store, Store.image_url store}"
  then have v: "v \<noteq> []" and "Store.review_count store = Some v \<or> Store.category store = Some v
      \<or> Store.address store = Some v \<or> Store.phone store = Some v
      \<or> Store.status store = Some v \<or> Store.hours store = Some v
      \<or> Store.website store = Some v \<or> Store.image_url store = Some v"
    by (simp_all add: eq_commute)
  then show "sublist (escape v) (store_html store)"
    using store_html_review_count store_html_category store_html_address store_html_phone
      store_html_status store_html_hours store_html_website store_html_image_url
    by blast
next
  fix f assume "f \<in> set (Store.features store)"
  then show "sublist (escape f) (store_html store)" by (rule store_html_feature)
next
  show "sublist (escape (scripts_Store.name t)) (render_store fmt t)"
    and "sublist (escape (scripts_Store.map_url t)) (render_store fmt t)"
    and "sublist (escape (or_else (scripts_Store.image_url t) store_placeholder))
          (render_store fmt t)"
    and "sublist (escape (or_else (scripts_Store.address t) scripts_no_address))
          (render_store fmt t)"
    and "sublist (escape (or_else (scripts_Store.status t) no_status)) (render_store fmt t)"
    and "sublist (escape (or_else (scripts_Store.hours_note t) no_hours)) (render_store fmt t)"
    and "sublist (if_set (scripts_Store.phone t) escape no_phone) (render_store fmt t)"
    and "sublist (rating_text fmt t) (render_store fmt t)"
    by (rule render_store_direct)+
next
  fix n assume "scripts_Store.review_count t = Some n"
  then show "sublist (str_nat n) (render_store fmt t)" by (rule render_store_review_count)
next
  fix v
  assume "v \<noteq> [] \<and> Some v \<in> {scripts_Store.category t, scripts_Store.website t}"
  then have "v \<noteq> []" and "scripts_Store.category t = Some v \<or> scripts_Store.website t = Some v"
    by (simp_all add: eq_commute)
  then show "sublist (escape v) (render_store fmt t)"
    using render_store_category render_store_website by blast
next
  fix x assume "x \<in> set (scripts_Store.services t)"
  then show "sublist (escape x) (render_store fmt t)" by (rule render_store_service)
next
  assume "scripts_Store.services t = []"
  then show "sublist no_services (render_store fmt t)" by (rule render_store_no_services)
qed

theorem rendered_fields_witness:
  "u ''example.com'' \<noteq> []
   \<and> Store.website example_store = Some (u ''example.com'')
   \<and> sublist (escape (u ''example.com'')) (store_html example_store)
   \<and> u ''Wifi'' \<in> set (Store.features example_store)
   \<and> sublist (escape (u ''Wifi'')) (store_html example_store)
   \<and> scripts_Store.review_count example_scripts_store = Some 12
   \<and> sublist (str_nat 12) (render_store example_fmt example_scripts_store)
   \<and> u ''Groomer'' \<noteq> []
   \<and> scripts_Store.category example_scripts_store = Some (u ''Groomer'')
   \<and> sublist (escape (u ''Groomer'')) (render_store example_fmt example_scripts_store)
   \<and> u ''Bath'' \<in> set (scripts_Store.services example_scripts_store)
   \<and> sublist (escape (u ''Bath'')) (render_store example_fmt example_scripts_store)
   \<and> scripts_Store.services (example_scripts_store\<lparr>scripts_Store.services := []\<rparr>) = []
   \<and> sublist no_services
        (render_store example_fmt (example_scripts_store\<lparr>scripts_Store.services := []\<rparr>))"
proof -
  note t1 = rendered_fields [where store = example_store and t = example_scripts_store
      and fmt = example_fmt]
  note t2 = rendered_fields [where store = example_store
      and t = "example_scripts_store\<lparr>scripts_Store.services := []\<rparr>" and fmt = example_fmt]
  have a: "u ''example.com'' \<noteq> []" "u ''Groomer'' \<noteq> []" by (simp_all add: u_def)
  have b: "Store.website example_store = Some (u ''example.com'')"
    "u ''Wifi'' \<in> set (Store.features example_store)"
    by (simp_all add: example_store_def)
  have c: "scripts_Store.review_count example_scripts_store = Some 12"
    "scripts_Store.category example_scripts_store = Some (u ''Groomer'')"
    "u ''Bath'' \<in> set (scripts_Store.services example_scripts_store)"
    by (simp_all add: example_scripts_store_def)
  have d: "scripts_Store.services (example_scripts_store\<lparr>scripts_Store.services := []\<rparr>) = []"
    by simp
  from t1 a(1) b(1) have 1: "sublist (escape (u ''example.com'')) (store_html example_store)"
    by (metis insert_iff)
  from t1 b(2) have 2: "sublist (escape (u ''Wifi'')) (store_html example_store)" by blast
  from t1 c(1) have 3: "sublist (str_nat 12) (render_store example_fmt example_scripts_store)"
    by blast
  from t1 a(2) c(2)
  have 4: "sublist (escape (u ''Groomer'')) (render_store example_fmt example_scripts_store)"
    by (metis insert_iff)
  from t1 c(3)
  have 5: "sublist (escape (u ''Bath'')) (render_store example_fmt example_scripts_store)"
    by blast
  from t2 d have 6: "sublist no_services
        (render_store example_fmt (example_scripts_store\<lparr>scripts_Store.services := []\<rparr>))"
    by blast
  from a b c d 1 2 3 4 5 6 show ?thesis by blast
qed

theorem name_not_rendered_counterexample:
  "load_stores None (Some [bar_row]) = Inr [bar_store]
   \<and> \<not> sublist (escape (Store.name bar_store)) (store_html bar_store)"
proof -
  have "0x7C \<in> set (escape (Store.name bar_store))"
    by (simp add: bar_store_def escape_def escape_char_def u_def)
  with bar_absent have "\<not> set (escape (Store.name bar_store)) \<subseteq> set (store_html bar_store)"
    by blast
  then have "\<not> sublist (escape (Store.name bar_store)) (store_html bar_store)"
    using set_mono_sublist by blast
  with bar_run show ?thesis by simp
qed

text \<open>
  \<^bold>\<open>C9\<close> (an empty record set), as the code has it. In the generator under \<open>scripts\<close> a
  parse that yields no record ends the run with \<open>SystemExit\<close> and leaves the world as it
  was; a run that has changed the world had at least one record; and a run that ends
  without an exception had at least one record and has written the index page and the
  page of every record. The statement does not cover the root generator, which has no
  such test: with no record at all it ends without an exception and has written an index
  page.
\<close>

theorem empty_result_set:
  "(scripts_load_images detail_csv = Inr imgs \<and> parse_stores float_of lim data_csv imgs = Inr st
      \<and> p_stores st = [] \<longrightarrow>
        generate_pages float_of lim fmt json_dumps detail_csv data_csv w
          = (Some (SystemExit no_stores_message), w))
   \<and> (snd (generate_pages float_of lim fmt json_dumps detail_csv data_csv w) \<noteq> w \<longrightarrow>
        (\<exists>imgs st. scripts_load_images detail_csv = Inr imgs
          \<and> parse_stores float_of lim data_csv imgs = Inr st \<and> p_stores st \<noteq> []))
   \<and> (fst (generate_pages float_of lim fmt json_dumps detail_csv data_csv w) = None \<longrightarrow>
        (\<exists>imgs st. scripts_load_images detail_csv = Inr imgs
          \<and> parse_stores float_of lim data_csv imgs = Inr st \<and> p_stores st \<noteq> []
          \<and> files (snd (generate_pages float_of lim fmt json_dumps detail_csv data_csv w))
                [u ''docs'', u ''index.html''] = Some (scripts_render_index fmt (p_stores st))
          \<and> (\<forall>s\<in>set (p_stores st).
                files (snd (generate_pages float_of lim fmt json_dumps detail_csv data_csv w))
                  [u ''docs'', u ''stores'', scripts_Store.slug s, u ''index.html'']
                = Some (render_store fmt s))))"
proof (intro conjI impI)
  assume "scripts_load_images detail_csv = Inr imgs \<and> parse_stores float_of lim data_csv imgs = Inr st
      \<and> p_stores st = []"
  then have "scripts_load_images detail_csv = Inr imgs"
    and "parse_stores float_of lim data_csv imgs = Inr st" and "p_stores st = []"
    by simp_all
  then show "generate_pages float_of lim fmt json_dumps detail_csv data_csv w
          = (Some (SystemExit no_stores_message), w)"
    by (rule generate_pages_empty)
next
  assume "snd (generate_pages float_of lim fmt json_dumps detail_csv data_csv w) \<noteq> w"
  then show "\<exists>imgs st. scripts_load_images detail_csv = Inr imgs
          \<and> parse_stores float_of lim data_csv imgs = Inr st \<and> p_stores st \<noteq> []"
    by (rule generate_pages_wrote)
next
  assume "fst (generate_pages float_of lim fmt json_dumps detail_csv data_csv w) = None"
  then show "\<exists>imgs st. scripts_load_images detail_csv = Inr imgs
          \<and> parse_stores float_of lim data_csv imgs = Inr st \<and> p_stores st \<noteq> []
          \<and> files (snd (generate_pages float_of lim fmt json_dumps detail_csv data_csv w))
                [u ''docs'', u ''index.html''] = Some (scripts_render_index fmt (p_stores st))
          \<and> (\<forall>s\<in>set (p_stores st).
                files (snd (generate_pages float_of lim fmt json_dumps detail_csv data_csv w))
                  [u ''docs'', u ''stores'', scripts_Store.slug s, u ''index.html'']
                = Some (render_store fmt s))"
    by (rule generate_pages_ok)
qed

theorem empty_result_set_witness:
  "scripts_load_images (Some []) = Inr Map.empty
   \<and> parse_stores example_float 4300 (Some []) Map.empty
        = Inr \<lparr>p_image_lookup = Map.empty, p_stores = []\<rparr>
   \<and> generate_pages example_float 4300 example_fmt example_json (Some []) (Some []) empty_world
        = (Some (SystemExit no_stores_message), empty_world)
   \<and> fst (generate_pages example_float 4300 example_fmt example_json
          (Some example_detail_csv) (Some [[], example_cells]) empty_world) = None
   \<and> snd (generate_pages example_float 4300 example_fmt example_json
          (Some example_detail_csv) (Some [[], example_cells]) empty_world) \<noteq> empty_world
   \<and> parse_stores example_float 4300 (Some [[], example_cells]) example_images
        = Inr example_parsed
   \<and> p_stores example_parsed \<noteq> []
   \<and> files (snd (generate_pages example_float 4300 example_fmt example_json
          (Some example_detail_csv) (Some [[], example_cells]) empty_world))
        [u ''docs'', u ''stores'', scripts_Store.slug example_scripts_store, u ''index.html'']
      = Some (render_store example_fmt example_scripts_store)"
proof -
  let ?g = "generate_pages example_float 4300 example_fmt example_json
          (Some example_detail_csv) (Some [[], example_cells]) empty_world"
  have e1: "scripts_load_images (Some []) = Inr Map.empty"
    by (simp add: scripts_load_images_def)
  have e2: "parse_stores example_float 4300 (Some []) Map.empty
        = Inr \<lparr>p_image_lookup = Map.empty, p_stores = []\<rparr>"
    by (simp add: parse_stores_def)
  note t1 = empty_result_set [where detail_csv = "Some []" and imgs = Map.empty
      and float_of = example_float and lim = 4300 and data_csv = "Some []"
      and st = "\<lparr>p_image_lookup = Map.empty, p_stores = []\<rparr>" and fmt = example_fmt
      and json_dumps = example_json and w = empty_world]
  from t1 e1 e2 have a: "generate_pages example_float 4300 example_fmt example_json (Some [])
      (Some []) empty_world = (Some (SystemExit no_stores_message), empty_world)"
    by simp
  note t2 = empty_result_set [where detail_csv = "Some example_detail_csv"
      and float_of = example_float and lim = 4300 and data_csv = "Some [[], example_cells]"
      and fmt = example_fmt and json_dumps = example_json and w = empty_world]
  have f: "fst ?g = None" by (rule example_site)
  with t2 obtain imgs st where
    g: "scripts_load_images (Some example_detail_csv) = Inr imgs"
       "parse_stores example_float 4300 (Some [[], example_cells]) imgs = Inr st"
       "\<forall>s\<in>set (p_stores st). files (snd ?g)
            [u ''docs'', u ''stores'', scripts_Store.slug s, u ''index.html'']
          = Some (render_store example_fmt s)"
    by blast
  from g(1) have "imgs = example_images" by (simp add: example_detail_csv_loaded)
  with g(2) have "st = example_parsed" by (simp add: example_parse_run)
  with g(3) have h: "files (snd ?g)
        [u ''docs'', u ''stores'', scripts_Store.slug example_scripts_store, u ''index.html'']
      = Some (render_store example_fmt example_scripts_store)"
    by (simp add: example_parsed_def)
  then have n: "snd ?g \<noteq> empty_world" by (auto simp: empty_world_def)
  with t2 have "\<exists>imgs st. scripts_load_images (Some example_detail_csv) = Inr imgs
          \<and> parse_stores example_float 4300 (Some [[], example_cells]) imgs = Inr st
          \<and> p_stores st \<noteq> []" by blast
  then have p: "p_stores example_parsed \<noteq> []"
    by (auto simp: example_detail_csv_loaded example_parse_run)
  from e1 e2 a f n h p example_parse_run show ?thesis by blast
qed

theorem empty_site_published_counterexample:
  "load_stores None (Some []) = Inr []
   \<and> fst (build_site None (Some []) empty_world) = None
   \<and> files (snd (build_site None (Some []) empty_world)) [u ''docs'', u ''index.html'']
        = Some (index_html [])
   \<and> stdout (snd (build_site None (Some []) empty_world))
        = [u ''Generated 0 store pages in docs/'']"
proof -
  have l: "load_stores None (Some []) = Inr []"
    by (simp add: load_stores_def load_images_def bind_err_def)
  with empty_run show ?thesis by (simp add: names_differ)
qed

text \<open>
  \<^bold>\<open>C10\<close> (\<open>slugify\<close> terminates and returns a fresh slug). \<open>slug_loop\<close> is a total function
  (its termination is proved where it is defined), so \<open>slugify\<close> returns for every name and
  every finite set of slugs. The slug it returns is not empty and was not in the set; the
  set it leaves is the old set with the slug added; the slug is the base or the base with
  a counter of at most the size of the set plus one; and the next call does not return
  the same slug.
\<close>

theorem slugify_terminates_fresh:
  "\<exists>s. slugify n existing = (s, finsert s existing) \<and> s |\<notin>| existing \<and> s \<noteq> []
       \<and> (s = slug_base n
            \<or> (\<exists>c. 2 \<le> c \<and> c \<le> fcard existing + 1 \<and> s = candidate (slug_base n) c))
       \<and> fst (slugify n' (finsert s existing)) \<noteq> s"
proof -
  let ?s = "fst (slugify n existing)"
  have 1: "slugify n existing = (?s, finsert ?s existing)"
    using slugify_set [of n existing] by (simp add: prod_eq_iff)
  have 2: "?s = slug_base n
      \<or> (\<exists>c. 2 \<le> c \<and> c \<le> fcard existing + 1 \<and> ?s = candidate (slug_base n) c)"
    using slug_loop_bound [of "slug_base n" existing] by (auto simp: slugify_def Let_def)
  have 3: "fst (slugify n' (finsert ?s existing)) \<noteq> ?s"
    using slugify_fresh [of n' "finsert ?s existing"] by auto
  from 1 2 3 slugify_fresh [of n existing] slugify_slug_not_Nil [of n existing]
  show ?thesis by blast
qed

theorem slugify_terminates_fresh_witness:
  "slugify (u ''Happy Paws'') {|u ''happy-paws''|}
     = (u ''happy-paws-2'', finsert (u ''happy-paws-2'') {|u ''happy-paws''|})
   \<and> u ''happy-paws-2'' |\<notin>| {|u ''happy-paws''|}
   \<and> u ''happy-paws-2'' \<noteq> []
   \<and> fst (slugify (u ''Happy Paws'') (finsert (u ''happy-paws-2'') {|u ''happy-paws''|}))
        \<noteq> u ''happy-paws-2''"
  using slugify_terminates_fresh [of "u ''Happy Paws''" "{|u ''happy-paws''|}" "u ''Happy Paws''"]
    example_slug2
  by auto

end
